(* ===== verification/Prelude.thy ===== *)
theory Prelude
  imports Main "HOL-Library.Word"
begin

text \<open>
  Shared vocabulary of the development: bytes and Rust strings, results with errors as
  values, big-endian integers, the byte-codec interface with its sequence combinator, the
  insert-once registration book, and the step-system interface whose invariants hold along
  every run.
\<close>

named_theorems codec_simps "printing and parsing of byte sequences"
named_theorems fold_simps "loops over index ranges as finite sums"

section \<open>Bytes, strings, results\<close>

type_synonym u8 = "8 word"
type_synonym u16 = "16 word"
type_synonym u32 = "32 word"
type_synonym u64 = "64 word"

text \<open>A Rust slice or \<open>Vec<u8>\<close> is a list of bytes; a Rust \<open>String\<close> is its UTF-8 bytes,
  so that \<open>length\<close> is Rust's \<open>len()\<close>.\<close>

type_synonym bytes = "u8 list"
type_synonym str = "u8 list"

definition ascii :: "string \<Rightarrow> bytes" where
  "ascii s = map (\<lambda>c. of_char c) s"

lemma length_ascii [simp]: "length (ascii s) = length s"
  by (simp add: ascii_def)

text \<open>A Rust call either returns, returns an error value, or panics.\<close>

datatype failure = Err string | Panic string

definition rbind :: "'e + 'a \<Rightarrow> ('a \<Rightarrow> 'e + 'b) \<Rightarrow> 'e + 'b" where
  "rbind r f = (case r of Inl e \<Rightarrow> Inl e | Inr x \<Rightarrow> f x)"

lemma rbind_simps [simp]:
  "rbind (Inl e) f = Inl e"
  "rbind (Inr x) f = f x"
  by (simp_all add: rbind_def)

lemma rbind_Inr_iff: "rbind r f = Inr y \<longleftrightarrow> (\<exists>x. r = Inr x \<and> f x = Inr y)"
  by (cases r) auto

lemma rbind_InrE:
  assumes "rbind r f = Inr y"
  obtains x where "r = Inr x" "f x = Inr y"
  using assms by (auto simp: rbind_Inr_iff)

definition ok_or :: "'a option \<Rightarrow> 'e \<Rightarrow> 'e + 'a" where
  "ok_or x e = (case x of None \<Rightarrow> Inl e | Some v \<Rightarrow> Inr v)"

lemma ok_or_simps [simp]: "ok_or None e = Inl e" "ok_or (Some v) e = Inr v"
  by (simp_all add: ok_or_def)

lemma ok_or_Inr_iff [simp]: "ok_or x e = Inr v \<longleftrightarrow> x = Some v"
  by (cases x) auto

definition map_err :: "('e \<Rightarrow> 'd) \<Rightarrow> 'e + 'a \<Rightarrow> 'd + 'a" where
  "map_err f r = (case r of Inl e \<Rightarrow> Inl (f e) | Inr x \<Rightarrow> Inr x)"

lemma map_err_simps [simp]: "map_err f (Inl e) = Inl (f e)" "map_err f (Inr x) = Inr x"
  by (simp_all add: map_err_def)

lemma map_err_Inr_iff [simp]: "map_err f r = Inr x \<longleftrightarrow> r = Inr x"
  by (cases r) auto

definition guard_err :: "bool \<Rightarrow> 'e \<Rightarrow> 'e + unit" where
  "guard_err bad e = (if bad then Inl e else Inr ())"

lemma guard_err_Inr_iff [simp]: "guard_err bad e = Inr u \<longleftrightarrow> \<not> bad"
  by (simp add: guard_err_def)

lemma guard_err_simps [simp]: "guard_err True e = Inl e" "guard_err False e = Inr ()"
  by (simp_all add: guard_err_def)

lemma if_result_iff:
  "(if c then Inl e else r) = Inr x \<longleftrightarrow> \<not> c \<and> r = Inr x"
  "(if c then r else Inl e) = Inr x \<longleftrightarrow> c \<and> r = Inr x"
  by simp_all

text \<open>\<open>iter().map(f).collect::<Result<Vec<_>, _>>()\<close>: the first error wins.\<close>

fun collect_res :: "('a \<Rightarrow> 'e + 'b) \<Rightarrow> 'a list \<Rightarrow> 'e + 'b list" where
  "collect_res f [] = Inr []"
| "collect_res f (x # xs) =
     rbind (f x) (\<lambda>y. rbind (collect_res f xs) (\<lambda>ys. Inr (y # ys)))"

lemma collect_res_map:
  "(\<And>x. x \<in> set xs \<Longrightarrow> f x = Inr (g x)) \<Longrightarrow> collect_res f xs = Inr (map g xs)"
  by (induction xs) auto

lemma collect_res_source: "collect_res f xs = Inr ys \<Longrightarrow> y \<in> set ys \<Longrightarrow> \<exists>x\<in>set xs. f x = Inr y"
  by (induction xs arbitrary: ys) (auto simp: rbind_Inr_iff)

lemma collect_res_length: "collect_res f xs = Inr ys \<Longrightarrow> length ys = length xs"
  by (induction xs arbitrary: ys) (auto simp: rbind_Inr_iff)

text \<open>\<open>TryInto<[u8; n]>\<close> of a byte slice: only a slice of exactly \<open>n\<close> bytes converts.\<close>

definition try_into_array :: "nat \<Rightarrow> bytes \<Rightarrow> bytes option" where
  "try_into_array n b = (if length b = n then Some b else None)"

lemma try_into_array_Some [simp]: "try_into_array n b = Some c \<longleftrightarrow> length b = n \<and> c = b"
  by (auto simp: try_into_array_def)

lemma try_into_array_None [simp]: "try_into_array n b = None \<longleftrightarrow> length b \<noteq> n"
  by (auto simp: try_into_array_def)

section \<open>Index loops\<close>

text \<open>What a successful and a failed search show.\<close>

lemma find_SomeD: "find P xs = Some y \<Longrightarrow> P y \<and> y \<in> set xs"
  by (induction xs) (auto split: if_splits)

lemma find_NoneD: "find P xs = None \<Longrightarrow> y \<in> set xs \<Longrightarrow> \<not> P y"
  by (induction xs) (auto split: if_splits)

text \<open>\<open>std::array::from_fn\<close> and the accumulating \<open>for k in 0..n\<close> loop.\<close>

definition from_fn :: "nat \<Rightarrow> (nat \<Rightarrow> 'a) \<Rightarrow> 'a list" where
  "from_fn n f = map f [0..<n]"

lemma length_from_fn [simp]: "length (from_fn n f) = n"
  by (simp add: from_fn_def)

lemma nth_from_fn [simp]: "k < n \<Longrightarrow> from_fn n f ! k = f k"
  by (simp add: from_fn_def)

lemma from_fn_cong: "(\<And>k. k < n \<Longrightarrow> f k = g k) \<Longrightarrow> from_fn n f = from_fn n g"
  by (simp add: from_fn_def)

lemma map_from_fn: "map h (from_fn n f) = from_fn n (\<lambda>k. h (f k))"
  by (simp add: from_fn_def)

lemma from_fn_nth: "length xs = n \<Longrightarrow> from_fn n (\<lambda>k. xs ! k) = xs"
  by (auto simp: from_fn_def intro: nth_equalityI)

lemma from_fn_inj_nth: "from_fn n f = from_fn n g \<Longrightarrow> k < n \<Longrightarrow> f k = g k"
  by (metis nth_from_fn)

definition acc_loop :: "'a::ab_group_add \<Rightarrow> nat \<Rightarrow> (nat \<Rightarrow> 'a) \<Rightarrow> 'a" where
  "acc_loop z n f = foldl (\<lambda>acc k. acc + f k) z [0..<n]"

lemma acc_loop_sum [fold_simps]: "acc_loop z n f = z + (\<Sum>k<n. f k)"
  by (induction n) (simp_all add: acc_loop_def algebra_simps)

lemma foldl_add_sum_list:
  fixes z :: "'a::ab_group_add"
  shows "foldl (\<lambda>acc x. acc + f x) z xs = z + (\<Sum>x\<leftarrow>xs. f x)"
  by (induction xs arbitrary: z) (simp_all add: algebra_simps)

lemma sum_list_nth: "(\<Sum>x\<leftarrow>xs. f x) = (\<Sum>i<length xs. f (xs ! i))"
  by (simp add: sum_list_sum_nth atLeast0LessThan)

section \<open>Big-endian integers\<close>

fun be_bytes :: "nat \<Rightarrow> nat \<Rightarrow> bytes" where
  "be_bytes 0 v = []"
| "be_bytes (Suc n) v = word_of_nat (v div 256 ^ n) # be_bytes n v"

definition be_val :: "bytes \<Rightarrow> nat" where
  "be_val b = foldl (\<lambda>acc x. acc * 256 + unat x) 0 b"

lemma length_be_bytes [simp]: "length (be_bytes n v) = n"
  by (induction n) auto

lemma be_val_foldl:
  "foldl (\<lambda>acc x. acc * 256 + unat x) z b = z * 256 ^ length b + be_val b"
proof (induction b arbitrary: z)
  case Nil
  then show ?case by (simp add: be_val_def)
next
  case (Cons x b)
  show ?case
    using Cons [of "z * 256 + unat x"] Cons [of "unat x"]
    by (simp add: be_val_def algebra_simps)
qed

lemma be_val_Cons: "be_val (x # b) = unat x * 256 ^ length b + be_val b"
  using be_val_foldl [of "unat x" b] by (simp add: be_val_def)

lemma be_val_Nil [simp]: "be_val [] = 0"
  by (simp add: be_val_def)

lemma be_val_bytes: "be_val (be_bytes n v) = v mod 256 ^ n"
proof (induction n)
  case 0
  then show ?case by simp
next
  case (Suc n)
  have "v mod 256 ^ Suc n = 256 ^ n * (v div 256 ^ n mod 256) + v mod 256 ^ n"
    by (simp only: power_Suc2 mod_mult2_eq)
  moreover have "unat (word_of_nat (v div 256 ^ n) :: u8) = v div 256 ^ n mod 256"
    by (simp add: unat_of_nat)
  ultimately show ?case
    using Suc by (simp add: be_val_Cons)
qed

lemma be_val_bound: "be_val b < 256 ^ length b"
proof (induction b)
  case Nil
  then show ?case by simp
next
  case (Cons x b)
  have "unat x < 256"
    using unsigned_less [of x] by simp
  then have "unat x * 256 ^ length b + be_val b < 256 ^ length b * Suc (unat x)"
    using Cons by simp
  also have "\<dots> \<le> 256 ^ length b * 256"
    using \<open>unat x < 256\<close> by (intro mult_le_mono2) simp
  finally show ?case by (simp add: be_val_Cons mult.commute)
qed

lemma unat_less_pow: "unat (w :: 'a::len word) < 2 ^ LENGTH('a)"
  by (rule unsigned_less)

text \<open>\<open>uN::to_be_bytes\<close> and \<open>uN::from_be_bytes\<close>.\<close>

definition u16_be :: "u16 \<Rightarrow> bytes" where "u16_be w = be_bytes 2 (unat w)"
definition u32_be :: "u32 \<Rightarrow> bytes" where "u32_be w = be_bytes 4 (unat w)"
definition u64_be :: "u64 \<Rightarrow> bytes" where "u64_be w = be_bytes 8 (unat w)"
definition u16_of_be :: "bytes \<Rightarrow> u16" where "u16_of_be b = word_of_nat (be_val b)"
definition u32_of_be :: "bytes \<Rightarrow> u32" where "u32_of_be b = word_of_nat (be_val b)"

lemma length_uint_be [simp]:
  "length (u16_be a) = 2" "length (u32_be b) = 4" "length (u64_be c) = 8"
  by (simp_all add: u16_be_def u32_be_def u64_be_def)

lemma u16_of_be_u16_be [simp]: "u16_of_be (u16_be w) = w"
  using unat_less_pow [of w] by (simp add: u16_of_be_def u16_be_def be_val_bytes)

lemma u32_of_be_u32_be [simp]: "u32_of_be (u32_be w) = w"
  using unat_less_pow [of w] by (simp add: u32_of_be_def u32_be_def be_val_bytes)

lemma u64_be_inj: "u64_be v = u64_be w \<Longrightarrow> v = w"
proof -
  assume "u64_be v = u64_be w"
  then have "be_val (u64_be v) = be_val (u64_be w)" by simp
  then show ?thesis
    using unat_less_pow [of v] unat_less_pow [of w] by (simp add: u64_be_def be_val_bytes word_unat_eq_iff)
qed

text \<open>Decimal digits, as \<open>format!("{l}")\<close> prints an unsigned integer.\<close>

fun show_nat :: "nat \<Rightarrow> bytes" where
  "show_nat n =
     (if n < 10 then [word_of_nat (48 + n)]
      else show_nat (n div 10) @ [word_of_nat (48 + n mod 10)])"

declare show_nat.simps [simp del]

section \<open>Interfaces\<close>

text \<open>A byte codec: decoding what was printed gives the value back and leaves the rest of
  the input. \<open>ok\<close> is the range of values the printer can represent.\<close>

fun dec_seq :: "(bytes \<Rightarrow> 'e + 'a \<times> bytes) \<Rightarrow> nat \<Rightarrow> bytes \<Rightarrow> 'e + 'a list \<times> bytes" where
  "dec_seq d 0 b = Inr ([], b)"
| "dec_seq d (Suc n) b =
     rbind (d b) (\<lambda>(x, b'). rbind (dec_seq d n b') (\<lambda>(xs, b''). Inr (x # xs, b'')))"

lemma dec_seq_length: "dec_seq d n b = Inr (xs, b') \<Longrightarrow> length xs = n"
  by (induction n arbitrary: b xs b') (auto simp: rbind_Inr_iff)

locale codec =
  fixes enc :: "'a \<Rightarrow> bytes"
    and dec :: "bytes \<Rightarrow> 'e + 'a \<times> bytes"
    and ok :: "'a \<Rightarrow> bool"
  assumes dec_enc: "ok x \<Longrightarrow> dec (enc x @ rest) = Inr (x, rest)"
begin

lemma enc_inj: "ok x \<Longrightarrow> ok y \<Longrightarrow> enc x @ r = enc y @ r' \<Longrightarrow> x = y \<and> r = r'"
  by (metis dec_enc prod.inject sum.inject(2))

lemma dec_enc_seq:
  "\<forall>x\<in>set xs. ok x \<Longrightarrow> n = length xs \<Longrightarrow>
     dec_seq dec n (concat (map enc xs) @ rest) = Inr (xs, rest)"
  by (induction xs arbitrary: n) (auto simp: dec_enc)

end

text \<open>An insert-once book: an attempt that succeeds had a fresh key and writes exactly the
  entry of that key; an attempt that fails leaves the book as it was.\<close>

definition after_attempt :: "('s \<Rightarrow> 'r \<Rightarrow> 'e + 's) \<Rightarrow> 's \<Rightarrow> 'r \<Rightarrow> 's" where
  "after_attempt attempt s r = (case attempt s r of Inl _ \<Rightarrow> s | Inr s' \<Rightarrow> s')"

fun accepted :: "('s \<Rightarrow> 'r \<Rightarrow> 'e + 's) \<Rightarrow> 's \<Rightarrow> 'r list \<Rightarrow> 'r list" where
  "accepted attempt s [] = []"
| "accepted attempt s (r # rs) =
     (case attempt s r of
        Inl _ \<Rightarrow> accepted attempt s rs
      | Inr s' \<Rightarrow> r # accepted attempt s' rs)"

locale registration_book =
  fixes lookup :: "'s \<Rightarrow> 'k \<Rightarrow> 'v option"
    and attempt :: "'s \<Rightarrow> 'r \<Rightarrow> 'e + 's"
    and key :: "'r \<Rightarrow> 'k"
    and entry :: "'r \<Rightarrow> 'v"
  assumes attempt_fresh: "attempt s r = Inr s' \<Longrightarrow> lookup s (key r) = None"
    and attempt_writes: "attempt s r = Inr s' \<Longrightarrow> lookup s' = (lookup s)(key r \<mapsto> entry r)"
begin

lemma after_attempt_keeps: "lookup s k = Some v \<Longrightarrow> lookup (after_attempt attempt s r) k = Some v"
  by (auto simp: after_attempt_def attempt_writes split: sum.splits dest: attempt_fresh)

lemma run_keeps: "lookup s k = Some v \<Longrightarrow> lookup (foldl (after_attempt attempt) s rs) k = Some v"
  by (induction rs arbitrary: s) (auto simp: after_attempt_keeps)

lemma taken_key_rejected: "lookup s (key r) = Some v \<Longrightarrow> \<exists>e. attempt s r = Inl e"
  by (cases "attempt s r") (auto dest: attempt_fresh)

lemma replay_rejected:
  assumes "attempt s r = Inr s'" and "key r' = key r"
  shows "\<exists>e. attempt (foldl (after_attempt attempt) s' rs) r' = Inl e"
proof -
  have "lookup s' (key r) = Some (entry r)"
    using attempt_writes [OF assms(1)] by simp
  then have "lookup (foldl (after_attempt attempt) s' rs) (key r') = Some (entry r)"
    using assms(2) by (simp add: run_keeps)
  then show ?thesis by (rule taken_key_rejected)
qed

lemma accepted_avoid_taken: "lookup s k \<noteq> None \<Longrightarrow> k \<notin> key ` set (accepted attempt s rs)"
proof (induction rs arbitrary: s)
  case Nil
  then show ?case by simp
next
  case (Cons r rs)
  show ?case
  proof (cases "attempt s r")
    case (Inl e)
    with Cons show ?thesis by simp
  next
    case (Inr s')
    then have "lookup s (key r) = None" and "lookup s' k \<noteq> None"
      using Cons.prems attempt_fresh attempt_writes by auto
    with Inr Cons show ?thesis by auto
  qed
qed

lemma accepted_keys_distinct: "distinct (map key (accepted attempt s rs))"
proof (induction rs arbitrary: s)
  case Nil
  then show ?case by simp
next
  case (Cons r rs)
  show ?case
  proof (cases "attempt s r")
    case (Inl e)
    with Cons show ?thesis by simp
  next
    case (Inr s')
    then have "key r \<notin> key ` set (accepted attempt s' rs)"
      by (intro accepted_avoid_taken) (simp add: attempt_writes)
    with Inr Cons show ?thesis by simp
  qed
qed

end

text \<open>A step system: an invariant every step keeps holds along every run; with a preorder
  that every step respects, every run respects it.\<close>

locale step_system =
  fixes step :: "'s \<Rightarrow> 'e \<Rightarrow> 's"
    and inv :: "'s \<Rightarrow> bool"
  assumes step_inv: "inv s \<Longrightarrow> inv (step s e)"
begin

lemma run_inv: "inv s \<Longrightarrow> inv (foldl step s es)"
  by (induction es arbitrary: s) (auto simp: step_inv)

end

locale growing_system = step_system +
  fixes le :: "'a \<Rightarrow> 'a \<Rightarrow> bool"
  assumes le_refl: "le s s"
    and le_trans: "le s t \<Longrightarrow> le t u \<Longrightarrow> le s u"
    and step_le: "inv s \<Longrightarrow> le s (step s e)"
begin

lemma run_le: "inv s \<Longrightarrow> le s (foldl step s es)"
proof (induction es arbitrary: s)
  case Nil
  then show ?case by (simp add: le_refl)
next
  case (Cons e es)
  then have "le (step s e) (foldl step (step s e) es)"
    by (intro Cons.IH step_inv)
  with step_le [OF Cons.prems] show ?case
    by (auto intro: le_trans)
qed

end

end
