(* ===== verification/Backend.thy ===== *)
theory Backend
  imports Prelude
begin

text \<open>
  The cryptographic backend and \<open>src/src/core/utils.rs\<close>. The crates k256, sha2 and hkdf are
  not part of the repository: their operations are the fields of a record, and what the code
  relies on is stated by \<open>mul_laws\<close>, \<open>codec_laws\<close> and \<open>digest_laws\<close>. Scalars
  (\<open>k256::Scalar\<close>) are the elements of a field type \<open>'s\<close>, points
  (\<open>k256::ProjectivePoint\<close>, up to the projective representation that \<open>to_affine\<close> removes)
  the elements of a commutative group type \<open>'p\<close>. The constant \<open>M\<close>, which the build script
  generates, is the field \<open>bk_M\<close>.
\<close>

named_theorems mul_simps "laws of scalar multiplication, as rewrite rules"

section \<open>The backend\<close>

record ('s, 'p) backend =
  bk_M :: nat
  bk_mul :: "'p \<Rightarrow> 's \<Rightarrow> 'p"
  bk_to_bytes :: "'p \<Rightarrow> bytes"
  bk_from_bytes :: "bytes \<Rightarrow> 'p option"
  bk_reduce :: "bytes \<Rightarrow> 's"
  bk_repr :: "'s \<Rightarrow> bytes"
  bk_sha256 :: "bytes \<Rightarrow> bytes"
  bk_hkdf :: "bytes \<Rightarrow> bytes \<Rightarrow> bytes \<Rightarrow> bytes"
  bk_hash_to_curve :: "bytes \<Rightarrow> bytes \<Rightarrow> 'p"

text \<open>The group is a module over the scalar field.\<close>

definition mul_laws :: "('s::field, 'p::ab_group_add) backend \<Rightarrow> bool" where
  "mul_laws B \<longleftrightarrow>
     (\<forall>P a b. bk_mul B P (a + b) = bk_mul B P a + bk_mul B P b) \<and>
     (\<forall>P Q a. bk_mul B (P + Q) a = bk_mul B P a + bk_mul B Q a) \<and>
     (\<forall>P a b. bk_mul B (bk_mul B P a) b = bk_mul B P (a * b)) \<and>
     (\<forall>P. bk_mul B P 1 = P)"

text \<open>Compressed SEC1 points are 33 bytes and decode to what they encode; a scalar is 32
  bytes and reducing its representation gives it back.\<close>

definition codec_laws :: "('s::field, 'p::ab_group_add) backend \<Rightarrow> bool" where
  "codec_laws B \<longleftrightarrow>
     (\<forall>P. bk_from_bytes B (bk_to_bytes B P) = Some P) \<and>
     (\<forall>P. length (bk_to_bytes B P) = 33) \<and>
     (\<forall>s. bk_reduce B (bk_repr B s) = s) \<and>
     (\<forall>s. length (bk_repr B s) = 32)"

definition digest_laws :: "('s::field, 'p::ab_group_add) backend \<Rightarrow> bool" where
  "digest_laws B \<longleftrightarrow>
     (\<forall>m. length (bk_sha256 B m) = 32) \<and>
     (\<forall>salt ikm info. length (bk_hkdf B salt ikm info) = 32)"

lemma mul_add_left [mul_simps]:
  "mul_laws B \<Longrightarrow> bk_mul B P (a + b) = bk_mul B P a + bk_mul B P b"
  by (simp add: mul_laws_def)

lemma mul_add_right [mul_simps]:
  "mul_laws B \<Longrightarrow> bk_mul B (P + Q) a = bk_mul B P a + bk_mul B Q a"
  by (simp add: mul_laws_def)

lemma mul_mul [mul_simps]: "mul_laws B \<Longrightarrow> bk_mul B (bk_mul B P a) b = bk_mul B P (a * b)"
  by (simp add: mul_laws_def)

lemma mul_one [mul_simps]: "mul_laws B \<Longrightarrow> bk_mul B P 1 = P"
  by (simp add: mul_laws_def)

lemma mul_zero_left [mul_simps]:
  assumes "mul_laws B" shows "bk_mul B P 0 = 0"
  using mul_add_left [OF assms, of P 0 0] by simp

lemma mul_zero_right [mul_simps]:
  assumes "mul_laws B" shows "bk_mul B 0 a = 0"
  using mul_add_right [OF assms, of 0 0 a] by simp

lemma mul_minus_left [mul_simps]:
  assumes "mul_laws B" shows "bk_mul B P (- a) = - bk_mul B P a"
proof -
  have "bk_mul B P a + bk_mul B P (- a) = 0"
    using mul_add_left [OF assms, of P a "- a"] by (simp add: mul_zero_left [OF assms])
  then show ?thesis by (simp add: eq_neg_iff_add_eq_0 add.commute)
qed

lemma mul_minus_right [mul_simps]:
  assumes "mul_laws B" shows "bk_mul B (- P) a = - bk_mul B P a"
proof -
  have "bk_mul B P a + bk_mul B (- P) a = 0"
    using mul_add_right [OF assms, of P "- P" a] by (simp add: mul_zero_right [OF assms])
  then show ?thesis by (simp add: eq_neg_iff_add_eq_0 add.commute)
qed

lemma mul_diff_left [mul_simps]:
  "mul_laws B \<Longrightarrow> bk_mul B P (a - b) = bk_mul B P a - bk_mul B P b"
  using mul_add_left [of B P a "- b"] by (simp add: mul_minus_left)

lemma mul_diff_right [mul_simps]:
  "mul_laws B \<Longrightarrow> bk_mul B (P - Q) a = bk_mul B P a - bk_mul B Q a"
  using mul_add_right [of B P "- Q" a] by (simp add: mul_minus_right)

lemma mul_sum_left: "mul_laws B \<Longrightarrow> bk_mul B P (\<Sum>i\<in>I. f i) = (\<Sum>i\<in>I. bk_mul B P (f i))"
  by (induction I rule: infinite_finite_induct) (simp_all add: mul_simps)

lemma mul_sum_right: "mul_laws B \<Longrightarrow> bk_mul B (\<Sum>i\<in>I. f i) a = (\<Sum>i\<in>I. bk_mul B (f i) a)"
  by (induction I rule: infinite_finite_induct) (simp_all add: mul_simps)

text \<open>In a module over a field, a nonzero scalar can be divided out.\<close>

lemma mul_cancel:
  assumes "mul_laws B" and "bk_mul B P a = Q" and "a \<noteq> 0"
  shows "P = bk_mul B Q (inverse a)"
proof -
  have "bk_mul B Q (inverse a) = bk_mul B (bk_mul B P a) (inverse a)"
    by (simp only: assms(2))
  also have "\<dots> = bk_mul B P (a * inverse a)"
    by (rule mul_mul [OF assms(1)])
  also have "\<dots> = P"
    by (simp only: right_inverse [OF assms(3)] mul_one [OF assms(1)])
  finally show ?thesis ..
qed

lemma from_to_bytes [simp]: "codec_laws B \<Longrightarrow> bk_from_bytes B (bk_to_bytes B P) = Some P"
  unfolding codec_laws_def by blast

lemma length_to_bytes [simp]: "codec_laws B \<Longrightarrow> length (bk_to_bytes B P) = 33"
  unfolding codec_laws_def by blast

lemma reduce_repr [simp]: "codec_laws B \<Longrightarrow> bk_reduce B (bk_repr B s) = s"
  unfolding codec_laws_def by blast

lemma length_repr [simp]: "codec_laws B \<Longrightarrow> length (bk_repr B s) = 32"
  unfolding codec_laws_def by blast

lemma length_sha256 [simp]: "digest_laws B \<Longrightarrow> length (bk_sha256 B m) = 32"
  by (simp add: digest_laws_def)

lemma length_hkdf [simp]: "digest_laws B \<Longrightarrow> length (bk_hkdf B salt ikm info) = 32"
  by (simp add: digest_laws_def)

lemma to_bytes_inj: "codec_laws B \<Longrightarrow> bk_to_bytes B P = bk_to_bytes B Q \<longleftrightarrow> P = Q"
  by (metis from_to_bytes option.inject)

section \<open>core/utils.rs\<close>

definition N_of :: "('s, 'p) backend \<Rightarrow> nat" where
  "N_of B = push_bit (bk_M B) 1"

lemma N_of_pow: "N_of B = 2 ^ bk_M B"
  by (simp add: N_of_def)

definition CRS_DST :: bytes where
  "CRS_DST = ascii ''CRS-ASC-v1''"

definition h_generator :: "('s, 'p) backend \<Rightarrow> 'p" where
  "h_generator B = bk_hash_to_curve B (ascii ''veiled-H'') (ascii ''veiled-commitment-v1'')"

definition bytes_to_scalar :: "('s, 'p) backend \<Rightarrow> bytes \<Rightarrow> 's" where
  "bytes_to_scalar B b = bk_reduce B b"

definition scalar_to_bytes :: "('s, 'p) backend \<Rightarrow> 's \<Rightarrow> bytes" where
  "scalar_to_bytes B s = bk_repr B s"

definition scalar_from_bytes :: "('s, 'p) backend \<Rightarrow> bytes \<Rightarrow> 's" where
  "scalar_from_bytes B b = bytes_to_scalar B b"

definition point_to_bytes :: "('s, 'p) backend \<Rightarrow> 'p \<Rightarrow> bytes" where
  "point_to_bytes B P = bk_to_bytes B P"

definition point_from_bytes :: "('s, 'p) backend \<Rightarrow> bytes \<Rightarrow> 'p option" where
  "point_from_bytes B b = bk_from_bytes B b"

lemma scalar_round_trip [simp]:
  "codec_laws B \<Longrightarrow> scalar_from_bytes B (scalar_to_bytes B s) = s"
  by (simp add: scalar_from_bytes_def bytes_to_scalar_def scalar_to_bytes_def)

lemma point_round_trip [simp]:
  "codec_laws B \<Longrightarrow> point_from_bytes B (point_to_bytes B P) = Some P"
  by (simp add: point_from_bytes_def point_to_bytes_def)

lemma length_point_to_bytes [simp]: "codec_laws B \<Longrightarrow> length (point_to_bytes B P) = 33"
  by (simp add: point_to_bytes_def)

lemma length_scalar_to_bytes [simp]: "codec_laws B \<Longrightarrow> length (scalar_to_bytes B s) = 32"
  by (simp add: scalar_to_bytes_def)

lemma point_to_bytes_inj: "codec_laws B \<Longrightarrow> point_to_bytes B P = point_to_bytes B Q \<longleftrightarrow> P = Q"
  by (simp add: point_to_bytes_def to_bytes_inj)

text \<open>The Pedersen commitment \<open>r\<cdot>G + v\<cdot>H\<close>; the standard generator \<open>G\<close> of k256 is the
  argument.\<close>

definition commit :: "('s, 'p::ab_group_add) backend \<Rightarrow> 'p \<Rightarrow> bytes \<Rightarrow> bytes \<Rightarrow> bytes" where
  "commit B G nullifier blinding =
     (let v = bytes_to_scalar B nullifier; r = bytes_to_scalar B blinding;
          h = h_generator B; c = bk_mul B G r + bk_mul B h v
      in bk_to_bytes B c)"

definition bit_generator_tag :: "nat \<Rightarrow> bytes" where
  "bit_generator_tag k = ascii ''CRS-ASC-bit-generator-'' @ show_nat k"

definition bit_generators :: "('s, 'p) backend \<Rightarrow> 'p list" where
  "bit_generators B =
     from_fn (bk_M B) (\<lambda>k. bk_hash_to_curve B (bit_generator_tag k) CRS_DST)"

lemma length_bit_generators [simp]: "length (bit_generators B) = bk_M B"
  by (simp add: bit_generators_def)

text \<open>\<open>OsRng\<close> is the stream of 32-byte buffers it fills: draw number \<open>i\<close> is \<open>rng i\<close>.\<close>

type_synonym rng = "nat \<Rightarrow> bytes"

definition random_scalar :: "('s, 'p) backend \<Rightarrow> rng \<Rightarrow> nat \<Rightarrow> 's" where
  "random_scalar B rng i = bytes_to_scalar B (rng i)"

text \<open>The bytes hashed by the two Fiat-Shamir challenges, in the order of the
  \<open>hasher.update\<close> calls.\<close>

definition fiat_shamir_preimage ::
    "('s, 'p) backend \<Rightarrow> 'p \<Rightarrow> bytes \<Rightarrow> bytes \<Rightarrow> nat \<Rightarrow> bytes \<Rightarrow> bytes \<Rightarrow> 'p list \<Rightarrow>
      'p \<Rightarrow> 'p \<Rightarrow> 'p \<Rightarrow> 'p \<Rightarrow> 'p list \<Rightarrow> bytes" where
  "fiat_shamir_preimage B g pseudonym public_nullifier service_index set_id name_scalar
      d_set a b c d e_poly =
     ascii ''CRS-ASC-service-registration-v1'' @
     point_to_bytes B g @ pseudonym @ public_nullifier @
     u64_be (word_of_nat service_index) @ set_id @ name_scalar @
     concat (map (point_to_bytes B) d_set) @
     point_to_bytes B a @ point_to_bytes B b @ point_to_bytes B c @ point_to_bytes B d @
     concat (map (point_to_bytes B) e_poly)"

definition fiat_shamir_challenge ::
    "('s, 'p) backend \<Rightarrow> 'p \<Rightarrow> bytes \<Rightarrow> bytes \<Rightarrow> nat \<Rightarrow> bytes \<Rightarrow> bytes \<Rightarrow> 'p list \<Rightarrow>
      'p \<Rightarrow> 'p \<Rightarrow> 'p \<Rightarrow> 'p \<Rightarrow> 'p list \<Rightarrow> 's" where
  "fiat_shamir_challenge B g pseudonym public_nullifier service_index set_id name_scalar
      d_set a b c d e_poly =
     bytes_to_scalar B (bk_sha256 B
       (fiat_shamir_preimage B g pseudonym public_nullifier service_index set_id name_scalar
          d_set a b c d e_poly))"

definition schnorr_challenge :: "('s, 'p) backend \<Rightarrow> 'p \<Rightarrow> bytes \<Rightarrow> 'p \<Rightarrow> 's" where
  "schnorr_challenge B g public_nullifier r_point =
     bytes_to_scalar B (bk_sha256 B
       (ascii ''CRS-ASC-schnorr-nullifier'' @ point_to_bytes B g @ public_nullifier @
        point_to_bytes B r_point))"

end
