(* ===== verification/Types.thy ===== *)
theory Types
  imports Backend
begin

text \<open>
  \<open>src/src/core/types.rs\<close> and the build script \<open>src/build.rs\<close>: names bounded at 255
  bytes, the fixed-size anonymity set, the hex forms of the byte-array types, and the choice
  of the constant \<open>M\<close>. Byte-array newtypes (\<open>Nullifier\<close>, \<open>Commitment\<close>, \<dots>) are byte
  lists; their fixed length is stated where it matters. The hex crate is a parameter.
\<close>

section \<open>UTF-8\<close>

text \<open>\<open>std::str::from_utf8\<close> accepts exactly the well-formed sequences of the Unicode table.\<close>

definition byte_in :: "nat \<Rightarrow> nat \<Rightarrow> u8 \<Rightarrow> bool" where
  "byte_in lo hi b \<longleftrightarrow> lo \<le> unat b \<and> unat b \<le> hi"

definition cont_byte :: "u8 \<Rightarrow> bool" where
  "cont_byte = byte_in 0x80 0xBF"

fun utf8_valid :: "bytes \<Rightarrow> bool" where
  "utf8_valid [] = True"
| "utf8_valid (b # bs) =
     (if byte_in 0 0x7F b then utf8_valid bs
      else (case bs of
        [] \<Rightarrow> False
      | b1 # r1 \<Rightarrow>
          if byte_in 0xC2 0xDF b then cont_byte b1 \<and> utf8_valid r1
          else (case r1 of
            [] \<Rightarrow> False
          | b2 # r2 \<Rightarrow>
              if byte_in 0xE0 0xEF b then
                (if unat b = 0xE0 then byte_in 0xA0 0xBF b1
                 else if unat b = 0xED then byte_in 0x80 0x9F b1 else cont_byte b1)
                \<and> cont_byte b2 \<and> utf8_valid r2
              else (case r2 of
                [] \<Rightarrow> False
              | b3 # r3 \<Rightarrow>
                  byte_in 0xF0 0xF4 b \<and>
                  (if unat b = 0xF0 then byte_in 0x90 0xBF b1
                   else if unat b = 0xF4 then byte_in 0x80 0x8F b1 else cont_byte b1)
                  \<and> cont_byte b2 \<and> cont_byte b3 \<and> utf8_valid r3))))"

definition from_utf8 :: "bytes \<Rightarrow> str option" where
  "from_utf8 b = (if utf8_valid b then Some b else None)"

lemma from_utf8_Some [simp]: "from_utf8 b = Some s \<longleftrightarrow> utf8_valid b \<and> s = b"
  by (auto simp: from_utf8_def)

lemma from_utf8_None [simp]: "from_utf8 b = None \<longleftrightarrow> \<not> utf8_valid b"
  by (simp add: from_utf8_def)

section \<open>Names\<close>

definition NAME_MAX_LEN :: nat where "NAME_MAX_LEN = 255"

definition name_try_new :: "str \<Rightarrow> failure + str" where
  "name_try_new s =
     (if length s > NAME_MAX_LEN then Inl (Err ''name too long'') else Inr s)"

text \<open>\<open>Name::new\<close> unwraps, so an over-long name is a panic.\<close>

definition name_new :: "str \<Rightarrow> failure + str" where
  "name_new s =
     (case name_try_new s of Inl _ \<Rightarrow> Inl (Panic ''name exceeds MAX_LEN'') | Inr n \<Rightarrow> Inr n)"

text \<open>\<open>Deserialize for Name\<close>, from the string the deserializer delivers (\<open>None\<close> when it
  fails).\<close>

definition name_deserialize :: "str option \<Rightarrow> failure + str" where
  "name_deserialize d =
     (case d of None \<Rightarrow> Inl (Err ''deserializer'')
      | Some s \<Rightarrow> if length s > NAME_MAX_LEN then Inl (Err ''name too long'') else Inr s)"

definition friendly_name_try_new :: "str \<Rightarrow> failure + str" where
  "friendly_name_try_new s =
     (if length s > NAME_MAX_LEN then Inl (Err ''friendly name too long'') else Inr s)"

definition friendly_name_new :: "str \<Rightarrow> failure + str" where
  "friendly_name_new s =
     (case friendly_name_try_new s of
        Inl _ \<Rightarrow> Inl (Panic ''friendly name exceeds MAX_LEN'') | Inr n \<Rightarrow> Inr n)"

definition friendly_name_deserialize :: "str option \<Rightarrow> failure + str" where
  "friendly_name_deserialize d =
     (case d of None \<Rightarrow> Inl (Err ''deserializer'')
      | Some s \<Rightarrow>
          if length s > NAME_MAX_LEN then Inl (Err ''friendly name too long'') else Inr s)"

definition to_scalar_bytes :: "('s, 'p) backend \<Rightarrow> str \<Rightarrow> bytes" where
  "to_scalar_bytes B name = bk_sha256 B name"

lemma name_try_new_Inr [simp]:
  "name_try_new s = Inr n \<longleftrightarrow> length s \<le> 255 \<and> n = s"
  by (auto simp: name_try_new_def NAME_MAX_LEN_def)

lemma name_new_Inr [simp]: "name_new s = Inr n \<longleftrightarrow> length s \<le> 255 \<and> n = s"
  by (auto simp: name_new_def name_try_new_def NAME_MAX_LEN_def)

lemma name_new_panics [simp]:
  "255 < length s \<Longrightarrow> name_new s = Inl (Panic ''name exceeds MAX_LEN'')"
  by (simp add: name_new_def name_try_new_def NAME_MAX_LEN_def)

lemma friendly_name_new_Inr [simp]:
  "friendly_name_new s = Inr n \<longleftrightarrow> length s \<le> 255 \<and> n = s"
  by (auto simp: friendly_name_new_def friendly_name_try_new_def NAME_MAX_LEN_def)

section \<open>Anonymity set\<close>

record anonymity_set =
  as_id :: u64
  as_commitments :: "bytes list"
  as_capacity :: nat

definition anonymity_set_new :: "u64 \<Rightarrow> nat \<Rightarrow> anonymity_set" where
  "anonymity_set_new i capacity = \<lparr>as_id = i, as_commitments = [], as_capacity = capacity\<rparr>"

definition anonymity_set_is_full :: "anonymity_set \<Rightarrow> bool" where
  "anonymity_set_is_full s \<longleftrightarrow> as_capacity s \<le> length (as_commitments s)"

definition anonymity_set_push :: "anonymity_set \<Rightarrow> bytes \<Rightarrow> anonymity_set" where
  "anonymity_set_push s c = s\<lparr>as_commitments := as_commitments s @ [c]\<rparr>"

section \<open>Hex forms\<close>

datatype hex_error = HexDecode | InvalidStringLength

definition hex_laws :: "(bytes \<Rightarrow> str) \<Rightarrow> (str \<Rightarrow> bytes option) \<Rightarrow> bool" where
  "hex_laws enc dec \<longleftrightarrow> (\<forall>b. dec (enc b) = Some b)"

definition from_hex :: "(str \<Rightarrow> bytes option) \<Rightarrow> nat \<Rightarrow> str \<Rightarrow> hex_error + bytes" where
  "from_hex dec n s =
     rbind (ok_or (dec s) HexDecode) (\<lambda>b. ok_or (try_into_array n b) InvalidStringLength)"

definition public_key_from_hex :: "(str \<Rightarrow> bytes option) \<Rightarrow> str \<Rightarrow> hex_error + bytes" where
  "public_key_from_hex dec s = from_hex dec 32 s"

definition nullifier_from_hex :: "(str \<Rightarrow> bytes option) \<Rightarrow> str \<Rightarrow> hex_error + bytes" where
  "nullifier_from_hex dec s = from_hex dec 32 s"

definition commitment_from_hex :: "(str \<Rightarrow> bytes option) \<Rightarrow> str \<Rightarrow> hex_error + bytes" where
  "commitment_from_hex dec s = from_hex dec 33 s"

definition to_hex :: "(bytes \<Rightarrow> str) \<Rightarrow> bytes \<Rightarrow> str" where
  "to_hex enc b = enc b"

text \<open>The serde codecs \<open>hex_bytes\<close> and \<open>hex_bytes_33\<close>.\<close>

definition hex_bytes_deserialize ::
    "(str \<Rightarrow> bytes option) \<Rightarrow> nat \<Rightarrow> str option \<Rightarrow> failure + bytes" where
  "hex_bytes_deserialize dec n d =
     rbind (ok_or d (Err ''deserializer'')) (\<lambda>s.
     rbind (ok_or (dec s) (Err ''hex'')) (\<lambda>b.
     ok_or (try_into_array n b) (Err (if n = 32 then ''expected 32 bytes'' else ''expected 33 bytes''))))"

lemma from_hex_to_hex: "hex_laws enc dec \<Longrightarrow> length b = n \<Longrightarrow> from_hex dec n (to_hex enc b) = Inr b"
  by (simp add: hex_laws_def from_hex_def to_hex_def)

section \<open>The build script\<close>

definition digit_val :: "u8 \<Rightarrow> nat option" where
  "digit_val b = (if byte_in 48 57 b then Some (unat b - 48) else None)"

text \<open>\<open>str::parse::<u32>\<close>: an optional plus sign, then one or more digits, below
  \<open>2^32\<close> after each of them.\<close>

fun parse_digits :: "nat \<Rightarrow> bytes \<Rightarrow> nat option" where
  "parse_digits acc [] = Some acc"
| "parse_digits acc (d # ds) =
     (case digit_val d of None \<Rightarrow> None
      | Some v \<Rightarrow> if acc * 10 + v < 2 ^ 32 then parse_digits (acc * 10 + v) ds else None)"

definition parse_u32 :: "str \<Rightarrow> nat option" where
  "parse_u32 s =
     (case s of [] \<Rightarrow> None
      | c # cs \<Rightarrow>
          if c = 43 then (if cs = [] then None else parse_digits 0 cs)
          else parse_digits 0 (c # cs))"

record features =
  feat_m2 :: bool
  feat_m3 :: bool
  feat_m4 :: bool
  feat_m5 :: bool

text \<open>The default features of \<open>Cargo.toml\<close>; Cargo adds them to the chosen ones unless it is told not to.\<close>

definition default_features :: features where
  "default_features = \<lparr>feat_m2 = True, feat_m3 = False, feat_m4 = False, feat_m5 = False\<rparr>"

definition enabled_features :: "bool \<Rightarrow> features \<Rightarrow> features" where
  "enabled_features no_default chosen =
     (if no_default then chosen
      else \<lparr>feat_m2 = feat_m2 default_features \<or> feat_m2 chosen, feat_m3 = feat_m3 default_features \<or> feat_m3 chosen,
            feat_m4 = feat_m4 default_features \<or> feat_m4 chosen, feat_m5 = feat_m5 default_features \<or> feat_m5 chosen\<rparr>)"

definition build_m :: "str option \<Rightarrow> features \<Rightarrow> failure + nat" where
  "build_m veiled_m f =
     rbind (case veiled_m of
              Some val \<Rightarrow> ok_or (parse_u32 val) (Panic ''VEILED_M must be an integer (2-8)'')
            | None \<Rightarrow>
                Inr (if feat_m2 f then 2 else if feat_m3 f then 3 else if feat_m4 f then 4
                     else if feat_m5 f then 5 else 3))
       (\<lambda>m. if 2 \<le> m \<and> m \<le> 8 then Inr m else Inl (Panic ''M must be between 2 and 8''))"

lemma parse_digits_append:
  "parse_digits a (xs @ ys) =
     (case parse_digits a xs of None \<Rightarrow> None | Some b \<Rightarrow> parse_digits b ys)"
  by (induction xs arbitrary: a) (auto split: option.splits)

lemma digit_val_digit: "n < 10 \<Longrightarrow> digit_val (word_of_nat (48 + n)) = Some n"
  by (simp add: digit_val_def byte_in_def unat_of_nat del: of_nat_add)

lemma parse_digits_show_nat: "n < 2 ^ 32 \<Longrightarrow> parse_digits 0 (show_nat n) = Some n"
proof (induction n rule: show_nat.induct)
  case (1 n)
  show ?case
  proof (cases "n < 10")
    case True
    then show ?thesis
      using 1 by (subst show_nat.simps) (simp add: digit_val_digit del: of_nat_add)
  next
    case False
    then have "parse_digits 0 (show_nat (n div 10)) = Some (n div 10)"
      using 1 by simp
    with False 1 show ?thesis
      by (subst show_nat.simps) (simp add: parse_digits_append digit_val_digit del: of_nat_add)
  qed
qed

end
