(* ===== verification/Messages.thy ===== *)
theory Messages
  imports Types
begin

text \<open>
  The message of Phase 3 (\<open>src/src/core/payment_identity.rs\<close>): the proof and the
  registration that carries it, as records with the fields of the Rust structs.
\<close>

record pid_proof =
  pf_a :: bytes
  pf_b :: bytes
  pf_c :: bytes
  pf_d :: bytes
  pf_e_poly :: "bytes list"
  pf_f :: "bytes list"
  pf_z_a :: bytes
  pf_z_c :: bytes
  pf_z_responses :: "bytes list"
  pf_schnorr_r :: bytes
  pf_schnorr_s :: bytes
  pf_nullifier_scalar :: bytes
  pf_name_scalar :: bytes

record pid_registration =
  pr_pseudonym :: bytes
  pr_public_nullifier :: bytes
  pr_set_id :: bytes
  pr_service_index :: nat
  pr_friendly_name :: str
  pr_proof :: pid_proof

text \<open>What the Rust array types guarantee of a proof.\<close>

definition wf_proof :: "nat \<Rightarrow> pid_proof \<Rightarrow> bool" where
  "wf_proof m p \<longleftrightarrow>
     length (pf_a p) = 33 \<and> length (pf_b p) = 33 \<and> length (pf_c p) = 33 \<and> length (pf_d p) = 33 \<and>
     length (pf_e_poly p) = m \<and> (\<forall>e\<in>set (pf_e_poly p). length e = 33) \<and>
     length (pf_f p) = m \<and> (\<forall>f\<in>set (pf_f p). length f = 32) \<and>
     length (pf_z_a p) = 32 \<and> length (pf_z_c p) = 32 \<and>
     (\<forall>z\<in>set (pf_z_responses p). length z = 32) \<and>
     length (pf_schnorr_r p) = 33 \<and> length (pf_schnorr_s p) = 32 \<and>
     length (pf_nullifier_scalar p) = 32 \<and> length (pf_name_scalar p) = 32"

end
