(* ===== verification/Nullifier.thy ===== *)
theory Nullifier
  imports Types
begin

text \<open>
  \<open>src/src/core/nullifier.rs\<close>: the nullifier of a master secret at a service, and its public
  form as a group element.
\<close>

definition derive_nullifier :: "('s, 'p) backend \<Rightarrow> bytes \<Rightarrow> str \<Rightarrow> bytes" where
  "derive_nullifier B master_secret name =
     bk_hkdf B name master_secret (ascii ''CRS-ASC-nullifier'')"

definition derive_all_nullifiers :: "('s, 'p) backend \<Rightarrow> bytes \<Rightarrow> str list \<Rightarrow> bytes list" where
  "derive_all_nullifiers B master_secret names = map (derive_nullifier B master_secret) names"

definition derive_public_nullifier ::
    "('s, 'p) backend \<Rightarrow> bytes \<Rightarrow> str \<Rightarrow> 'p \<Rightarrow> bytes" where
  "derive_public_nullifier B master_secret name g =
     (let nul = derive_nullifier B master_secret name; s = bytes_to_scalar B nul
      in bk_to_bytes B (bk_mul B g s))"

definition derive_all_public_nullifiers ::
    "('s, 'p) backend \<Rightarrow> bytes \<Rightarrow> str list \<Rightarrow> 'p \<Rightarrow> bytes list" where
  "derive_all_public_nullifiers B master_secret names g =
     map (\<lambda>name. derive_public_nullifier B master_secret name g) names"

lemma length_derive_all_nullifiers [simp]:
  "length (derive_all_nullifiers B sk names) = length names"
  by (simp add: derive_all_nullifiers_def)

lemma nth_derive_all_nullifiers [simp]:
  "i < length names \<Longrightarrow> derive_all_nullifiers B sk names ! i = derive_nullifier B sk (names ! i)"
  by (simp add: derive_all_nullifiers_def)

lemma derive_public_nullifier_point:
  "derive_public_nullifier B sk name g =
     point_to_bytes B (bk_mul B g (bytes_to_scalar B (derive_nullifier B sk name)))"
  by (simp add: derive_public_nullifier_def point_to_bytes_def)

lemma mul_eq_iff:
  assumes "mul_laws B" and "g \<noteq> 0"
  shows "bk_mul B g a = bk_mul B g b \<longleftrightarrow> a = b"
proof
  assume "bk_mul B g a = bk_mul B g b"
  then have *: "bk_mul B g (a - b) = 0"
    by (simp add: mul_diff_left [OF assms(1)])
  show "a = b"
  proof (rule ccontr)
    assume "a \<noteq> b"
    then have "g = bk_mul B 0 (inverse (a - b))"
      using mul_cancel [OF assms(1) *] by simp
    then show False using assms by (simp add: mul_zero_right)
  qed
qed simp

end
