(* ===== verification/Crs.thy ===== *)
theory Crs
  imports Messages Nullifier
begin

text \<open>
  \<open>src/src/core/crs.rs\<close> and the data of \<open>src/src/core/merchant.rs\<close>: the Common Reference
  String, its generators, the multi-value Pedersen commitment, and its wire format. The
  decoder's cursor \<open>pos\<close> is the suffix that is still unread, so that
  \<open>bytes.len() < pos + n\<close> reads \<open>length rest < n\<close>.
\<close>

section \<open>Merchants\<close>

record merchant =
  m_name :: str
  m_credential_generator :: bytes
  m_origin :: str
  m_merchant_id :: nat
  m_registered :: "bytes \<rightharpoonup> pid_registration"

text \<open>\<open>Merchant::new\<close>: the credential generator is derived first; \<open>Name::new\<close> panics on a
  name above 255 bytes.\<close>

definition merchant_new :: "('s, 'p) backend \<Rightarrow> str \<Rightarrow> str \<Rightarrow> failure + merchant" where
  "merchant_new B name origin =
     (let tag = ascii ''CRS-ASC-credential-generator-'' @ name;
          point = bk_hash_to_curve B tag CRS_DST
      in rbind (name_new name) (\<lambda>n.
         Inr \<lparr>m_name = n, m_credential_generator = bk_to_bytes B point, m_origin = origin,
              m_merchant_id = 0, m_registered = Map.empty\<rparr>))"

lemma merchant_new_Inr [simp]:
  "merchant_new B name origin = Inr m \<longleftrightarrow>
     length name \<le> 255 \<and>
     m = \<lparr>m_name = name,
          m_credential_generator =
            bk_to_bytes B (bk_hash_to_curve B (ascii ''CRS-ASC-credential-generator-'' @ name) CRS_DST),
          m_origin = origin, m_merchant_id = 0, m_registered = Map.empty\<rparr>"
  by (auto simp: merchant_new_def Let_def rbind_Inr_iff)

lemma merchant_new_long:
  "255 < length name \<Longrightarrow> merchant_new B name origin = Inl (Panic ''name exceeds MAX_LEN'')"
  by (simp add: merchant_new_def Let_def)

section \<open>The CRS\<close>

record 'p crs =
  crs_security_param :: u32
  crs_g :: 'p
  crs_h_name :: 'p
  crs_generators :: "'p list"
  crs_merchants :: "merchant list"
  crs_set_size :: nat

definition generator_tag :: "nat \<Rightarrow> bytes" where
  "generator_tag l = ascii ''CRS-ASC-generator-'' @ show_nat l"

definition crs_setup :: "('s, 'p) backend \<Rightarrow> merchant list \<Rightarrow> nat \<Rightarrow> 'p crs" where
  "crs_setup B merchants set_size =
     \<lparr>crs_security_param = 128,
      crs_g = bk_hash_to_curve B (ascii ''CRS-ASC-generator-0'') CRS_DST,
      crs_h_name = bk_hash_to_curve B (ascii ''CRS-ASC-generator-name'') CRS_DST,
      crs_generators =
        map (\<lambda>l. bk_hash_to_curve B (generator_tag l) CRS_DST) [1..<Suc (length merchants)],
      crs_merchants = merchants,
      crs_set_size = set_size\<rparr>"

definition num_merchants :: "'p crs \<Rightarrow> nat" where
  "num_merchants c = length (crs_merchants c)"

text \<open>\<open>Crs::h\<close>, 1-indexed, panics out of range.\<close>

definition crs_h :: "'p crs \<Rightarrow> nat \<Rightarrow> failure + 'p" where
  "crs_h c l =
     (if 1 \<le> l \<and> l \<le> length (crs_generators c) then Inr (crs_generators c ! (l - 1))
      else Inl (Panic ''generator index out of range''))"

definition crs_names :: "'p crs \<Rightarrow> str list" where
  "crs_names c = map m_name (crs_merchants c)"

lemma length_crs_names [simp]: "length (crs_names c) = num_merchants c"
  by (simp add: crs_names_def num_merchants_def)

lemma crs_setup_sel [simp]:
  "crs_merchants (crs_setup B ms n) = ms"
  "num_merchants (crs_setup B ms n) = length ms"
  "crs_set_size (crs_setup B ms n) = n"
  "length (crs_generators (crs_setup B ms n)) = length ms"
  by (simp_all add: crs_setup_def num_merchants_def del: upt_Suc)

lemma crs_setup_h: "1 \<le> l \<Longrightarrow> l \<le> length ms \<Longrightarrow>
    crs_h (crs_setup B ms n) l = Inr (bk_hash_to_curve B (generator_tag l) CRS_DST)"
  by (cases l) (simp_all add: crs_h_def crs_setup_def nth_upt del: upt_Suc)

section \<open>The master commitment\<close>

definition commit_master_identity ::
    "('s, 'p::ab_group_add) backend \<Rightarrow> 'p crs \<Rightarrow> bytes list \<Rightarrow> bytes \<Rightarrow> bytes \<Rightarrow>
      failure + bytes" where
  "commit_master_identity B c nullifiers blinding name_scalar =
     (if length nullifiers \<noteq> length (crs_generators c)
      then Inl (Err ''nullifier count must equal number of service merchants'')
      else
        (let r = bytes_to_scalar B blinding;
             p0 = bk_mul B (crs_g c) r;
             p1 = foldl (\<lambda>pt (i, nul). pt + bk_mul B (crs_generators c ! i) (bytes_to_scalar B nul))
                    p0 (enumerate 0 nullifiers);
             ns = bytes_to_scalar B name_scalar;
             p2 = p1 + bk_mul B (crs_h_name c) ns
         in Inr (bk_to_bytes B p2)))"

text \<open>The point \<open>k\<cdot>g + s_1\<cdot>h_1 + \<dots> + s_L\<cdot>h_L + n\<cdot>h_name\<close> the documentation
  writes.\<close>

definition master_point ::
    "('s, 'p::ab_group_add) backend \<Rightarrow> 'p crs \<Rightarrow> 's \<Rightarrow> (nat \<Rightarrow> 's) \<Rightarrow> 's \<Rightarrow> 'p" where
  "master_point B c k s n =
     bk_mul B (crs_g c) k + (\<Sum>i<length (crs_generators c). bk_mul B (crs_generators c ! i) (s i))
       + bk_mul B (crs_h_name c) n"

lemma foldl_enumerate_add:
  fixes z :: "'a::ab_group_add"
  shows "foldl (\<lambda>acc (i, x). acc + f i x) z (enumerate n xs) = z + (\<Sum>i<length xs. f (n + i) (xs ! i))"
proof (induction xs arbitrary: n z)
  case Nil
  then show ?case by simp
next
  case (Cons x xs)
  show ?case
    using Cons [of "z + f n x" "Suc n"]
    by (simp add: sum.lessThan_Suc_shift add.assoc del: sum.lessThan_Suc)
qed

lemma commit_master_identity_point:
  "length nullifiers = length (crs_generators c) \<Longrightarrow>
   commit_master_identity B c nullifiers blinding name_scalar =
     Inr (point_to_bytes B
       (master_point B c (bytes_to_scalar B blinding)
          (\<lambda>i. bytes_to_scalar B (nullifiers ! i)) (bytes_to_scalar B name_scalar)))"
  by (simp add: commit_master_identity_def master_point_def foldl_enumerate_add point_to_bytes_def)

section \<open>Serialization\<close>

definition merchant_to_bytes :: "merchant \<Rightarrow> bytes" where
  "merchant_to_bytes m =
     u16_be (word_of_nat (length (m_name m))) @ m_name m @ m_credential_generator m @
     u16_be (word_of_nat (length (m_origin m))) @ m_origin m"

definition crs_to_bytes :: "('s, 'p) backend \<Rightarrow> 'p crs \<Rightarrow> bytes" where
  "crs_to_bytes B c =
     u32_be (crs_security_param c) @
     u32_be (word_of_nat (length (crs_generators c))) @
     u32_be (word_of_nat (crs_set_size c)) @
     bk_to_bytes B (crs_g c) @
     bk_to_bytes B (crs_h_name c) @
     concat (map (bk_to_bytes B) (crs_generators c)) @
     concat (map merchant_to_bytes (crs_merchants c))"

definition take_field :: "string \<Rightarrow> nat \<Rightarrow> bytes \<Rightarrow> failure + bytes \<times> bytes" where
  "take_field short n rest =
     (if length rest < n then Inl (Err short) else Inr (take n rest, drop n rest))"

definition parse_point ::
    "('s, 'p) backend \<Rightarrow> string \<Rightarrow> string \<Rightarrow> bytes \<Rightarrow> failure + 'p \<times> bytes" where
  "parse_point B short bad rest =
     rbind (take_field short 33 rest) (\<lambda>(pb, r).
     rbind (ok_or (bk_from_bytes B pb) (Err bad)) (\<lambda>P. Inr (P, r)))"

definition parse_merchant_fields :: "bytes \<Rightarrow> failure + (str \<times> bytes \<times> str) \<times> bytes" where
  "parse_merchant_fields r0 =
     rbind (take_field ''CRS bytes too short for provider name length'' 2 r0) (\<lambda>(nl, r1).
     rbind (take_field ''CRS bytes too short for provider name'' (unat (u16_of_be nl)) r1) (\<lambda>(nb, r2).
     rbind (ok_or (from_utf8 nb) (Err ''invalid UTF-8 in provider name'')) (\<lambda>name_str.
     rbind (case name_try_new name_str of
              Inl _ \<Rightarrow> Inl (Err ''provider name too long'') | Inr n \<Rightarrow> Inr n) (\<lambda>name.
     rbind (take_field ''CRS bytes too short for credential generator'' 33 r2) (\<lambda>(cg, r3).
     rbind (take_field ''CRS bytes too short for origin length'' 2 r3) (\<lambda>(ol, r4).
     rbind (take_field ''CRS bytes too short for origin'' (unat (u16_of_be ol)) r4) (\<lambda>(ob, r5).
     rbind (ok_or (from_utf8 ob) (Err ''invalid UTF-8 in origin'')) (\<lambda>origin.
     Inr ((name, cg, origin), r5)))))))))"

text \<open>The loop over the merchants: the position in the CRS becomes the merchant id.\<close>

fun parse_merchants :: "nat \<Rightarrow> merchant list \<Rightarrow> bytes \<Rightarrow> failure + merchant list \<times> bytes" where
  "parse_merchants 0 ms r = Inr (ms, r)"
| "parse_merchants (Suc l) ms r =
     rbind (parse_merchant_fields r) (\<lambda>((name, cg, origin), r').
       parse_merchants l
         (ms @ [\<lparr>m_name = name, m_credential_generator = cg, m_origin = origin,
                 m_merchant_id = length ms + 1, m_registered = Map.empty\<rparr>]) r')"

definition crs_from_bytes :: "('s, 'p) backend \<Rightarrow> bytes \<Rightarrow> failure + 'p crs" where
  "crs_from_bytes B bytes =
     (if length bytes < 12 then Inl (Err ''CRS bytes too short for header'')
      else
        (let security_param = u32_of_be (take 4 bytes);
             l = unat (u32_of_be (take 4 (drop 4 bytes)));
             set_size = unat (u32_of_be (take 4 (drop 8 bytes)))
         in rbind (parse_point B ''CRS bytes too short for g'' ''invalid g point'' (drop 12 bytes))
              (\<lambda>(g, r1).
            rbind (parse_point B ''CRS bytes too short for h_name'' ''invalid h_name point'' r1)
              (\<lambda>(h_name, r2).
            rbind (dec_seq (parse_point B ''CRS bytes too short for generators'' ''invalid h point'') l r2)
              (\<lambda>(generators, r3).
            rbind (parse_merchants l [] r3) (\<lambda>(merchants, _).
            Inr \<lparr>crs_security_param = security_param, crs_g = g, crs_h_name = h_name,
                 crs_generators = generators, crs_merchants = merchants,
                 crs_set_size = set_size\<rparr>))))))"

section \<open>Codecs of the wire format\<close>

interpretation point_codec: codec "bk_to_bytes B" "parse_point B short bad"
    "\<lambda>P. bk_from_bytes B (bk_to_bytes B P) = Some P \<and> length (bk_to_bytes B P) = 33"
  for B :: "('s::field, 'p::ab_group_add) backend" and short bad
  by unfold_locales (simp add: parse_point_def take_field_def)

definition fields_to_bytes :: "str \<times> bytes \<times> str \<Rightarrow> bytes" where
  "fields_to_bytes f =
     (case f of (name, cg, origin) \<Rightarrow>
        u16_be (word_of_nat (length name)) @ name @ cg @
        u16_be (word_of_nat (length origin)) @ origin)"

definition fields_ok :: "str \<times> bytes \<times> str \<Rightarrow> bool" where
  "fields_ok f =
     (case f of (name, cg, origin) \<Rightarrow>
        utf8_valid name \<and> length name \<le> 255 \<and> length cg = 33 \<and>
        utf8_valid origin \<and> length origin < 2 ^ 16)"

definition merchant_fields :: "merchant \<Rightarrow> str \<times> bytes \<times> str" where
  "merchant_fields m = (m_name m, m_credential_generator m, m_origin m)"

lemma merchant_to_bytes_fields: "merchant_to_bytes m = fields_to_bytes (merchant_fields m)"
  by (simp add: merchant_to_bytes_def fields_to_bytes_def merchant_fields_def)

lemma unat_u16_length: "n < 2 ^ 16 \<Longrightarrow> unat (word_of_nat n :: u16) = n"
  by (simp add: unat_of_nat)

lemma take_field_append: "length a = n \<Longrightarrow> take_field short n (a @ rest) = Inr (a, rest)"
  by (simp add: take_field_def)

text \<open>The printed length of the origin is all the decoder knows of it: decoding reads back
  the prefix of the origin of that length, whatever the origin's true length.\<close>

lemma parse_merchant_fields_bytes:
  assumes "utf8_valid name" "length name \<le> 255" "length cg = 33"
    and "utf8_valid (take (length origin mod 65536) origin)"
  shows "parse_merchant_fields (fields_to_bytes (name, cg, origin) @ rest) =
    Inr ((name, cg, take (length origin mod 65536) origin),
         drop (length origin mod 65536) origin @ rest)"
proof -
  define n where "n = length origin mod 65536"
  have n: "unat (word_of_nat (length origin) :: u16) = n"
    by (simp add: unat_of_nat n_def)
  have "n \<le> length origin"
    by (simp add: n_def)
  have nl: "unat (word_of_nat (length name) :: u16) = length name"
    using assms(2) by (intro unat_u16_length) simp
  have split: "origin @ rest = take n origin @ (drop n origin @ rest)"
    by simp
  have last: "take_field ''CRS bytes too short for origin'' n (origin @ rest) =
      Inr (take n origin, drop n origin @ rest)"
    using \<open>n \<le> length origin\<close> by (subst split) (simp add: take_field_append del: append_assoc)
  show ?thesis
    using assms last
    by (simp add: parse_merchant_fields_def fields_to_bytes_def take_field_append n nl n_def [symmetric]
        from_utf8_def name_try_new_def NAME_MAX_LEN_def)
qed

interpretation fields_codec: codec fields_to_bytes parse_merchant_fields fields_ok
proof
  fix x :: "str \<times> bytes \<times> str" and rest
  assume "fields_ok x"
  then show "parse_merchant_fields (fields_to_bytes x @ rest) = Inr (x, rest)"
    by (cases x) (simp add: fields_ok_def parse_merchant_fields_bytes)
qed

text \<open>What the decoder makes of a merchant: its id is its position, its book is empty.\<close>

definition renumber :: "nat \<Rightarrow> merchant list \<Rightarrow> merchant list" where
  "renumber k ms = map (\<lambda>(i, m). m\<lparr>m_merchant_id := i + 1, m_registered := Map.empty\<rparr>) (enumerate k ms)"

lemma renumber_simps [simp]:
  "renumber k [] = []"
  "renumber k (m # ms) =
     m\<lparr>m_merchant_id := k + 1, m_registered := Map.empty\<rparr> # renumber (Suc k) ms"
  by (simp_all add: renumber_def)

lemma length_renumber [simp]: "length (renumber k ms) = length ms"
  by (simp add: renumber_def)

lemma renumber_id:
  "(\<And>i. i < length ms \<Longrightarrow> m_merchant_id (ms ! i) = k + i + 1 \<and> m_registered (ms ! i) = Map.empty)
     \<Longrightarrow> renumber k ms = ms"
proof (induction ms arbitrary: k)
  case Nil
  then show ?case by simp
next
  case (Cons m ms)
  have "renumber (Suc k) ms = ms"
    using Cons.prems [of "Suc i" for i] by (intro Cons.IH) auto
  with Cons.prems [of 0] show ?case by simp
qed

lemma parse_merchants_bytes:
  assumes "\<forall>m\<in>set ms. fields_ok (merchant_fields m)"
  shows "parse_merchants (length ms) acc (concat (map merchant_to_bytes ms) @ rest) =
     Inr (acc @ renumber (length acc) ms, rest)"
  using assms
proof (induction ms arbitrary: acc)
  case Nil
  then show ?case by simp
next
  case (Cons m ms)
  have "parse_merchant_fields (merchant_to_bytes m @ concat (map merchant_to_bytes ms) @ rest) =
      Inr (merchant_fields m, concat (map merchant_to_bytes ms) @ rest)"
    using Cons.prems by (simp add: merchant_to_bytes_fields fields_codec.dec_enc)
  moreover define m' where "m' = \<lparr>m_name = m_name m,
    m_credential_generator = m_credential_generator m, m_origin = m_origin m,
    m_merchant_id = length acc + 1, m_registered = Map.empty\<rparr>"
  have "parse_merchants (length ms) (acc @ [m']) (concat (map merchant_to_bytes ms) @ rest) =
      Inr ((acc @ [m']) @ renumber (length (acc @ [m'])) ms, rest)"
    using Cons.prems by (intro Cons.IH) simp
  moreover have "m' = m\<lparr>m_merchant_id := length acc + 1, m_registered := Map.empty\<rparr>"
    by (simp add: m'_def)
  ultimately show ?case
    by (simp add: merchant_fields_def m'_def)
qed

text \<open>A CRS the format can carry: as many generators as merchants, every field within the
  width of its length prefix.\<close>

definition wf_crs :: "'p crs \<Rightarrow> bool" where
  "wf_crs c \<longleftrightarrow>
     length (crs_generators c) = num_merchants c \<and> num_merchants c < 2 ^ 32 \<and>
     crs_set_size c < 2 ^ 32 \<and> (\<forall>m\<in>set (crs_merchants c). fields_ok (merchant_fields m))"

definition wire_crs :: "'p crs \<Rightarrow> 'p crs" where
  "wire_crs c = c\<lparr>crs_merchants := renumber 0 (crs_merchants c)\<rparr>"

lemma unat_u32_of_nat: "n < 2 ^ 32 \<Longrightarrow> unat (word_of_nat n :: u32) = n"
  by (simp add: unat_of_nat)

lemma crs_from_bytes_header:
  assumes "codec_laws B" and gens: "length (crs_generators c) = n" and "n < 2 ^ 32"
    and "crs_set_size c < 2 ^ 32"
  shows "crs_from_bytes B (crs_to_bytes B c @ rest) =
    rbind (parse_merchants n [] (concat (map merchant_to_bytes (crs_merchants c)) @ rest))
      (\<lambda>(ms, _). Inr (c\<lparr>crs_merchants := ms\<rparr>))"
proof -
  have n: "unat (word_of_nat (length (crs_generators c)) :: u32) = n"
    using assms by (simp add: unat_u32_of_nat)
  have size: "unat (word_of_nat (crs_set_size c) :: u32) = crs_set_size c"
    using assms by (simp add: unat_u32_of_nat)
  have gs: "dec_seq (parse_point B short bad) n (concat (map (bk_to_bytes B) (crs_generators c)) @ r)
      = Inr (crs_generators c, r)" for short bad r
    using assms by (intro point_codec.dec_enc_seq) auto
  have upd: "\<lparr>crs_security_param = crs_security_param c, crs_g = crs_g c,
          crs_h_name = crs_h_name c, crs_generators = crs_generators c, crs_merchants = ms,
          crs_set_size = crs_set_size c\<rparr> = c\<lparr>crs_merchants := ms\<rparr>" for ms
    by simp
  show ?thesis
    using assms(1)
    by (simp add: crs_from_bytes_def crs_to_bytes_def point_codec.dec_enc n size gs upd)
qed

lemma crs_round_trip_raw:
  assumes "codec_laws B" and "wf_crs c"
  shows "crs_from_bytes B (crs_to_bytes B c @ rest) = Inr (wire_crs c)"
proof -
  have wf: "length (crs_generators c) = length (crs_merchants c)"
      "length (crs_merchants c) < 2 ^ 32" "crs_set_size c < 2 ^ 32"
      "\<forall>m\<in>set (crs_merchants c). fields_ok (merchant_fields m)"
    using assms(2) by (simp_all add: wf_crs_def num_merchants_def)
  have "parse_merchants (length (crs_merchants c)) []
      (concat (map merchant_to_bytes (crs_merchants c)) @ rest) =
      Inr (renumber 0 (crs_merchants c), rest)"
    using parse_merchants_bytes [OF wf(4), of "[]" rest] by simp
  then show ?thesis
    using crs_from_bytes_header [OF assms(1) wf(1,2,3), of rest] by (simp add: wire_crs_def)
qed

end
