(* ===== verification/One_Of_Many.thy ===== *)
theory One_Of_Many
  imports Backend
begin

unbundle bit_operations_syntax

text \<open>
  The arithmetic of the Bootle/Groth one-out-of-many argument as
  \<open>src/src/core/payment_identity.rs\<close> computes it: the binary decomposition of the index, the
  in-place multiplication of a coefficient array by a linear factor, the powers of the
  challenge. The array loops are shown equal to the products and powers they stand for.
\<close>

section \<open>Binary decomposition\<close>

definition index_bit :: "nat \<Rightarrow> nat \<Rightarrow> bool" where
  "index_bit j k \<longleftrightarrow> drop_bit k j AND 1 = 1"

definition index_bits :: "nat \<Rightarrow> nat \<Rightarrow> 's::field list" where
  "index_bits m index = from_fn m (\<lambda>k. if index_bit index k then 1 else 0)"

lemma index_bit_iff: "index_bit j k \<longleftrightarrow> bit j k"
  by (simp add: index_bit_def and_one_eq bit_iff_odd_drop_bit odd_iff_mod_2_eq_one)

lemma index_bits_idem: "k < m \<Longrightarrow> (index_bits m i :: 's::field list) ! k * index_bits m i ! k = index_bits m i ! k"
  by (simp add: index_bits_def)

lemma length_index_bits [simp]: "length (index_bits m i) = m"
  by (simp add: index_bits_def)

lemma bits_determine_index:
  fixes i j :: nat
  assumes "i < 2 ^ m" "j < 2 ^ m" and "\<And>k. k < m \<Longrightarrow> bit i k = bit j k"
  shows "i = j"
proof -
  have "take_bit m i = take_bit m j"
    using assms(3) by (intro bit_eqI) (auto simp: bit_take_bit_iff)
  then show ?thesis
    using assms by (simp add: take_bit_nat_eq_self)
qed

section \<open>The coefficient array\<close>

text \<open>The inner loop \<open>for i in (0..=k).rev()\<close>: \<open>mul_linear cx c0 n p\<close> runs it from
  \<open>i = n - 1\<close> down to \<open>0\<close>.\<close>

fun mul_linear :: "'s::field \<Rightarrow> 's \<Rightarrow> nat \<Rightarrow> 's list \<Rightarrow> 's list" where
  "mul_linear cx c0 0 p = p"
| "mul_linear cx c0 (Suc i) p =
     (let p1 = p[i + 1 := p ! (i + 1) + p ! i * cx];
          p2 = p1[i := p1 ! i * c0]
      in mul_linear cx c0 i p2)"

definition factor :: "'s::field list \<Rightarrow> 's list \<Rightarrow> nat \<Rightarrow> nat \<Rightarrow> 's \<times> 's" where
  "factor bits a j k =
     (if index_bit j k then (bits ! k, a ! k) else (1 - bits ! k, - (a ! k)))"

definition index_step :: "'s::field list \<Rightarrow> 's list \<Rightarrow> nat \<Rightarrow> 's list \<Rightarrow> nat \<Rightarrow> 's list" where
  "index_step bits a j poly k =
     (let (coeff_x, coeff_0) = factor bits a j k in mul_linear coeff_x coeff_0 (Suc k) poly)"

definition index_poly :: "nat \<Rightarrow> 's::field list \<Rightarrow> 's list \<Rightarrow> nat \<Rightarrow> 's list" where
  "index_poly m bits a j = foldl (index_step bits a j) (1 # replicate m 0) [0..<m]"

text \<open>The product \<open>p_j\<close> that the verifier evaluates at the challenge.\<close>

definition eval_index_poly :: "nat \<Rightarrow> 's::field list \<Rightarrow> 's \<Rightarrow> nat \<Rightarrow> 's" where
  "eval_index_poly m f x j =
     foldl (\<lambda>pj k. if index_bit j k then pj * f ! k else pj * (x - f ! k)) 1 [0..<m]"

definition poly_val :: "'s::field list \<Rightarrow> 's \<Rightarrow> 's" where
  "poly_val p x = (\<Sum>i<length p. p ! i * x ^ i)"

lemma length_mul_linear [simp]: "length (mul_linear cx c0 n p) = length p"
  by (induction n arbitrary: p) (simp_all add: Let_def)

lemma mul_linear_above: "n < i \<Longrightarrow> mul_linear cx c0 n p ! i = p ! i"
  by (induction n arbitrary: p) (simp_all add: Let_def)

lemma mul_linear_top:
  "Suc n < length p \<Longrightarrow> mul_linear cx c0 (Suc n) p ! Suc n = p ! Suc n + p ! n * cx"
  by (simp add: Let_def mul_linear_above)

lemma poly_val_update:
  "i < length p \<Longrightarrow> poly_val (p[i := v]) x = poly_val p x + (v - p ! i) * x ^ i"
proof -
  assume i: "i < length p"
  have "poly_val (p[i := v]) x =
      (\<Sum>k<length p. p ! k * x ^ k + (if k = i then (v - p ! i) * x ^ i else 0))"
    unfolding poly_val_def by (auto intro!: sum.cong simp: nth_list_update algebra_simps)
  also have "\<dots> = poly_val p x + (v - p ! i) * x ^ i"
    using i by (simp add: sum.distrib poly_val_def)
  finally show ?thesis .
qed

text \<open>One run of the inner loop multiplies the part below \<open>n\<close> by the linear factor.\<close>

lemma mul_linear_val:
  "n < length p \<Longrightarrow>
   poly_val (mul_linear cx c0 n p) x =
     poly_val p x + (c0 + cx * x - 1) * (\<Sum>i<n. p ! i * x ^ i)"
proof (induction n arbitrary: p)
  case 0
  then show ?case by simp
next
  case (Suc n)
  define p2 where "p2 = (p[n + 1 := p ! (n + 1) + p ! n * cx])[n := p ! n * c0]"
  have len: "length p2 = length p" and below: "\<And>i. i < n \<Longrightarrow> p2 ! i = p ! i"
    by (simp_all add: p2_def)
  have "poly_val p2 x = poly_val p x + p ! n * cx * x ^ (n + 1) + (p ! n * c0 - p ! n) * x ^ n"
    using Suc.prems by (simp add: p2_def poly_val_update)
  moreover have "(\<Sum>i<n. p2 ! i * x ^ i) = (\<Sum>i<n. p ! i * x ^ i)"
    using below by simp
  moreover have "mul_linear cx c0 (Suc n) p = mul_linear cx c0 n p2"
    using Suc.prems by (simp add: p2_def)
  ultimately show ?case
    using Suc.IH [of p2] Suc.prems len by (simp add: algebra_simps)
qed

text \<open>The invariant of the outer loop after \<open>k\<close> factors.\<close>

lemma index_poly_loop:
  fixes bits a :: "'s::field list" and x :: 's and j :: nat
  assumes "k \<le> m"
  defines "p \<equiv> foldl (index_step bits a j) (1 # replicate m 0) [0..<k]"
  shows "length p = Suc m \<and> (\<forall>i\<in>{k<..m}. p ! i = 0) \<and>
     p ! k = (\<Prod>i<k. fst (factor bits a j i)) \<and>
     poly_val p x = (\<Prod>i<k. snd (factor bits a j i) + fst (factor bits a j i) * x)"
  using assms(1) unfolding p_def
proof (induction k)
  case 0
  have "poly_val (1 # replicate m 0) x = 1"
    by (simp add: poly_val_def sum.lessThan_Suc_shift del: sum.lessThan_Suc)
  then show ?case by (auto simp: nth_Cons')
next
  case (Suc k)
  define q where "q = foldl (index_step bits a j) (1 # replicate m 0) [0..<k]"
  obtain cx c0 where f: "factor bits a j k = (cx, c0)" by fastforce
  have IH: "length q = Suc m" "\<And>i. k < i \<Longrightarrow> i \<le> m \<Longrightarrow> q ! i = 0"
     "q ! k = (\<Prod>i<k. fst (factor bits a j i))"
     "poly_val q x = (\<Prod>i<k. snd (factor bits a j i) + fst (factor bits a j i) * x)"
    using Suc by (simp_all add: q_def)
  have "(\<Sum>i<length q. q ! i * x ^ i) = (\<Sum>i<Suc k. q ! i * x ^ i)"
    using IH(1,2) Suc.prems by (intro sum.mono_neutral_right) auto
  then have "(\<Sum>i<Suc k. q ! i * x ^ i) = poly_val q x"
    by (simp add: poly_val_def)
  then have val: "poly_val (mul_linear cx c0 (Suc k) q) x = poly_val q x * (c0 + cx * x)"
    using IH(1) Suc.prems by (subst mul_linear_val) (auto simp: algebra_simps)
  have top: "mul_linear cx c0 (Suc k) q ! Suc k = q ! k * cx"
    using IH Suc.prems by (subst mul_linear_top) auto
  have above: "mul_linear cx c0 (Suc k) q ! i = 0" if "Suc k < i" "i \<le> m" for i
    using that IH(2) by (simp add: mul_linear_above del: mul_linear.simps)
  have step: "foldl (index_step bits a j) (1 # replicate m 0) [0..<Suc k] = mul_linear cx c0 (Suc k) q"
    by (simp add: q_def index_step_def [of _ _ _ _ k] f del: mul_linear.simps)
  show ?case
    unfolding step using IH(1) val top above IH(3,4) f
    by (simp add: mult.commute del: mul_linear.simps)
qed

lemma length_index_poly [simp]: "length (index_poly m bits a j) = Suc m"
  using index_poly_loop [of m m bits a j] by (simp add: index_poly_def)

lemma index_poly_val:
  "poly_val (index_poly m bits a j) x =
     (\<Prod>k<m. snd (factor bits a j k) + fst (factor bits a j k) * x)"
  using index_poly_loop [of m m bits a j x] by (simp add: index_poly_def)

lemma index_poly_lead:
  "index_poly m bits a j ! m = (\<Prod>k<m. fst (factor bits a j k))"
  using index_poly_loop [of m m bits a j] by (simp add: index_poly_def)

text \<open>The leading coefficient is 1 at the prover's index and 0 elsewhere.\<close>

lemma index_poly_lead_delta:
  assumes "index < 2 ^ m" and "j < 2 ^ m"
  shows "index_poly m (index_bits m index) a j ! m = (if j = index then 1 else 0 :: 's::field)"
proof (cases "j = index")
  case True
  have "fst (factor (index_bits m index :: 's list) a j k) = 1" if "k < m" for k
    using that True by (simp add: factor_def index_bits_def)
  then show ?thesis using True by (simp add: index_poly_lead)
next
  case False
  then obtain k where "k < m" "bit index k \<noteq> bit j k"
    using bits_determine_index assms by blast
  then have "fst (factor (index_bits m index :: 's list) a j k) = 0"
    by (auto simp: factor_def index_bits_def index_bit_iff)
  with \<open>k < m\<close> have "(\<Prod>k<m. fst (factor (index_bits m index :: 's list) a j k)) = 0"
    by auto
  then show ?thesis using False by (simp add: index_poly_lead)
qed

text \<open>The verifier's product is the prover's polynomial at the challenge.\<close>

lemma eval_index_poly_prod:
  "eval_index_poly m f x j = (\<Prod>k<m. if index_bit j k then f ! k else x - f ! k)"
  by (induction m) (simp_all add: eval_index_poly_def)

lemma eval_index_poly_eq:
  assumes "\<And>k. k < m \<Longrightarrow> f ! k = bits ! k * x + a ! k"
  shows "eval_index_poly m f x j = poly_val (index_poly m bits a j) x"
  unfolding eval_index_poly_prod index_poly_val
  using assms by (intro prod.cong) (auto simp: factor_def algebra_simps)

lemma poly_val_split:
  assumes "length p = Suc m"
  shows "poly_val p x = (\<Sum>k<m. p ! k * x ^ k) + p ! m * x ^ m"
  by (simp add: poly_val_def assms)

section \<open>Powers of the challenge\<close>

fun x_powers_loop :: "'s::field \<Rightarrow> 's \<Rightarrow> nat \<Rightarrow> 's list" where
  "x_powers_loop x x_pow 0 = []"
| "x_powers_loop x x_pow (Suc n) = x_pow # x_powers_loop x (x_pow * x) n"

definition x_powers :: "nat \<Rightarrow> 's::field \<Rightarrow> 's list" where
  "x_powers m x = x_powers_loop x 1 (m + 1)"

lemma nth_x_powers_loop: "k < n \<Longrightarrow> x_powers_loop x z n ! k = z * x ^ k"
  by (induction n arbitrary: z k) (auto simp: nth_Cons' power_eq_if algebra_simps)

lemma nth_x_powers [simp]: "k \<le> m \<Longrightarrow> x_powers m x ! k = x ^ k"
  by (simp add: x_powers_def nth_x_powers_loop del: x_powers_loop.simps)

end
