(* ===== verification/Payment_Identity.thy ===== *)
theory Payment_Identity
  imports Crs One_Of_Many
begin

text \<open>
  \<open>src/src/core/payment_identity.rs\<close>: the prover and the verifier of the payment identity
  registration proof. The prover draws its scalars from the \<open>rng\<close> stream in the order of the
  code: \<open>a[0..M]\<close>, \<open>r_a\<close>, \<open>r_b\<close>, \<open>r_c\<close>, \<open>r_d\<close>, \<open>rho\<close> generator by
  generator, and the Schnorr nonce.
\<close>

section \<open>Prover\<close>

definition other_indices :: "nat \<Rightarrow> nat \<Rightarrow> nat list" where
  "other_indices l_count service_index =
     filter (\<lambda>m. m \<noteq> service_index) [1..<Suc l_count]"

definition other_gens :: "'p crs \<Rightarrow> nat \<Rightarrow> failure + 'p list" where
  "other_gens c service_index = collect_res (crs_h c) (other_indices (num_merchants c) service_index)"

definition shifted_set ::
    "('s, 'p::ab_group_add) backend \<Rightarrow> 'p \<Rightarrow> bytes list \<Rightarrow> failure + 'p list" where
  "shifted_set B shift anonymity_set =
     collect_res (\<lambda>c. rbind (ok_or (point_from_bytes B c) (Panic ''valid commitment''))
                        (\<lambda>pt. Inr (pt - shift))) anonymity_set"

record 's coins =
  co_a :: "'s list"
  co_r_a :: 's
  co_r_b :: 's
  co_r_c :: 's
  co_r_d :: 's
  co_rho :: "'s list list"
  co_nonce :: 's

definition draw_coins :: "('s, 'p) backend \<Rightarrow> rng \<Rightarrow> nat \<Rightarrow> 's coins" where
  "draw_coins B rng num_active_gens =
     (let m = bk_M B in
      \<lparr>co_a = from_fn m (random_scalar B rng),
       co_r_a = random_scalar B rng m,
       co_r_b = random_scalar B rng (m + 1),
       co_r_c = random_scalar B rng (m + 2),
       co_r_d = random_scalar B rng (m + 3),
       co_rho = from_fn num_active_gens
         (\<lambda>gi. from_fn m (\<lambda>k. random_scalar B rng (m + 4 + gi * m + k))),
       co_nonce = random_scalar B rng (m + 4 + num_active_gens * m)\<rparr>)"

definition bit_commitment ::
    "('s, 'p::ab_group_add) backend \<Rightarrow> 'p \<Rightarrow> 's \<Rightarrow> (nat \<Rightarrow> 's) \<Rightarrow> 'p" where
  "bit_commitment B g r coeff =
     acc_loop (bk_mul B g r) (bk_M B) (\<lambda>k. bk_mul B (bit_generators B ! k) (coeff k))"

definition decomposition_points ::
    "('s::field, 'p::ab_group_add) backend \<Rightarrow> 's list list \<Rightarrow> 'p list \<Rightarrow> 's list \<Rightarrow> 's list \<Rightarrow>
      'p list \<Rightarrow> 'p list" where
  "decomposition_points B rho active_gens bits a d_set =
     (let cap_e0 = from_fn (bk_M B) (\<lambda>k.
            foldl (\<lambda>ek (gen_idx, gen_point). ek + bk_mul B gen_point (rho ! gen_idx ! k))
              0 (enumerate 0 active_gens))
      in foldl (\<lambda>cap_e (j, dj).
             let poly = index_poly (bk_M B) bits a j
             in from_fn (bk_M B) (\<lambda>m. cap_e ! m + bk_mul B dj (poly ! m)))
           cap_e0 (take (N_of B) (enumerate 0 d_set)))"

definition z_response ::
    "nat \<Rightarrow> 's::field list \<Rightarrow> 's list \<Rightarrow> 's list \<Rightarrow> 's list list \<Rightarrow> nat \<Rightarrow> 's" where
  "z_response m xp witness_scalars x_pows rho gen_idx =
     (let sum_rho = acc_loop 0 m (\<lambda>k. rho ! gen_idx ! k * x_pows ! k)
      in witness_scalars ! gen_idx * xp ! m - sum_rho)"

text \<open>Everything after the range checks and the shifted set is a pure computation on the drawn
  scalars; \<open>hs\<close> are the generators other than the service's, \<open>s_l\<close> its scalar.\<close>

definition prover_message ::
    "('s::field, 'p::ab_group_add) backend \<Rightarrow> 's coins \<Rightarrow> 'p crs \<Rightarrow> 'p list \<Rightarrow> 'p list \<Rightarrow> nat \<Rightarrow> nat \<Rightarrow>
      bytes \<Rightarrow> bytes \<Rightarrow> bytes list \<Rightarrow> bytes \<Rightarrow> bytes \<Rightarrow> bytes \<Rightarrow> pid_proof" where
  "prover_message B co crs hs d_set index service_index set_id blinding_key nullifier_scalars
      pseudonym public_nullifier name_scalar =
     (let m = bk_M B;
          g = crs_g crs;
          l_count = num_merchants crs;
          num_active_gens = l_count + 1;
          s_l = bytes_to_scalar B (nullifier_scalars ! (service_index - 1));
          bits = index_bits m index;
          a = co_a co;
          cap_a = bit_commitment B g (co_r_a co) (\<lambda>k. a ! k);
          cap_b = bit_commitment B g (co_r_b co) (\<lambda>k. bits ! k);
          cap_c = bit_commitment B g (co_r_c co) (\<lambda>k. a ! k * (1 - 2 * bits ! k));
          cap_d = bit_commitment B g (co_r_d co) (\<lambda>k. - (a ! k) * a ! k);
          active_gens = g # hs @ [crs_h_name crs];
          cap_e = decomposition_points B (co_rho co) active_gens bits a d_set;
          x = fiat_shamir_challenge B g pseudonym public_nullifier service_index set_id name_scalar
                d_set cap_a cap_b cap_c cap_d cap_e;
          f = from_fn m (\<lambda>k. bits ! k * x + a ! k);
          z_a = co_r_a co + co_r_b co * x;
          z_c = co_r_c co * x + co_r_d co;
          xp = x_powers m x;
          witness_scalars = bytes_to_scalar B blinding_key
            # map (\<lambda>i. bytes_to_scalar B (nullifier_scalars ! (i - 1)))
                (other_indices l_count service_index)
            @ [bytes_to_scalar B name_scalar];
          z_responses = from_fn num_active_gens (\<lambda>gi.
            scalar_to_bytes B (z_response m xp witness_scalars xp (co_rho co) gi));
          schnorr_r_point = bk_mul B g (co_nonce co);
          schnorr_e = schnorr_challenge B g public_nullifier schnorr_r_point;
          schnorr_s = co_nonce co + schnorr_e * s_l in
      \<lparr>pf_a = point_to_bytes B cap_a, pf_b = point_to_bytes B cap_b,
       pf_c = point_to_bytes B cap_c, pf_d = point_to_bytes B cap_d,
       pf_e_poly = from_fn m (\<lambda>k. point_to_bytes B (cap_e ! k)),
       pf_f = from_fn m (\<lambda>k. scalar_to_bytes B (f ! k)),
       pf_z_a = scalar_to_bytes B z_a, pf_z_c = scalar_to_bytes B z_c,
       pf_z_responses = z_responses,
       pf_schnorr_r = point_to_bytes B schnorr_r_point,
       pf_schnorr_s = scalar_to_bytes B schnorr_s,
       pf_nullifier_scalar = nullifier_scalars ! (service_index - 1),
       pf_name_scalar = name_scalar\<rparr>)"

definition prove_payment_identity_registration ::
    "('s::field, 'p::ab_group_add) backend \<Rightarrow> rng \<Rightarrow> 'p crs \<Rightarrow> bytes list \<Rightarrow> nat \<Rightarrow> nat \<Rightarrow> bytes \<Rightarrow>
      bytes \<Rightarrow> bytes list \<Rightarrow> bytes \<Rightarrow> bytes \<Rightarrow> bytes \<Rightarrow> failure + pid_proof" where
  "prove_payment_identity_registration B rng crs anonymity_set index service_index set_id
      blinding_key nullifier_scalars pseudonym public_nullifier name_scalar =
     (if length anonymity_set \<noteq> N_of B
      then Inl (Err ''set must be a power of 2 with exactly N commitments'')
      else if N_of B \<le> index then Inl (Err ''index out of range'')
      else (let l_count = num_merchants crs in
      if service_index < 1 \<or> l_count < service_index
      then Inl (Err ''service_index out of range (1-indexed)'')
      else if length nullifier_scalars \<noteq> l_count
      then Inl (Err ''nullifier_scalars count must equal number of providers'')
      else (let s_l = bytes_to_scalar B (nullifier_scalars ! (service_index - 1)) in
      rbind (crs_h crs service_index) (\<lambda>h_l.
      rbind (shifted_set B (bk_mul B h_l s_l) anonymity_set) (\<lambda>d_set.
      rbind (other_gens crs service_index) (\<lambda>hs.
      Inr (prover_message B (draw_coins B rng (l_count + 1)) crs hs d_set index service_index set_id
             blinding_key nullifier_scalars pseudonym public_nullifier name_scalar)))))))"

section \<open>Verifier\<close>

definition check_bit_opening ::
    "('s, 'p::ab_group_add) backend \<Rightarrow> 'p \<Rightarrow> 's \<Rightarrow> 'p \<Rightarrow> (nat \<Rightarrow> 's) \<Rightarrow> bool" where
  "check_bit_opening B g z rhs coeff \<longleftrightarrow>
     bk_mul B g z =
       foldl (\<lambda>acc k. acc - bk_mul B (bit_generators B ! k) (coeff k)) rhs [0..<bk_M B]"

definition membership_lhs ::
    "('s::field, 'p::ab_group_add) backend \<Rightarrow> 's list \<Rightarrow> 's \<Rightarrow> 'p list \<Rightarrow> 'p" where
  "membership_lhs B f x d_set =
     foldl (\<lambda>acc (j, dj). acc + bk_mul B dj (eval_index_poly (bk_M B) f x j))
       0 (take (N_of B) (enumerate 0 d_set))"

text \<open>\<open>resp_idx\<close> runs over the responses of the other generators; the last one is the
  response for \<open>h_name\<close>.\<close>

definition membership_rhs ::
    "('s::field, 'p::ab_group_add) backend \<Rightarrow> 'p crs \<Rightarrow> 'p list \<Rightarrow> bytes list \<Rightarrow> 's \<Rightarrow> 'p list \<Rightarrow> 'p" where
  "membership_rhs B crs hs z_responses x cap_e =
     (let rhs0 = 0 + bk_mul B (crs_g crs) (scalar_from_bytes B (z_responses ! 0));
          (rhs1, resp_idx) = foldl (\<lambda>(rhs, resp_idx) h.
              (rhs + bk_mul B h (scalar_from_bytes B (z_responses ! resp_idx)), resp_idx + 1))
            (rhs0, 1) hs;
          rhs2 = rhs1 + bk_mul B (crs_h_name crs) (scalar_from_bytes B (z_responses ! resp_idx));
          (rhs3, x_pow) = foldl (\<lambda>(rhs, x_pow) e. (rhs + bk_mul B e x_pow, x_pow * x))
            (rhs2, 1) cap_e
      in rhs3)"

definition check_nullifier ::
    "('s::field, 'p::ab_group_add) backend \<Rightarrow> 'p \<Rightarrow> 's \<Rightarrow> bytes \<Rightarrow> pid_proof \<Rightarrow> bool" where
  "check_nullifier B g s_l public_nullifier proof =
     (if point_to_bytes B (bk_mul B g s_l) \<noteq> public_nullifier then False
      else case point_from_bytes B (pf_schnorr_r proof) of
        None \<Rightarrow> False
      | Some schnorr_r \<Rightarrow>
          (let schnorr_s = scalar_from_bytes B (pf_schnorr_s proof);
               schnorr_e = schnorr_challenge B g public_nullifier schnorr_r in
           case point_from_bytes B public_nullifier of
             None \<Rightarrow> False
           | Some nul_point \<Rightarrow>
               bk_mul B g schnorr_s = schnorr_r + bk_mul B nul_point schnorr_e))"

definition decode_points ::
    "('s, 'p) backend \<Rightarrow> pid_proof \<Rightarrow> ('p \<times> 'p \<times> 'p \<times> 'p \<times> 'p list) option" where
  "decode_points B proof =
     (case point_from_bytes B (pf_a proof) of None \<Rightarrow> None | Some cap_a \<Rightarrow>
      (case point_from_bytes B (pf_b proof) of None \<Rightarrow> None | Some cap_b \<Rightarrow>
      (case point_from_bytes B (pf_c proof) of None \<Rightarrow> None | Some cap_c \<Rightarrow>
      (case point_from_bytes B (pf_d proof) of None \<Rightarrow> None | Some cap_d \<Rightarrow>
      (case those (from_fn (bk_M B) (\<lambda>k. point_from_bytes B (pf_e_poly proof ! k))) of
         None \<Rightarrow> None | Some cap_e \<Rightarrow> Some (cap_a, cap_b, cap_c, cap_d, cap_e))))))"

definition verifier_shifted_set ::
    "('s, 'p::ab_group_add) backend \<Rightarrow> 'p \<Rightarrow> bytes list \<Rightarrow> 'p list" where
  "verifier_shifted_set B shift anonymity_set =
     map (\<lambda>c. case point_from_bytes B c of Some pt \<Rightarrow> pt - shift | None \<Rightarrow> 0) anonymity_set"

definition verify_payment_identity_registration_proof ::
    "('s::field, 'p::ab_group_add) backend \<Rightarrow> 'p crs \<Rightarrow> bytes list \<Rightarrow> nat \<Rightarrow> bytes \<Rightarrow> bytes \<Rightarrow>
      bytes \<Rightarrow> pid_proof \<Rightarrow> failure + bool" where
  "verify_payment_identity_registration_proof B crs anonymity_set service_index set_id pseudonym
      public_nullifier proof =
     (if length anonymity_set \<noteq> N_of B then Inr False
      else (let l_count = num_merchants crs in
      if service_index < 1 \<or> l_count < service_index then Inr False
      else if length (pf_z_responses proof) \<noteq> l_count + 1 then Inr False
      else (let g = crs_g crs;
                s_l = bytes_to_scalar B (pf_nullifier_scalar proof) in
      rbind (crs_h crs service_index) (\<lambda>h_l.
      let d_set = verifier_shifted_set B (bk_mul B h_l s_l) anonymity_set in
      case decode_points B proof of
        None \<Rightarrow> Inr False
      | Some (cap_a, cap_b, cap_c, cap_d, cap_e) \<Rightarrow>
         (let m = bk_M B;
              f = from_fn m (\<lambda>k. scalar_from_bytes B (pf_f proof ! k));
              z_a = scalar_from_bytes B (pf_z_a proof);
              z_c = scalar_from_bytes B (pf_z_c proof);
              x = fiat_shamir_challenge B g pseudonym public_nullifier service_index set_id
                    (pf_name_scalar proof) d_set cap_a cap_b cap_c cap_d cap_e in
          if \<not> check_bit_opening B g z_a (cap_a + bk_mul B cap_b x) (\<lambda>k. f ! k)
          then Inr False
          else if \<not> check_bit_opening B g z_c (bk_mul B cap_c x + cap_d) (\<lambda>k. f ! k * (x - f ! k))
          then Inr False
          else rbind (other_gens crs service_index) (\<lambda>hs.
            if membership_lhs B f x d_set \<noteq> membership_rhs B crs hs (pf_z_responses proof) x cap_e
            then Inr False
            else Inr (check_nullifier B g s_l public_nullifier proof)))))))"

definition verify_payment_identity_registration ::
    "('s::field, 'p::ab_group_add) backend \<Rightarrow> 'p crs \<Rightarrow> bytes list \<Rightarrow> pid_registration \<Rightarrow>
      failure + bool" where
  "verify_payment_identity_registration B crs anonymity_set reg =
     verify_payment_identity_registration_proof B crs anonymity_set (pr_service_index reg)
       (pr_set_id reg) (pr_pseudonym reg) (pr_public_nullifier reg) (pr_proof reg)"

definition verify_name_revelation :: "('s, 'p) backend \<Rightarrow> bytes \<Rightarrow> str \<Rightarrow> bool" where
  "verify_name_revelation B proof_name_scalar claimed_name \<longleftrightarrow>
     bk_sha256 B claimed_name = proof_name_scalar"

end
