(* ===== verification/Sample_Backend.thy ===== *)
theory Sample_Backend
  imports Backend
begin

text \<open>
  A concrete backend over the field with five elements, on which the hypotheses about the
  third-party crates hold. It carries the witnesses; no theorem about the program depends on
  it.
\<close>

datatype gf5 = Z0 | Z1 | Z2 | Z3 | Z4

fun gf5_nat :: "gf5 \<Rightarrow> nat" where
  "gf5_nat Z0 = 0" | "gf5_nat Z1 = 1" | "gf5_nat Z2 = 2" | "gf5_nat Z3 = 3" | "gf5_nat Z4 = 4"

definition gf5_of :: "nat \<Rightarrow> gf5" where
  "gf5_of n = (let r = n mod 5 in
     if r = 0 then Z0 else if r = 1 then Z1 else if r = 2 then Z2 else if r = 3 then Z3 else Z4)"

lemma gf5_of_nat [simp]: "gf5_of (gf5_nat x) = x"
  by (cases x) (simp_all add: gf5_of_def)

lemma gf5_nat_less: "gf5_nat x < 5"
  by (cases x) simp_all

instantiation gf5 :: "{zero, one, plus, minus, uminus, times, inverse}"
begin

definition zero_gf5 :: gf5 where "zero_gf5 = Z0"
definition one_gf5 :: gf5 where "one_gf5 = Z1"
definition plus_gf5 :: "gf5 \<Rightarrow> gf5 \<Rightarrow> gf5" where
  "plus_gf5 x y = gf5_of (gf5_nat x + gf5_nat y)"
definition times_gf5 :: "gf5 \<Rightarrow> gf5 \<Rightarrow> gf5" where
  "times_gf5 x y = gf5_of (gf5_nat x * gf5_nat y)"
definition uminus_gf5 :: "gf5 \<Rightarrow> gf5" where
  "uminus_gf5 x = gf5_of (5 - gf5_nat x)"
definition minus_gf5 :: "gf5 \<Rightarrow> gf5 \<Rightarrow> gf5" where
  "minus_gf5 x y = gf5_of (gf5_nat x + (5 - gf5_nat y))"
definition inverse_gf5 :: "gf5 \<Rightarrow> gf5" where
  "inverse_gf5 x = gf5_of (gf5_nat x ^ 3)"
definition divide_gf5 :: "gf5 \<Rightarrow> gf5 \<Rightarrow> gf5" where
  "divide_gf5 x y = gf5_of (gf5_nat x * gf5_nat (gf5_of (gf5_nat y ^ 3)))"

instance ..

end

lemmas gf5_defs = zero_gf5_def one_gf5_def plus_gf5_def times_gf5_def uminus_gf5_def
  minus_gf5_def inverse_gf5_def divide_gf5_def gf5_of_def

instance gf5 :: field
proof
  fix a b c :: gf5
  show "a * b * c = a * (b * c)" by (cases a; cases b; cases c) (simp_all add: gf5_defs)
  show "a * b = b * a" by (simp add: times_gf5_def mult.commute)
  show "a + b + c = a + (b + c)" by (cases a; cases b; cases c) (simp_all add: gf5_defs)
  show "a + b = b + a" by (simp add: plus_gf5_def add.commute)
  show "0 + a = a" by (cases a) (simp_all add: gf5_defs)
  show "- a + a = 0" by (cases a) (simp_all add: gf5_defs)
  show "a - b = a + - b" by (cases a; cases b) (simp_all add: gf5_defs)
  show "1 * a = a" by (cases a) (simp_all add: gf5_defs)
  show "(a + b) * c = a * c + b * c" by (cases a; cases b; cases c) (simp_all add: gf5_defs)
  show "(0::gf5) \<noteq> 1" by (simp add: gf5_defs)
  show "a \<noteq> 0 \<Longrightarrow> inverse a * a = 1" by (cases a) (simp_all add: gf5_defs)
  show "a / b = a * inverse b" by (cases a; cases b) (simp_all add: gf5_defs)
  show "inverse (0::gf5) = 0" by (simp add: gf5_defs)
qed

definition digest32 :: "bytes \<Rightarrow> bytes" where
  "digest32 m = replicate 31 0 @ [foldl (\<lambda>a b. 3 * a + b) 1 m]"

definition sample :: "(gf5, gf5) backend" where
  "sample = \<lparr>
     bk_M = 2,
     bk_mul = (\<lambda>P s. P * s),
     bk_to_bytes = (\<lambda>P. 2 # replicate 31 0 @ [word_of_nat (gf5_nat P)]),
     bk_from_bytes = (\<lambda>b. if length b = 33 \<and> hd b = 2 then Some (gf5_of (unat (last b))) else None),
     bk_reduce = (\<lambda>b. gf5_of (be_val b)),
     bk_repr = (\<lambda>s. replicate 31 0 @ [word_of_nat (gf5_nat s)]),
     bk_sha256 = digest32,
     bk_hkdf = (\<lambda>salt ikm info. digest32 (salt @ ikm @ info)),
     bk_hash_to_curve = (\<lambda>m dst. gf5_of (unat (foldl (+) 1 m))) \<rparr>"

lemma unat_gf5 [simp]: "unat (word_of_nat (gf5_nat x) :: u8) = gf5_nat x"
  by (cases x) simp_all

lemma be_val_zeros: "be_val (replicate n 0 @ b) = be_val b"
  by (induction n) (simp_all add: be_val_Cons)

lemma sample_mul_laws: "mul_laws sample"
  by (simp add: mul_laws_def sample_def algebra_simps)

lemma sample_codec_laws: "codec_laws sample"
  by (simp add: codec_laws_def sample_def be_val_zeros be_val_Cons)

lemma sample_digest_laws: "digest_laws sample"
  by (simp add: digest_laws_def sample_def digest32_def)

lemmas sample_laws = sample_mul_laws sample_codec_laws sample_digest_laws

lemma sample_M [simp]: "bk_M sample = 2"
  by (simp add: sample_def)

lemma sample_N [simp]: "N_of sample = 4"
  by (simp add: N_of_pow)

end
