(* ===== verification/Sample_World.thy ===== *)
theory Sample_World
  imports Crs Sample_Backend
begin

text \<open>
  A concrete world for the witnesses: a reference string with two merchants over the sample
  backend, a member with its secrets, and a full anonymity set that holds the member's
  commitment.
\<close>

definition sample_merchant :: "string \<Rightarrow> nat \<Rightarrow> merchant" where
  "sample_merchant s i =
     \<lparr>m_name = ascii s, m_credential_generator = 2 # replicate 32 0, m_origin = ascii ''o'',
      m_merchant_id = i, m_registered = Map.empty\<rparr>"

definition sample_crs :: "gf5 crs" where
  "sample_crs = crs_setup sample [sample_merchant ''a'' 1, sample_merchant ''b'' 2] 4"

definition sample_key :: "nat \<Rightarrow> bytes" where
  "sample_key i = replicate 31 0 @ [word_of_nat i]"

definition sample_nullifiers :: "bytes list" where
  "sample_nullifiers = derive_all_nullifiers sample (sample_key 1) (crs_names sample_crs)"

definition sample_name_scalar :: bytes where
  "sample_name_scalar = to_scalar_bytes sample (ascii ''alice'')"

definition sample_phi :: bytes where
  "sample_phi = point_to_bytes sample
     (master_point sample sample_crs (bytes_to_scalar sample (sample_key 2))
        (\<lambda>i. bytes_to_scalar sample (sample_nullifiers ! i))
        (bytes_to_scalar sample sample_name_scalar))"

definition sample_set :: "bytes list" where
  "sample_set = replicate 4 sample_phi"

lemma length_sample_key [simp]: "length (sample_key i) = 32"
  by (simp add: sample_key_def)

lemma sample_crs_sel [simp]:
  "num_merchants sample_crs = 2" "length (crs_generators sample_crs) = 2"
  "crs_merchants sample_crs = [sample_merchant ''a'' 1, sample_merchant ''b'' 2]"
  by (simp_all add: sample_crs_def)

lemma sample_commit:
  "commit_master_identity sample sample_crs sample_nullifiers (sample_key 2) sample_name_scalar =
     Inr sample_phi"
  by (simp add: commit_master_identity_point sample_phi_def sample_nullifiers_def)

lemma length_sample_set [simp]: "length sample_set = 4"
  by (simp add: sample_set_def)

lemma nth_sample_set [simp]: "i < 4 \<Longrightarrow> sample_set ! i = sample_phi"
  by (simp add: sample_set_def)

lemma sample_phi_decodes [simp]: "\<exists>P. point_from_bytes sample sample_phi = Some P"
  by (simp add: sample_phi_def sample_codec_laws)

lemma sample_g [simp]: "crs_g sample_crs \<noteq> 0"
  by (simp add: sample_crs_def crs_setup_def sample_def ascii_def gf5_of_def gf5_defs)

text \<open>Lower-case hexadecimal, as an instance of the hex parameters.\<close>

definition hex_digit :: "nat \<Rightarrow> u8" where
  "hex_digit n = word_of_nat (if n < 10 then 48 + n else 87 + n)"

definition hex_value :: "u8 \<Rightarrow> nat option" where
  "hex_value b = (if byte_in 48 57 b then Some (unat b - 48)
                  else if byte_in 97 102 b then Some (unat b - 87) else None)"

definition sample_hex :: "bytes \<Rightarrow> str" where
  "sample_hex b = concat (map (\<lambda>x. [hex_digit (unat x div 16), hex_digit (unat x mod 16)]) b)"

fun sample_unhex :: "str \<Rightarrow> bytes option" where
  "sample_unhex [] = Some []"
| "sample_unhex [x] = None"
| "sample_unhex (x # y # r) =
     (case (hex_value x, hex_value y, sample_unhex r) of
        (Some h, Some l, Some b) \<Rightarrow> Some (word_of_nat (16 * h + l) # b)
      | _ \<Rightarrow> None)"

lemma unat_hex_digit: "n < 16 \<Longrightarrow> unat (hex_digit n) = (if n < 10 then 48 + n else 87 + n)"
  by (simp add: hex_digit_def unat_of_nat del: of_nat_add)

lemma hex_value_digit: "n < 16 \<Longrightarrow> hex_value (hex_digit n) = Some n"
  by (simp add: hex_value_def byte_in_def unat_hex_digit)

lemma sample_hex_laws: "hex_laws sample_hex sample_unhex"
proof -
  have "sample_unhex (sample_hex b) = Some b" for b
  proof (induction b)
    case Nil
    then show ?case by (simp add: sample_hex_def)
  next
    case (Cons x b)
    have "unat x div 16 < 16"
      using unat_less_pow [of x] by simp
    moreover have "word_of_nat (16 * (unat x div 16) + unat x mod 16) = x"
      by (simp only: mult_div_mod_eq) simp
    ultimately show ?case
      using Cons by (simp add: sample_hex_def hex_value_digit del: of_nat_add of_nat_mult)
  qed
  then show ?thesis by (simp add: hex_laws_def)
qed

lemma sample_hex_ascii: "b \<in> set (sample_hex xs) \<Longrightarrow> unat b < 128"
proof -
  assume "b \<in> set (sample_hex xs)"
  then obtain x :: u8 where "b = hex_digit (unat x div 16) \<or> b = hex_digit (unat x mod 16)"
    by (auto simp: sample_hex_def)
  moreover have "unat x div 16 < 16"
    using unat_less_pow [of x] by simp
  ultimately show ?thesis
    by (auto simp: unat_hex_digit)
qed

end
