(* ===== verification/Completeness.thy ===== *)
theory Completeness
  imports Payment_Identity Sample_World
begin

text \<open>
  The prover and the verifier of \<open>payment_identity.rs\<close> against each other: the loops of both
  sides as sums over the generators, each of the four checks on the values the prover
  computes, and the completeness of the protocol.
\<close>

section \<open>The loops as sums\<close>

lemma foldl_diff_sum:
  fixes z :: "'a::ab_group_add"
  shows "foldl (\<lambda>acc k. acc - f k) z [0..<n] = z - (\<Sum>k<n. f k)"
  by (induction n) (simp_all add: algebra_simps)

lemma bit_commitment_sum [fold_simps]:
  "bit_commitment B g r c = bk_mul B g r + (\<Sum>k<bk_M B. bk_mul B (bit_generators B ! k) (c k))"
  by (simp add: bit_commitment_def acc_loop_sum)

lemma check_bit_opening_sum [fold_simps]:
  "check_bit_opening B g z rhs c \<longleftrightarrow>
     bk_mul B g z = rhs - (\<Sum>k<bk_M B. bk_mul B (bit_generators B ! k) (c k))"
  by (simp add: check_bit_opening_def foldl_diff_sum)

lemma membership_lhs_sum [fold_simps]:
  "length d_set = N_of B \<Longrightarrow>
   membership_lhs B f x d_set = (\<Sum>j<N_of B. bk_mul B (d_set ! j) (eval_index_poly (bk_M B) f x j))"
  by (simp add: membership_lhs_def foldl_enumerate_add)

lemma foldl_powers:
  fixes x :: "'s::field" and rhs :: "'p::ab_group_add"
  shows "foldl (\<lambda>(rhs, x_pow) e. (rhs + bk_mul B e x_pow, x_pow * x)) (rhs, y) es =
     (rhs + (\<Sum>k<length es. bk_mul B (es ! k) (y * x ^ k)), y * x ^ length es)"
  by (induction es arbitrary: rhs y)
    (simp_all add: sum.lessThan_Suc_shift algebra_simps del: sum.lessThan_Suc)

lemma foldl_responses:
  fixes rhs :: "'p::ab_group_add"
  shows "foldl (\<lambda>(rhs, i) h. (rhs + bk_mul B h (z i), i + 1)) (rhs, n) hs =
     (rhs + (\<Sum>k<length hs. bk_mul B (hs ! k) (z (n + k))), n + length hs)"
  by (induction hs arbitrary: rhs n)
    (simp_all add: sum.lessThan_Suc_shift algebra_simps del: sum.lessThan_Suc)

lemma sum_generators:
  fixes f :: "'p \<Rightarrow> nat \<Rightarrow> 'a::ab_group_add"
  shows "(\<Sum>i<length hs + 2. f ((g # hs @ [h]) ! i) i) =
     f g 0 + (\<Sum>i<length hs. f (hs ! i) (Suc i)) + f h (length hs + 1)"
proof -
  have "(\<Sum>i<length hs + 2. f ((g # hs @ [h]) ! i) i) =
      f g 0 + (\<Sum>i<Suc (length hs). f ((hs @ [h]) ! i) (Suc i))"
    by (simp add: sum.lessThan_Suc_shift del: sum.lessThan_Suc)
  also have "(\<Sum>i<Suc (length hs). f ((hs @ [h]) ! i) (Suc i)) =
      (\<Sum>i<length hs. f (hs ! i) (Suc i)) + f h (Suc (length hs))"
    by (simp add: nth_append)
  finally show ?thesis by (simp add: add.assoc)
qed

lemma membership_rhs_sum [fold_simps]:
  "membership_rhs B crs hs zs x cap_e =
     (\<Sum>i<length hs + 2. bk_mul B ((crs_g crs # hs @ [crs_h_name crs]) ! i) (scalar_from_bytes B (zs ! i)))
     + (\<Sum>k<length cap_e. bk_mul B (cap_e ! k) (x ^ k))"
  unfolding sum_generators [of "\<lambda>p i. bk_mul B p (scalar_from_bytes B (zs ! i))"]
  by (simp only: membership_rhs_def foldl_responses foldl_powers Let_def prod.case) simp

lemma fold_decomposition:
  fixes d :: "nat \<Rightarrow> nat \<Rightarrow> 'p::ab_group_add"
  shows "length e = m \<Longrightarrow> k < m \<Longrightarrow>
     foldl (\<lambda>ce (j, dj). from_fn m (\<lambda>k. ce ! k + d' j dj k)) e (enumerate n ds) ! k =
       e ! k + (\<Sum>j<length ds. d' (n + j) (ds ! j) k)"
proof (induction ds arbitrary: e n)
  case Nil
  then show ?case by simp
next
  case (Cons x ds)
  then show ?case
    by (simp add: sum.lessThan_Suc_shift add.assoc del: sum.lessThan_Suc)
qed

lemma length_fold_decomposition:
  "length e = m \<Longrightarrow>
     length (foldl (\<lambda>ce (j, dj). from_fn m (\<lambda>k. f ce j dj k)) e (enumerate n ds)) = m"
  by (induction ds arbitrary: e n) simp_all

lemma length_decomposition_points [simp]:
  "length d_set = N_of B \<Longrightarrow> length (decomposition_points B rho gens bits a d_set) = bk_M B"
  by (simp add: decomposition_points_def Let_def length_fold_decomposition)

lemma nth_decomposition_points:
  assumes "length d_set = N_of B" and "k < bk_M B"
  shows "decomposition_points B rho gens bits a d_set ! k =
     (\<Sum>i<length gens. bk_mul B (gens ! i) (rho ! i ! k)) +
     (\<Sum>j<N_of B. bk_mul B (d_set ! j) (index_poly (bk_M B) bits a j ! k))"
  using assms
  by (simp add: decomposition_points_def Let_def fold_decomposition foldl_enumerate_add)

lemma z_response_sum [fold_simps]:
  "z_response m (x_powers m x) w (x_powers m x) rho i = w ! i * x ^ m - (\<Sum>k<m. rho ! i ! k * x ^ k)"
  by (simp add: z_response_def acc_loop_sum)

section \<open>The checks on the prover's values\<close>

lemma opening_linear:
  assumes "mul_laws B"
  shows "check_bit_opening B g (r1 + r2 * x)
     (bit_commitment B g r1 c1 + bk_mul B (bit_commitment B g r2 c2) x) (\<lambda>k. c1 k + c2 k * x)"
  using assms by (simp add: fold_simps mul_simps mul_sum_right sum.distrib)

lemma check_bit_opening_cong:
  "(\<And>k. k < bk_M B \<Longrightarrow> c k = d k) \<Longrightarrow>
     check_bit_opening B g z rhs c = check_bit_opening B g z rhs d"
  by (simp add: check_bit_opening_sum)

text \<open>Check 2 holds because a bit equals its square.\<close>

lemma bitness_value:
  fixes b a x :: "'s::field"
  assumes "b * b = b"
  shows "(b * x + a) * (x - (b * x + a)) = - a * a + (a * (1 - 2 * b)) * x"
proof -
  have "(b * x + a) * (x - (b * x + a)) =
      (b - b * b) * x * x - a * a + (a * (1 - 2 * b)) * x"
    by (simp add: algebra_simps)
  then show ?thesis using assms by simp
qed

lemma check1_complete:
  assumes "mul_laws B" and "\<And>k. k < bk_M B \<Longrightarrow> f ! k = bits ! k * x + a ! k"
  shows "check_bit_opening B g (r_a + r_b * x)
     (bit_commitment B g r_a (\<lambda>k. a ! k) + bk_mul B (bit_commitment B g r_b (\<lambda>k. bits ! k)) x)
     (\<lambda>k. f ! k)"
  using opening_linear [OF assms(1), of g r_a r_b x "\<lambda>k. a ! k" "\<lambda>k. bits ! k"] assms(2)
  by (simp add: add.commute cong: check_bit_opening_cong)

lemma check2_complete:
  assumes "mul_laws B" and "\<And>k. k < bk_M B \<Longrightarrow> f ! k = bits ! k * x + a ! k"
    and "\<And>k. k < bk_M B \<Longrightarrow> bits ! k * bits ! k = bits ! k"
  shows "check_bit_opening B g (r_c * x + r_d)
     (bk_mul B (bit_commitment B g r_c (\<lambda>k. a ! k * (1 - 2 * bits ! k))) x +
      bit_commitment B g r_d (\<lambda>k. - (a ! k) * a ! k))
     (\<lambda>k. f ! k * (x - f ! k))"
proof -
  have eq: "f ! k * (x - f ! k) = - (a ! k) * a ! k + a ! k * (1 - 2 * bits ! k) * x"
    if "k < bk_M B" for k
    using bitness_value [of "bits ! k" x "a ! k"] assms(2,3) that by simp
  have "check_bit_opening B g z rhs (\<lambda>k. f ! k * (x - f ! k)) = check_bit_opening B g z rhs
      (\<lambda>k. - (a ! k) * a ! k + a ! k * (1 - 2 * bits ! k) * x)" for z rhs
    by (rule check_bit_opening_cong) (erule eq)
  then show ?thesis
    unfolding add.commute [of "r_c * x"] add.commute [of "bk_mul B _ x"]
    by (simp only: opening_linear [OF assms(1)])
qed

lemma membership_complete:
  fixes B :: "('s::field, 'p::ab_group_add) backend" and rho :: "'s list list" and a :: "'s list"
  assumes laws: "mul_laws B" and lens: "length d_set = N_of B" "length gens = length w"
    and index: "index < N_of B"
    and open_index: "d_set ! index = (\<Sum>i<length gens. bk_mul B (gens ! i) (w ! i))"
  defines "m \<equiv> bk_M B"
  defines "bits \<equiv> index_bits m index"
  defines "e \<equiv> decomposition_points B rho gens bits a d_set"
  assumes f: "\<And>k. k < m \<Longrightarrow> f ! k = bits ! k * x + a ! k"
  shows "membership_lhs B f x d_set =
     (\<Sum>i<length gens. bk_mul B (gens ! i) (z_response m (x_powers m x) w (x_powers m x) rho i)) +
     (\<Sum>k<length e. bk_mul B (e ! k) (x ^ k))"
proof -
  define P where "P j k = index_poly m bits a j ! k" for j k
  have lead: "P j m = (if j = index then 1 else 0)" if "j < N_of B" for j
    using index_poly_lead_delta [of index m j a] that index
    by (simp add: P_def bits_def N_of_pow m_def)
  have eval: "eval_index_poly m f x j = (\<Sum>k<m. P j k * x ^ k) + P j m * x ^ m" for j
    using eval_index_poly_eq [of m f bits x a j] f by (simp add: poly_val_split P_def)
  have "membership_lhs B f x d_set =
      (\<Sum>j<N_of B. bk_mul B (d_set ! j) (\<Sum>k<m. P j k * x ^ k)) +
      (\<Sum>j<N_of B. bk_mul B (d_set ! j) (P j m * x ^ m))"
    using lens laws
    by (simp add: membership_lhs_sum eval [unfolded m_def] m_def mul_simps sum.distrib)
  also have "(\<Sum>j<N_of B. bk_mul B (d_set ! j) (P j m * x ^ m)) =
      (\<Sum>j<N_of B. if j = index then bk_mul B (d_set ! index) (x ^ m) else 0)"
    using laws by (intro sum.cong) (auto simp: lead mul_simps)
  also have "\<dots> = bk_mul B (d_set ! index) (x ^ m)"
    using index by simp
  finally have lhs: "membership_lhs B f x d_set =
      (\<Sum>j<N_of B. bk_mul B (d_set ! j) (\<Sum>k<m. P j k * x ^ k)) + bk_mul B (d_set ! index) (x ^ m)" .
  have "(\<Sum>k<length e. bk_mul B (e ! k) (x ^ k)) =
      (\<Sum>k<m. (\<Sum>i<length gens. bk_mul B (gens ! i) (rho ! i ! k * x ^ k)) +
             (\<Sum>j<N_of B. bk_mul B (d_set ! j) (P j k * x ^ k)))"
    using lens laws
    by (intro sum.cong) (auto simp: e_def m_def P_def nth_decomposition_points mul_simps mul_sum_right)
  also have "\<dots> = (\<Sum>i<length gens. bk_mul B (gens ! i) (\<Sum>k<m. rho ! i ! k * x ^ k)) +
             (\<Sum>j<N_of B. bk_mul B (d_set ! j) (\<Sum>k<m. P j k * x ^ k))"
    using laws
    by (simp add: sum.distrib mul_sum_left sum.swap [of _ "{..<m}"])
  finally have es: "(\<Sum>k<length e. bk_mul B (e ! k) (x ^ k)) =
      (\<Sum>i<length gens. bk_mul B (gens ! i) (\<Sum>k<m. rho ! i ! k * x ^ k)) +
      (\<Sum>j<N_of B. bk_mul B (d_set ! j) (\<Sum>k<m. P j k * x ^ k))" .
  show ?thesis
    unfolding lhs es using laws open_index
    by (simp add: z_response_sum mul_simps mul_sum_right sum_subtractf)
qed

section \<open>The set and the generators\<close>

definition wf_generators :: "'p crs \<Rightarrow> bool" where
  "wf_generators c \<longleftrightarrow> length (crs_generators c) = num_merchants c"

lemma wf_generators_setup [simp]: "wf_generators (crs_setup B ms n)"
  by (simp add: wf_generators_def)

definition set_points :: "('s, 'p) backend \<Rightarrow> bytes list \<Rightarrow> 'p list" where
  "set_points B xs = map (\<lambda>c. the (point_from_bytes B c)) xs"

definition all_decode :: "('s, 'p) backend \<Rightarrow> bytes list \<Rightarrow> bool" where
  "all_decode B xs \<longleftrightarrow> list_all (\<lambda>c. point_from_bytes B c \<noteq> None) xs"

lemma shifted_set_decode:
  "all_decode B xs \<Longrightarrow> shifted_set B s xs = Inr (map (\<lambda>P. P - s) (set_points B xs))"
  by (induction xs) (auto simp: shifted_set_def set_points_def all_decode_def)

lemma verifier_shifted_set_decode:
  "all_decode B xs \<Longrightarrow> verifier_shifted_set B s xs = map (\<lambda>P. P - s) (set_points B xs)"
  by (induction xs) (auto simp: verifier_shifted_set_def set_points_def all_decode_def)

lemma length_verifier_shifted_set [simp]: "length (verifier_shifted_set B s xs) = length xs"
  by (simp add: verifier_shifted_set_def)

lemma shifted_set_panics:
  "\<not> all_decode B xs \<Longrightarrow> shifted_set B s xs = Inl (Panic ''valid commitment'')"
  by (induction xs) (auto simp: shifted_set_def all_decode_def ok_or_def split: option.splits)

lemma crs_h_wf:
  "wf_generators c \<Longrightarrow> 1 \<le> l \<Longrightarrow> l \<le> num_merchants c \<Longrightarrow>
     crs_h c l = Inr (crs_generators c ! (l - 1))"
  by (simp add: crs_h_def wf_generators_def)

lemma other_indices_range:
  "i \<in> set (other_indices n l) \<Longrightarrow> 1 \<le> i \<and> i \<le> n \<and> i \<noteq> l"
  by (auto simp: other_indices_def)

lemma other_gens_wf:
  "wf_generators c \<Longrightarrow> other_gens c l =
     Inr (map (\<lambda>i. crs_generators c ! (i - 1)) (other_indices (num_merchants c) l))"
  unfolding other_gens_def
  by (intro collect_res_map crs_h_wf) (auto dest: other_indices_range)

lemma filter_neq_upt:
  "filter (\<lambda>m. m \<noteq> l) [a..<b] = (if a \<le> l \<and> l < b then [a..<l] @ [Suc l..<b] else [a..<b])"
  by (induction b) (auto simp: less_Suc_eq not_less le_Suc_eq)

lemma length_other_indices:
  "1 \<le> l \<Longrightarrow> l \<le> n \<Longrightarrow> length (other_indices n l) = n - 1"
  by (simp add: other_indices_def filter_neq_upt del: upt_Suc)

lemma sum_other_indices:
  fixes f :: "nat \<Rightarrow> 'a::ab_group_add"
  assumes "1 \<le> l" "l \<le> n"
  shows "(\<Sum>i\<leftarrow>other_indices n l. f i) = (\<Sum>i<n. f (Suc i)) - f l"
proof -
  have "(\<Sum>i\<leftarrow>other_indices n l. f i) = (\<Sum>i\<in>{1..<Suc n} - {l}. f i)"
    unfolding other_indices_def
    by (subst sum_list_distinct_conv_sum_set) (auto intro: sum.cong)
  also have "\<dots> = (\<Sum>i\<in>{1..<Suc n}. f i) - f l"
    using assms by (simp add: sum_diff1)
  also have "(\<Sum>i\<in>{1..<Suc n}. f i) = (\<Sum>i<n. f (Suc i))"
    using sum.shift_bounds_Suc_ivl [of f 0 n] by (simp add: atLeast0LessThan)
  finally show ?thesis .
qed

text \<open>The shifted commitment at the prover's index opens over the active generators.\<close>

lemma shifted_opening:
  fixes B :: "('s::field, 'p::ab_group_add) backend" and k n :: 's and s :: "nat \<Rightarrow> 's"
  assumes "wf_generators c" "1 \<le> l" "l \<le> num_merchants c"
  defines "js \<equiv> other_indices (num_merchants c) l"
  defines "gens \<equiv> crs_g c # map (\<lambda>i. crs_generators c ! (i - 1)) js @ [crs_h_name c]"
  defines "w \<equiv> k # map (\<lambda>i. s (i - 1)) js @ [n]"
  shows "master_point B c k s n - bk_mul B (crs_generators c ! (l - 1)) (s (l - 1)) =
     (\<Sum>i<length gens. bk_mul B (gens ! i) (w ! i))"
proof -
  have "(\<Sum>i<length gens. bk_mul B (gens ! i) (w ! i)) =
      bk_mul B (crs_g c) k +
      (\<Sum>i<length js. bk_mul B (crs_generators c ! (js ! i - 1)) (s (js ! i - 1))) +
      bk_mul B (crs_h_name c) n"
    using sum_generators [of "\<lambda>p i. bk_mul B p (w ! i)" "crs_g c"
        "map (\<lambda>i. crs_generators c ! (i - 1)) js" "crs_h_name c"]
    by (simp add: gens_def w_def nth_append)
  also have "(\<Sum>i<length js. bk_mul B (crs_generators c ! (js ! i - 1)) (s (js ! i - 1))) =
      (\<Sum>i\<leftarrow>js. bk_mul B (crs_generators c ! (i - 1)) (s (i - 1)))"
    by (simp add: sum_list_nth)
  also have "\<dots> = (\<Sum>i<num_merchants c. bk_mul B (crs_generators c ! i) (s i)) -
      bk_mul B (crs_generators c ! (l - 1)) (s (l - 1))"
    unfolding js_def using assms(2,3) by (subst sum_other_indices) auto
  finally show ?thesis
    using assms(1) by (simp add: master_point_def wf_generators_def)
qed

lemma those_Some: "those (map Some xs) = Some xs"
  by (induction xs) auto

lemma decode_points_encoded:
  "codec_laws B \<Longrightarrow> length es = bk_M B \<Longrightarrow>
   pf_a p = point_to_bytes B a \<Longrightarrow> pf_b p = point_to_bytes B b \<Longrightarrow>
   pf_c p = point_to_bytes B c \<Longrightarrow> pf_d p = point_to_bytes B d \<Longrightarrow>
   pf_e_poly p = from_fn (bk_M B) (\<lambda>k. point_to_bytes B (es ! k)) \<Longrightarrow>
   decode_points B p = Some (a, b, c, d, es)"
proof -
  assume *: "codec_laws B" "length es = bk_M B"
    "pf_e_poly p = from_fn (bk_M B) (\<lambda>k. point_to_bytes B (es ! k))"
  have "from_fn (bk_M B) (\<lambda>k. point_from_bytes B (pf_e_poly p ! k)) = map Some es"
    using * by (auto intro!: nth_equalityI)
  moreover assume "pf_a p = point_to_bytes B a" "pf_b p = point_to_bytes B b"
    "pf_c p = point_to_bytes B c" "pf_d p = point_to_bytes B d"
  ultimately show ?thesis
    using * by (simp add: decode_points_def those_Some)
qed

text \<open>Schnorr: the nonce, the challenge and the scalar satisfy the verification equation.\<close>

lemma check_nullifier_complete:
  assumes "mul_laws B" "codec_laws B"
    and "nul = point_to_bytes B (bk_mul B g s_l)"
    and "pf_schnorr_r p = point_to_bytes B (bk_mul B g t)"
    and "pf_schnorr_s p =
      scalar_to_bytes B (t + schnorr_challenge B g nul (bk_mul B g t) * s_l)"
  shows "check_nullifier B g s_l nul p"
  using assms by (simp add: check_nullifier_def mul_simps mult.commute Let_def)

section \<open>Completeness\<close>

lemma wf_proof_prover_message:
  assumes "codec_laws B" "length (nullifiers ! (l - 1)) = 32" "length name_scalar = 32"
  shows "wf_proof (bk_M B) (prover_message B co crs hs ds index l set_id blinding nullifiers
     pseudonym nul name_scalar)"
  using assms by (auto simp: prover_message_def Let_def wf_proof_def from_fn_def)

lemma prover_message_sel:
  "pf_nullifier_scalar (prover_message B co crs hs ds index l set_id blinding nullifiers
     pseudonym nul name_scalar) = nullifiers ! (l - 1)"
  "pf_name_scalar (prover_message B co crs hs ds index l set_id blinding nullifiers
     pseudonym nul name_scalar) = name_scalar"
  "length (pf_z_responses (prover_message B co crs hs ds index l set_id blinding nullifiers
     pseudonym nul name_scalar)) = num_merchants crs + 1"
  by (simp_all add: prover_message_def Let_def)

text \<open>The challenge of a proof, recomputed from what the proof and the message carry.\<close>

definition transcript_challenge ::
    "('s::field, 'p::ab_group_add) backend \<Rightarrow> 'p crs \<Rightarrow> bytes list \<Rightarrow> nat \<Rightarrow> bytes \<Rightarrow> bytes \<Rightarrow>
      bytes \<Rightarrow> pid_proof \<Rightarrow> 's" where
  "transcript_challenge B crs xs l set_id pseudonym nul p =
     (let s_l = bytes_to_scalar B (pf_nullifier_scalar p);
          ds = verifier_shifted_set B (bk_mul B (crs_generators crs ! (l - 1)) s_l) xs in
      case decode_points B p of None \<Rightarrow> 0
      | Some (a, b, c, d, e) \<Rightarrow>
          fiat_shamir_challenge B (crs_g crs) pseudonym nul l set_id (pf_name_scalar p) ds a b c d e)"

text \<open>A message computed over the shifted set passes every check of the verifier, with any
  responses \<open>zs\<close> that answer its challenge for scalars \<open>w\<close> opening the shifted commitment.\<close>

lemma verify_prover_message:
  fixes B :: "('s::field, 'p::ab_group_add) backend" and nullifiers :: "bytes list"
    and w :: "'s list" and co :: "'s coins" and blinding name_scalar set_id pseudonym nul :: bytes
    and index :: nat
  assumes laws: "mul_laws B" "codec_laws B"
    and wf: "wf_generators crs"
    and set: "length xs = N_of B" "index < N_of B"
    and l: "1 \<le> l" "l \<le> num_merchants crs"
  defines "s \<equiv> \<lambda>i. bytes_to_scalar B (nullifiers ! i)" and "js \<equiv> other_indices (num_merchants crs) l"
  defines "hs \<equiv> map (\<lambda>i. crs_generators crs ! (i - 1)) js"
  defines "gens \<equiv> crs_g crs # hs @ [crs_h_name crs]"
  defines "ds \<equiv> verifier_shifted_set B (bk_mul B (crs_generators crs ! (l - 1)) (s (l - 1))) xs"
  defines "p \<equiv> prover_message B co crs hs ds index l set_id blinding nullifiers pseudonym nul name_scalar"
  defines "x \<equiv> transcript_challenge B crs xs l set_id pseudonym nul p"
  assumes w: "length w = num_merchants crs + 1" "length zs = num_merchants crs + 1"
    and z: "\<And>i. i < num_merchants crs + 1 \<Longrightarrow> scalar_from_bytes B (zs ! i) =
      z_response (bk_M B) (x_powers (bk_M B) x) w (x_powers (bk_M B) x) (co_rho co) i"
    and open_index: "ds ! index = (\<Sum>i<length gens. bk_mul B (gens ! i) (w ! i))"
    and nul: "nul = point_to_bytes B (bk_mul B (crs_g crs) (s (l - 1)))"
  shows "verify_payment_identity_registration_proof B crs xs l set_id pseudonym nul
     (p\<lparr>pf_z_responses := zs\<rparr>) = Inr True"
proof -
  define m where "m = bk_M B"
  define bits :: "'s list" where "bits = index_bits m index"
  define a where "a = co_a co"
  define cap_a where "cap_a = bit_commitment B (crs_g crs) (co_r_a co) (\<lambda>k. a ! k)"
  define cap_b where "cap_b = bit_commitment B (crs_g crs) (co_r_b co) (\<lambda>k. bits ! k)"
  define cap_c where
    "cap_c = bit_commitment B (crs_g crs) (co_r_c co) (\<lambda>k. a ! k * (1 - 2 * bits ! k))"
  define cap_d where "cap_d = bit_commitment B (crs_g crs) (co_r_d co) (\<lambda>k. - (a ! k) * a ! k)"
  define e where "e = decomposition_points B (co_rho co) gens bits a ds"
  have sel: "pf_nullifier_scalar p = nullifiers ! (l - 1)" "pf_name_scalar p = name_scalar"
    unfolding p_def by (rule prover_message_sel)+
  have lens: "length ds = N_of B" "length gens = length w" "length e = m" "length hs + 2 = length w"
    using set l w by (simp_all add: ds_def gens_def hs_def e_def m_def js_def length_other_indices)
  have dec: "decode_points B q = Some (cap_a, cap_b, cap_c, cap_d, e)" if "q = p \<or> q = p\<lparr>pf_z_responses := zs\<rparr>" for q
    by (rule decode_points_encoded) (use that laws lens in \<open>auto simp: p_def prover_message_def Let_def
      bits_def a_def cap_a_def cap_b_def cap_c_def cap_d_def e_def gens_def m_def\<close>)
  have ds: "verifier_shifted_set B (bk_mul B (crs_generators crs ! (l - 1)) (s (l - 1))) xs = ds"
    by (simp add: ds_def)
  have x: "x = fiat_shamir_challenge B (crs_g crs) pseudonym nul l set_id name_scalar
                ds cap_a cap_b cap_c cap_d e"
    unfolding x_def transcript_challenge_def Let_def
    by (simp add: dec sel ds [unfolded s_def] del: One_nat_def)
  define f where "f = from_fn m (\<lambda>k. bits ! k * x + a ! k)"
  note raw = bits_def a_def cap_a_def cap_b_def cap_c_def cap_d_def e_def x f_def gens_def m_def
  have fk: "from_fn m (\<lambda>k. scalar_from_bytes B (pf_f p ! k)) = f"
    using laws by (intro nth_equalityI) (simp_all add: p_def prover_message_def Let_def raw)
  have za: "scalar_from_bytes B (pf_z_a p) = co_r_a co + co_r_b co * x"
    and zc: "scalar_from_bytes B (pf_z_c p) = co_r_c co * x + co_r_d co"
    using laws by (simp_all add: p_def prover_message_def Let_def raw)
  have fval: "f ! k = bits ! k * x + a ! k" if "k < bk_M B" for k
    using that by (simp add: f_def m_def)
  have idem: "bits ! k * bits ! k = bits ! k" if "k < bk_M B" for k
    using that by (simp add: bits_def m_def index_bits_idem)
  have check1: "check_bit_opening B (crs_g crs) (co_r_a co + co_r_b co * x)
      (cap_a + bk_mul B cap_b x) (\<lambda>k. f ! k)"
    unfolding cap_a_def cap_b_def by (rule check1_complete [OF laws(1) fval])
  have check2: "check_bit_opening B (crs_g crs) (co_r_c co * x + co_r_d co)
      (bk_mul B cap_c x + cap_d) (\<lambda>k. f ! k * (x - f ! k))"
    unfolding cap_c_def cap_d_def by (rule check2_complete [OF laws(1) fval idem])
  have "membership_rhs B crs hs zs x e =
      (\<Sum>i<length gens. bk_mul B (gens ! i) (z_response m (x_powers m x) w (x_powers m x) (co_rho co) i))
      + (\<Sum>k<length e. bk_mul B (e ! k) (x ^ k))"
    unfolding membership_rhs_sum gens_def [symmetric]
    using laws lens w(1) by (intro arg_cong2 [where f = "(+)"] sum.cong) (auto simp: z m_def)
  then have check3: "membership_lhs B f x ds = membership_rhs B crs hs zs x e"
    using membership_complete [OF laws(1) lens(1,2) set(2) open_index, of f x a "co_rho co"] fval
    by (simp add: e_def bits_def m_def)
  have check4: "check_nullifier B (crs_g crs) (s (l - 1)) nul (p\<lparr>pf_z_responses := zs\<rparr>)"
    by (rule check_nullifier_complete [OF laws nul, of _ "co_nonce co"])
      (simp_all add: p_def prover_message_def Let_def s_def)
  have hs: "other_gens crs l = Inr hs"
    by (simp add: other_gens_wf [OF wf] hs_def js_def)
  show ?thesis
    unfolding verify_payment_identity_registration_proof_def Let_def
    using set(1) l w check1 check2 check3 check4 [unfolded s_def]
    by (simp add: crs_h_wf [OF wf l] ds [unfolded s_def] hs dec za zc fk [unfolded m_def] sel
        x [symmetric] del: One_nat_def)
qed

text \<open>The honest responses answer the challenge for the scalars the prover was given.\<close>

lemma prover_message_responses:
  fixes B :: "('s::field, 'p::ab_group_add) backend" and nullifiers :: "bytes list"
    and co :: "'s coins" and hs :: "'p list" and blinding name_scalar set_id pseudonym nul :: bytes
    and index :: nat
  assumes "codec_laws B" and set: "length ds = N_of B" and ds: "ds = verifier_shifted_set B
      (bk_mul B (crs_generators crs ! (l - 1)) (bytes_to_scalar B (nullifiers ! (l - 1)))) xs"
    and i: "i < num_merchants crs + 1"
  defines "p \<equiv> prover_message B co crs hs ds index l set_id blinding nullifiers pseudonym nul name_scalar"
  defines "x \<equiv> transcript_challenge B crs xs l set_id pseudonym nul p"
  shows "scalar_from_bytes B (pf_z_responses p ! i) = z_response (bk_M B) (x_powers (bk_M B) x)
     (bytes_to_scalar B blinding
        # map (\<lambda>i. bytes_to_scalar B (nullifiers ! (i - 1))) (other_indices (num_merchants crs) l)
        @ [bytes_to_scalar B name_scalar]) (x_powers (bk_M B) x) (co_rho co) i"
proof -
  define m where "m = bk_M B"
  define bits :: "'s list" where "bits = index_bits m index"
  define e where "e = decomposition_points B (co_rho co) (crs_g crs # hs @ [crs_h_name crs]) bits (co_a co) ds"
  have "length e = m"
    using set by (simp add: e_def m_def)
  then have "decode_points B p = Some
     (bit_commitment B (crs_g crs) (co_r_a co) (\<lambda>k. co_a co ! k),
      bit_commitment B (crs_g crs) (co_r_b co) (\<lambda>k. bits ! k),
      bit_commitment B (crs_g crs) (co_r_c co) (\<lambda>k. co_a co ! k * (1 - 2 * bits ! k)),
      bit_commitment B (crs_g crs) (co_r_d co) (\<lambda>k. - (co_a co ! k) * co_a co ! k), e)"
    using assms(1)
    by (intro decode_points_encoded) (auto simp: p_def prover_message_def Let_def bits_def e_def m_def)
  then show ?thesis
    using assms(1) i
    by (simp add: x_def transcript_challenge_def ds p_def prover_message_def Let_def bits_def e_def m_def)
qed

lemma set_opening:
  fixes B :: "('s::field, 'p::ab_group_add) backend" and nullifiers :: "bytes list"
    and blinding name_scalar :: bytes
  assumes laws: "codec_laws B" and wf: "wf_generators crs"
    and set: "length xs = N_of B" "all_decode B xs" "index < N_of B" and service: "1 \<le> l" "l \<le> num_merchants crs"
    and member: "commit_master_identity B crs nullifiers blinding name_scalar = Inr (xs ! index)"
  defines "js \<equiv> other_indices (num_merchants crs) l" and "s \<equiv> \<lambda>i. bytes_to_scalar B (nullifiers ! i)"
  defines "gens \<equiv> crs_g crs # map (\<lambda>i. crs_generators crs ! (i - 1)) js @ [crs_h_name crs]"
  defines "w \<equiv> bytes_to_scalar B blinding # map (\<lambda>i. s (i - 1)) js @ [bytes_to_scalar B name_scalar]"
  shows "verifier_shifted_set B (bk_mul B (crs_generators crs ! (l - 1)) (s (l - 1))) xs ! index =
     (\<Sum>i<length gens. bk_mul B (gens ! i) (w ! i))"
    and "length nullifiers = num_merchants crs" "length w = num_merchants crs + 1"
proof -
  show len: "length nullifiers = num_merchants crs" 
    using member wf by (auto simp: commit_master_identity_def wf_generators_def split: if_splits)
  show "length w = num_merchants crs + 1"
    using service by (simp add: w_def js_def length_other_indices)
  have "xs ! index = point_to_bytes B (master_point B crs (bytes_to_scalar B blinding) s
      (bytes_to_scalar B name_scalar))"
    using member len wf by (simp add: commit_master_identity_point wf_generators_def s_def)
  then show "verifier_shifted_set B (bk_mul B (crs_generators crs ! (l - 1)) (s (l - 1))) xs ! index =
     (\<Sum>i<length gens. bk_mul B (gens ! i) (w ! i))"
    using laws set shifted_opening [OF wf service, of B _ s]
    by (simp add: verifier_shifted_set_decode set_points_def gens_def w_def js_def)
qed

text \<open>What the honest prover sends.\<close>

definition honest_message ::
    "('s::field, 'p::ab_group_add) backend \<Rightarrow> rng \<Rightarrow> 'p crs \<Rightarrow> bytes list \<Rightarrow> nat \<Rightarrow> nat \<Rightarrow> bytes \<Rightarrow>
      bytes \<Rightarrow> bytes list \<Rightarrow> bytes \<Rightarrow> bytes \<Rightarrow> bytes \<Rightarrow> pid_proof" where
  "honest_message B rng crs xs index l set_id blinding nullifiers pseudonym nul name_scalar =
     prover_message B (draw_coins B rng (num_merchants crs + 1)) crs
       (map (\<lambda>i. crs_generators crs ! (i - 1)) (other_indices (num_merchants crs) l))
       (verifier_shifted_set B (bk_mul B (crs_generators crs ! (l - 1))
          (bytes_to_scalar B (nullifiers ! (l - 1)))) xs)
       index l set_id blinding nullifiers pseudonym nul name_scalar"

lemma prove_honest_message:
  assumes wf: "wf_generators crs"
    and set: "length xs = N_of B" "all_decode B xs" "index < N_of B"
    and service: "1 \<le> l" "l \<le> num_merchants crs" "length nullifiers = num_merchants crs"
  shows "prove_payment_identity_registration B rng crs xs index l set_id blinding nullifiers
     pseudonym nul name_scalar =
     Inr (honest_message B rng crs xs index l set_id blinding nullifiers pseudonym nul name_scalar)"
  using set service
  by (simp add: prove_payment_identity_registration_def Let_def crs_h_wf [OF wf service(1,2)]
      shifted_set_decode verifier_shifted_set_decode other_gens_wf [OF wf] honest_message_def)

lemma honest_message_accepted:
  fixes B :: "('s::field, 'p::ab_group_add) backend"
  assumes laws: "mul_laws B" "codec_laws B"
    and wf: "wf_generators crs"
    and set: "length anonymity_set = N_of B" "all_decode B anonymity_set" "index < N_of B"
    and service: "1 \<le> l" "l \<le> num_merchants crs"
    and member: "commit_master_identity B crs nullifiers blinding name_scalar =
      Inr (anonymity_set ! index)"
    and nul: "nul = point_to_bytes B (bk_mul B (crs_g crs) (bytes_to_scalar B (nullifiers ! (l - 1))))"
  shows "verify_payment_identity_registration_proof B crs anonymity_set l set_id pseudonym nul
      (honest_message B rng crs anonymity_set index l set_id blinding nullifiers pseudonym nul name_scalar)
      = Inr True"
    and "length nullifiers = num_merchants crs"
proof -
  note opens = set_opening [OF laws(2) wf set service member]
  define p where "p = honest_message B rng crs anonymity_set index l set_id blinding nullifiers
    pseudonym nul name_scalar"
  note responses = prover_message_responses [OF laws(2) _ refl]
  have "verify_payment_identity_registration_proof B crs anonymity_set l set_id pseudonym nul
      (p\<lparr>pf_z_responses := pf_z_responses p\<rparr>) = Inr True"
    unfolding p_def honest_message_def
    by (rule verify_prover_message [OF laws wf set(1,3) service opens(3) prover_message_sel(3) responses
      opens(1) nul]) (use set in simp_all)
  then show "verify_payment_identity_registration_proof B crs anonymity_set l set_id pseudonym nul p = Inr True"
    by simp
  show "length nullifiers = num_merchants crs"
    by (rule opens(2))
qed

text \<open>C1. Completeness. A member of a full anonymity set, whose commitment at position
  \<open>index\<close> is the one \<open>commit_master_identity\<close> computes from its nullifiers, blinding key
  and name scalar, obtains a proof for every service of the CRS, whatever randomness is drawn,
  and the verifier accepts that proof.\<close>

theorem registration_proof_complete:
  fixes B :: "('s::field, 'p::ab_group_add) backend"
  assumes laws: "mul_laws B" "codec_laws B"
    and wf: "wf_generators crs"
    and set: "length anonymity_set = N_of B" "all_decode B anonymity_set" "index < N_of B"
    and service: "1 \<le> l" "l \<le> num_merchants crs"
    and member: "commit_master_identity B crs nullifiers blinding name_scalar =
      Inr (anonymity_set ! index)"
    and nul: "nul = point_to_bytes B (bk_mul B (crs_g crs) (bytes_to_scalar B (nullifiers ! (l - 1))))"
  shows "\<exists>p. prove_payment_identity_registration B rng crs anonymity_set index l set_id blinding
               nullifiers pseudonym nul name_scalar = Inr p
           \<and> verify_payment_identity_registration_proof B crs anonymity_set l set_id pseudonym nul p
               = Inr True"
  using honest_message_accepted [OF assms] prove_honest_message [OF wf set service] by blast

lemma sample_set_decodes: "all_decode sample sample_set"
  using sample_phi_decodes by (auto simp: all_decode_def sample_set_def list_all_iff)

lemma sample_wf_generators: "wf_generators sample_crs"
  by (simp add: sample_crs_def)

lemmas sample_proof_hyps = sample_wf_generators sample_mul_laws sample_codec_laws sample_set_decodes sample_commit

theorem registration_proof_complete_witness:
  "\<exists>p. prove_payment_identity_registration sample (\<lambda>i. sample_key i) sample_crs sample_set 2 1
          (sample_key 9) (sample_key 2) sample_nullifiers [7]
          (point_to_bytes sample (bk_mul sample (crs_g sample_crs)
             (bytes_to_scalar sample (sample_nullifiers ! 0)))) sample_name_scalar = Inr p
     \<and> verify_payment_identity_registration_proof sample sample_crs sample_set 1 (sample_key 9) [7]
          (point_to_bytes sample (bk_mul sample (crs_g sample_crs)
             (bytes_to_scalar sample (sample_nullifiers ! 0)))) p = Inr True"
  by (rule registration_proof_complete) (simp_all add: sample_proof_hyps)

end
