(* ===== verification/Forgeries.thy ===== *)
theory Forgeries
  imports Completeness
begin

text \<open>
  Two ways to obtain an accepted registration proof that the protocol does not intend, each as
  an executable prover: revealing a name other than the committed one, and using a member of
  the anonymity set that does not decode to a point.
\<close>

section \<open>The revealed name\<close>

text \<open>A prover that calls the library's prover with a false name and then answers for the
  committed name scalar in the last response, the one for \<open>h_name\<close>.\<close>

definition forge_name ::
    "('s::field, 'p::ab_group_add) backend \<Rightarrow> rng \<Rightarrow> 'p crs \<Rightarrow> bytes list \<Rightarrow> nat \<Rightarrow> nat \<Rightarrow> bytes \<Rightarrow>
      bytes \<Rightarrow> bytes list \<Rightarrow> bytes \<Rightarrow> bytes \<Rightarrow> str \<Rightarrow> str \<Rightarrow> failure + pid_proof" where
  "forge_name B rng crs xs index l set_id blinding nullifiers pseudonym nul own_name other_name =
     rbind (prove_payment_identity_registration B rng crs xs index l set_id blinding nullifiers
              pseudonym nul (to_scalar_bytes B other_name)) (\<lambda>p.
       let x = transcript_challenge B crs xs l set_id pseudonym nul p;
           last = num_merchants crs;
           z = scalar_from_bytes B (pf_z_responses p ! last);
           d = bytes_to_scalar B (to_scalar_bytes B own_name)
             - bytes_to_scalar B (to_scalar_bytes B other_name)
       in Inr (p\<lparr>pf_z_responses := (pf_z_responses p)[last := scalar_to_bytes B (z + d * x ^ bk_M B)]\<rparr>))"

lemma z_response_last:
  "length ws = n \<Longrightarrow> i \<le> n \<Longrightarrow>
   z_response m (x_powers m x) (ws @ [a]) (x_powers m x) rho i =
     z_response m (x_powers m x) (ws @ [b]) (x_powers m x) rho i + (if i = n then (a - b) * x ^ m else 0)"
  by (simp add: z_response_sum nth_append algebra_simps)

text \<open>C13. The friendly name is not bound to the commitment. The proof of the dishonest prover
  above is accepted by the verifier and passes \<open>verify_name_revelation\<close> for a name of its
  choice, while the commitment in the set was made with another name: nothing relates the
  response for \<open>h_name\<close> to the \<open>name_scalar\<close> of the proof, which enters the challenge only.
  The documentation of \<open>verify_name_revelation\<close> claims the opposite.\<close>

theorem friendly_name_not_bound:
  fixes B :: "('s::field, 'p::ab_group_add) backend"
  assumes laws: "mul_laws B" "codec_laws B"
    and wf: "wf_generators crs"
    and set: "length anonymity_set = N_of B" "all_decode B anonymity_set" "index < N_of B"
    and service: "1 \<le> l" "l \<le> num_merchants crs"
    and member: "commit_master_identity B crs nullifiers blinding (to_scalar_bytes B own_name) =
      Inr (anonymity_set ! index)"
    and nul: "nul = point_to_bytes B (bk_mul B (crs_g crs) (bytes_to_scalar B (nullifiers ! (l - 1))))"
  shows "\<exists>p. forge_name B rng crs anonymity_set index l set_id blinding nullifiers pseudonym nul
               own_name other_name = Inr p
           \<and> verify_payment_identity_registration_proof B crs anonymity_set l set_id pseudonym nul p
               = Inr True
           \<and> verify_name_revelation B (pf_name_scalar p) other_name"
proof -
  note opens = set_opening [OF laws(2) wf set service member]
  define js where "js = other_indices (num_merchants crs) l"
  define ws where "ws = bytes_to_scalar B blinding
    # map (\<lambda>i. bytes_to_scalar B (nullifiers ! (i - 1))) js"
  define ds where "ds = verifier_shifted_set B (bk_mul B (crs_generators crs ! (l - 1))
      (bytes_to_scalar B (nullifiers ! (l - 1)))) anonymity_set"
  define hs where "hs = map (\<lambda>i. crs_generators crs ! (i - 1)) js"
  define p where "p = prover_message B (draw_coins B rng (num_merchants crs + 1)) crs hs ds index l
      set_id blinding nullifiers pseudonym nul (to_scalar_bytes B other_name)"
  define x where "x = transcript_challenge B crs anonymity_set l set_id pseudonym nul p"
  define zs where "zs = (pf_z_responses p)[num_merchants crs := scalar_to_bytes B
      (scalar_from_bytes B (pf_z_responses p ! num_merchants crs) +
       (bytes_to_scalar B (to_scalar_bytes B own_name) -
        bytes_to_scalar B (to_scalar_bytes B other_name)) * x ^ bk_M B)]"
  have ds: "ds = map (\<lambda>P. P - bk_mul B (crs_generators crs ! (l - 1))
      (bytes_to_scalar B (nullifiers ! (l - 1)))) (set_points B anonymity_set)" "length ds = N_of B"
    using set by (simp_all add: ds_def verifier_shifted_set_decode set_points_def)
  have len: "length ws = num_merchants crs" "length (pf_z_responses p) = num_merchants crs + 1"
    using service by (simp_all add: ws_def js_def length_other_indices p_def prover_message_sel)
  note z_response_last [OF len(1), of _ "bk_M B" _ "bytes_to_scalar B (to_scalar_bytes B own_name)"
      _ "bytes_to_scalar B (to_scalar_bytes B other_name)"]
  then have "verify_payment_identity_registration_proof B crs anonymity_set l set_id pseudonym nul
      (p\<lparr>pf_z_responses := zs\<rparr>) = Inr True"
    unfolding p_def hs_def js_def ds_def
    using laws len prover_message_responses [OF laws(2) ds(2) ds_def, unfolded ds_def]
    by (intro verify_prover_message [OF laws wf set(1,3) service opens(3) _ _ opens(1) nul])
      (simp_all add: zs_def x_def p_def hs_def js_def ds_def ws_def nth_list_update)
  then show ?thesis
    using set service opens(2) laws
    by (auto simp: forge_name_def prove_payment_identity_registration_def Let_def
        crs_h_wf [OF wf service] shifted_set_decode other_gens_wf [OF wf] p_def hs_def js_def ds
        zs_def x_def verify_name_revelation_def to_scalar_bytes_def prover_message_sel)
qed

theorem friendly_name_not_bound_witness:
  "\<exists>p. forge_name sample (\<lambda>i. sample_key i) sample_crs sample_set 2 1 (sample_key 9) (sample_key 2)
          sample_nullifiers [7] (point_to_bytes sample (bk_mul sample (crs_g sample_crs)
             (bytes_to_scalar sample (sample_nullifiers ! 0)))) (ascii ''alice'') (ascii ''bob'') = Inr p
     \<and> verify_payment_identity_registration_proof sample sample_crs sample_set 1 (sample_key 9) [7]
          (point_to_bytes sample (bk_mul sample (crs_g sample_crs)
             (bytes_to_scalar sample (sample_nullifiers ! 0)))) p = Inr True
     \<and> verify_name_revelation sample (pf_name_scalar p) (ascii ''bob'')"
  by (rule friendly_name_not_bound)
    (simp_all add: sample_proof_hyps [unfolded sample_name_scalar_def])

section \<open>Undecodable members\<close>

text \<open>The verifier replaces a commitment that does not decode by the identity, whatever the
  revealed scalar; the identity opens with zero scalars. This prover needs no secret: it runs
  the code of the honest prover on the verifier's shifted set and answers for zero scalars.\<close>

definition forge_membership ::
    "('s::field, 'p::ab_group_add) backend \<Rightarrow> rng \<Rightarrow> 'p crs \<Rightarrow> bytes list \<Rightarrow> nat \<Rightarrow> nat \<Rightarrow> bytes \<Rightarrow>
      bytes \<Rightarrow> bytes \<Rightarrow> bytes \<Rightarrow> bytes \<Rightarrow> pid_proof" where
  "forge_membership B rng crs xs index l set_id s pseudonym nul name_scalar =
     (let co = draw_coins B rng (num_merchants crs + 1);
          ds = verifier_shifted_set B (bk_mul B (crs_generators crs ! (l - 1)) (bytes_to_scalar B s)) xs;
          hs = map (\<lambda>i. crs_generators crs ! (i - 1)) (other_indices (num_merchants crs) l);
          p = prover_message B co crs hs ds index l set_id [] (replicate l s) pseudonym nul name_scalar;
          xp = x_powers (bk_M B) (transcript_challenge B crs xs l set_id pseudonym nul p)
      in p\<lparr>pf_z_responses := from_fn (num_merchants crs + 1) (\<lambda>i. scalar_to_bytes B
             (z_response (bk_M B) xp (replicate (num_merchants crs + 1) 0) xp (co_rho co) i))\<rparr>)"

text \<open>C12. One undecodable commitment breaks the Sybil resistance of its anonymity set. If a
  member of the set is not the encoding of a point, then for every nullifier scalar \<open>s\<close> the
  prover above, which uses no secret, gets a proof accepted with the public nullifier of
  \<open>s\<close>, so that nullifiers no longer limit a member to one registration. The registry accepts
  any 33 bytes as a commitment.\<close>

theorem undecodable_member_forges_any_nullifier:
  fixes B :: "('s::field, 'p::ab_group_add) backend"
  assumes laws: "mul_laws B" "codec_laws B"
    and wf: "wf_generators crs"
    and set: "length anonymity_set = N_of B" "index < N_of B"
    and bad: "point_from_bytes B (anonymity_set ! index) = None"
    and service: "1 \<le> l" "l \<le> num_merchants crs"
    and nul: "nul = point_to_bytes B (bk_mul B (crs_g crs) (bytes_to_scalar B s))"
  shows "verify_payment_identity_registration_proof B crs anonymity_set l set_id pseudonym nul
           (forge_membership B rng crs anonymity_set index l set_id s pseudonym nul name_scalar) = Inr True"
proof -
  have s: "replicate l s ! (l - 1) = s"
    using service by simp
  have zero: "verifier_shifted_set B shift anonymity_set ! index = 0" for shift
    using bad set by (simp add: verifier_shifted_set_def)
  show ?thesis
    unfolding forge_membership_def Let_def
    using laws service
    by (intro verify_prover_message [where nullifiers = "replicate l s", OF laws wf set service, unfolded s])
      (auto simp: nul zero length_other_indices mul_zero_left intro!: sum.neutral
        simp del: replicate_Suc sum.lessThan_Suc)
qed

theorem undecodable_member_forges_any_nullifier_witness:
  "verify_payment_identity_registration_proof sample sample_crs [sample_phi, [], sample_phi, sample_phi]
     2 (sample_key 9) [7] (point_to_bytes sample (bk_mul sample (crs_g sample_crs)
       (bytes_to_scalar sample (sample_key 3))))
     (forge_membership sample (\<lambda>i. sample_key i) sample_crs [sample_phi, [], sample_phi, sample_phi]
       1 2 (sample_key 9) (sample_key 3) [7] (point_to_bytes sample (bk_mul sample (crs_g sample_crs)
         (bytes_to_scalar sample (sample_key 3)))) (sample_key 4)) = Inr True"
  by (rule undecodable_member_forges_any_nullifier)
    (simp_all add: sample_proof_hyps, simp add: point_from_bytes_def sample_def)

text \<open>The honest prover panics, instead of returning an error, on every anonymity set with
  an undecodable member, once its arguments pass the range checks.\<close>

theorem prover_panics_on_undecodable_member:
  fixes B :: "('s::field, 'p::ab_group_add) backend"
  assumes wf: "wf_generators crs"
    and set: "length anonymity_set = N_of B" "index < N_of B" "c \<in> set anonymity_set"
    and bad: "point_from_bytes B c = None"
    and service: "1 \<le> l" "l \<le> num_merchants crs" "length nullifiers = num_merchants crs"
  shows "prove_payment_identity_registration B rng crs anonymity_set index l set_id blinding nullifiers
     pseudonym nul name_scalar = Inl (Panic ''valid commitment'')"
proof -
  have "\<not> all_decode B anonymity_set"
    using bad set(3) by (auto simp: all_decode_def list_all_iff)
  then show ?thesis
    using set service
    by (simp add: prove_payment_identity_registration_def Let_def crs_h_wf [OF wf service(1,2)]
        shifted_set_panics)
qed

theorem prover_panics_on_undecodable_member_witness:
  "prove_payment_identity_registration sample (\<lambda>i. sample_key i) sample_crs
     [sample_phi, [], sample_phi, sample_phi] 0 1 (sample_key 9) (sample_key 2) sample_nullifiers
     [7] [8] sample_name_scalar = Inl (Panic ''valid commitment'')"
  by (rule prover_panics_on_undecodable_member [of _ _ _ _ "[]"])
    (simp_all add: sample_proof_hyps sample_nullifiers_def, simp add: point_from_bytes_def sample_def)

end
