(* ===== verification/Anonymity.thy ===== *)
theory Anonymity
  imports Completeness
begin

text \<open>
  What a registration proof of \<open>payment_identity.rs\<close> hides. The proof shows its nullifier and its
  name scalar; it shows nothing of the position in the anonymity set. Where the base generator
  generates the group, as on secp256k1, every member's commitment opens to the same nullifiers and
  name with some blinding key, and for every message of the prover there are as many choices of
  coins for one member as for another: the message is distributed alike for all of them.
\<close>

section \<open>Coins and messages\<close>

definition wf_coins :: "nat \<Rightarrow> nat \<Rightarrow> 's coins \<Rightarrow> bool" where
  "wf_coins m n co \<longleftrightarrow> length (co_a co) = m \<and> length (co_rho co) = n \<and> (\<forall>r\<in>set (co_rho co). length r = m)"

text \<open>The first message of the prover, and its answers to a challenge.\<close>

definition sent_points ::
    "('s::field, 'p::ab_group_add) backend \<Rightarrow> 's coins \<Rightarrow> 'p \<Rightarrow> 'p list \<Rightarrow> nat \<Rightarrow> 'p list \<Rightarrow>
      'p \<times> 'p \<times> 'p \<times> 'p \<times> 'p list" where
  "sent_points B co g gens index ds =
     (let bits = index_bits (bk_M B) index; a = co_a co in
      (bit_commitment B g (co_r_a co) (\<lambda>k. a ! k), bit_commitment B g (co_r_b co) (\<lambda>k. bits ! k),
       bit_commitment B g (co_r_c co) (\<lambda>k. a ! k * (1 - 2 * bits ! k)),
       bit_commitment B g (co_r_d co) (\<lambda>k. - (a ! k) * a ! k),
       decomposition_points B (co_rho co) gens bits a ds))"

definition sent_answers ::
    "('s::field, 'p) backend \<Rightarrow> 's coins \<Rightarrow> 's list \<Rightarrow> nat \<Rightarrow> 's \<Rightarrow> 's list \<times> 's \<times> 's \<times> 's list" where
  "sent_answers B co w index x =
     (let m = bk_M B; bits = index_bits m index in
      (from_fn m (\<lambda>k. bits ! k * x + co_a co ! k), co_r_a co + co_r_b co * x, co_r_c co * x + co_r_d co,
       from_fn (length w) (\<lambda>i. z_response m (x_powers m x) w (x_powers m x) (co_rho co) i)))"

definition witness_scalars ::
    "('s, 'p) backend \<Rightarrow> 'p crs \<Rightarrow> nat \<Rightarrow> bytes \<Rightarrow> bytes list \<Rightarrow> bytes \<Rightarrow> 's list" where
  "witness_scalars B crs l blinding nullifiers name_scalar =
     bytes_to_scalar B blinding
       # map (\<lambda>i. bytes_to_scalar B (nullifiers ! (i - 1))) (other_indices (num_merchants crs) l)
       @ [bytes_to_scalar B name_scalar]"

definition points_challenge ::
    "('s::field, 'p) backend \<Rightarrow> 'p crs \<Rightarrow> bytes \<Rightarrow> bytes \<Rightarrow> nat \<Rightarrow> bytes \<Rightarrow> bytes \<Rightarrow> 'p list \<Rightarrow>
      'p \<times> 'p \<times> 'p \<times> 'p \<times> 'p list \<Rightarrow> 's" where
  "points_challenge B crs pseudonym nul l set_id name_scalar ds ps =
     (case ps of (a, b, c, d, e) \<Rightarrow> fiat_shamir_challenge B (crs_g crs) pseudonym nul l set_id name_scalar ds a b c d e)"

text \<open>The proof as a function of the two.\<close>

definition assemble ::
    "('s::field, 'p::ab_group_add) backend \<Rightarrow> 'p crs \<Rightarrow> 's \<Rightarrow> nat \<Rightarrow> bytes list \<Rightarrow> bytes \<Rightarrow> bytes \<Rightarrow>
      'p \<times> 'p \<times> 'p \<times> 'p \<times> 'p list \<Rightarrow> 's list \<times> 's \<times> 's \<times> 's list \<Rightarrow> pid_proof" where
  "assemble B crs nonce l nullifiers nul name_scalar ps zs =
     (case ps of (a, b, c, d, e) \<Rightarrow> case zs of (f, z_a, z_c, z) \<Rightarrow>
      let r = bk_mul B (crs_g crs) nonce in
      \<lparr>pf_a = point_to_bytes B a, pf_b = point_to_bytes B b, pf_c = point_to_bytes B c, pf_d = point_to_bytes B d,
       pf_e_poly = from_fn (bk_M B) (\<lambda>k. point_to_bytes B (e ! k)),
       pf_f = from_fn (bk_M B) (\<lambda>k. scalar_to_bytes B (f ! k)),
       pf_z_a = scalar_to_bytes B z_a, pf_z_c = scalar_to_bytes B z_c, pf_z_responses = map (scalar_to_bytes B) z,
       pf_schnorr_r = point_to_bytes B r,
       pf_schnorr_s = scalar_to_bytes B (nonce + schnorr_challenge B (crs_g crs) nul r *
         bytes_to_scalar B (nullifiers ! (l - 1))),
       pf_nullifier_scalar = nullifiers ! (l - 1), pf_name_scalar = name_scalar\<rparr>)"

lemma prover_message_parts:
  fixes B :: "('s::field, 'p::ab_group_add) backend" and nullifiers :: "bytes list" and blinding name_scalar :: bytes
    and co :: "'s coins" and hs ds :: "'p list" and index :: nat
  assumes "length (other_indices (num_merchants crs) l) + 1 = num_merchants crs"
  defines "w \<equiv> witness_scalars B crs l blinding nullifiers name_scalar"
  defines "ps \<equiv> sent_points B co (crs_g crs) (crs_g crs # hs @ [crs_h_name crs]) index ds"
  shows "prover_message B co crs hs ds index l set_id blinding nullifiers pseudonym nul name_scalar =
    assemble B crs (co_nonce co) l nullifiers nul name_scalar ps
      (sent_answers B co w index (points_challenge B crs pseudonym nul l set_id name_scalar ds ps))"
proof -
  have len: "length (witness_scalars B crs l blinding nullifiers name_scalar) = num_merchants crs + 1"
    using assms(1) by (simp add: witness_scalars_def)
  show ?thesis
    unfolding w_def
    by (simp add: prover_message_def Let_def assemble_def sent_answers_def ps_def sent_points_def points_challenge_def
        map_from_fn len del: One_nat_def) (simp add: witness_scalars_def cong: from_fn_cong)
qed

section \<open>Coins for a given first message\<close>

lemma sum_first_generator:
  fixes h :: "'p \<Rightarrow> nat \<Rightarrow> 'a::ab_group_add"
  shows "(\<Sum>i<length (g # gs). h ((g # gs) ! i) i) = h g 0 + (\<Sum>i<length gs. h (gs ! i) (Suc i))"
  by (simp add: sum.lessThan_Suc_shift del: sum.lessThan_Suc)

text \<open>Where the base generator generates the group, every first message is sent for every index and
  every choice of the committed scalars and of the other generators' blinding rows.\<close>

lemma coins_for_points:
  fixes B :: "('s::field, 'p::ab_group_add) backend" and es :: "'p list" and a :: "'s list"
  assumes gen: "\<forall>P. \<exists>s. bk_mul B g s = P"
    and lens: "length ds = N_of B" "length a = bk_M B" "length es = bk_M B"
      "length rs = length gs" "\<forall>r\<in>set rs. length r = bk_M B"
  obtains co where "wf_coins (bk_M B) (length gs + 1) co" "co_a co = a" "co_nonce co = nonce" "tl (co_rho co) = rs"
    "sent_points B co g (g # gs) index ds = (pa, pb, pc, pd, es)"
proof -
  obtain dl where dl: "\<And>P. bk_mul B g (dl P) = P"
    using gen by metis
  define bits :: "'s list" where "bits = index_bits (bk_M B) index"
  define r where "r P c = dl (P - (\<Sum>k<bk_M B. bk_mul B (bit_generators B ! k) (c k)))" for P c
  define rest where "rest k = (\<Sum>i<length gs. bk_mul B (gs ! i) (rs ! i ! k)) +
    (\<Sum>j<N_of B. bk_mul B (ds ! j) (index_poly (bk_M B) bits a j ! k))" for k
  define co where "co = \<lparr>co_a = a, co_r_a = r pa (\<lambda>k. a ! k), co_r_b = r pb (\<lambda>k. bits ! k),
    co_r_c = r pc (\<lambda>k. a ! k * (1 - 2 * bits ! k)), co_r_d = r pd (\<lambda>k. - (a ! k) * a ! k),
    co_rho = from_fn (bk_M B) (\<lambda>k. dl (es ! k - rest k)) # rs, co_nonce = nonce\<rparr>"
  have bit: "bit_commitment B g (r P c) c = P" for P c
    by (simp add: bit_commitment_sum r_def dl)
  have "decomposition_points B (co_rho co) (g # gs) bits a ds ! k = es ! k" if "k < bk_M B" for k
    unfolding nth_decomposition_points [OF lens(1) that] sum_first_generator [where h = "\<lambda>p i. bk_mul B p (co_rho co ! i ! k)"]
    using that by (simp add: co_def dl rest_def)
  then have "decomposition_points B (co_rho co) (g # gs) bits a ds = es"
    using lens by (intro nth_equalityI) simp_all
  then have "sent_points B co g (g # gs) index ds = (pa, pb, pc, pd, es)"
    by (simp add: sent_points_def bits_def [symmetric] co_def bit)
  moreover have "wf_coins (bk_M B) (length gs + 1) co"
    using lens by (simp add: wf_coins_def co_def)
  ultimately show ?thesis
    by (intro that [of co]) (simp_all add: co_def)
qed

lemma nth_Suc_same_tl:
  "tl xs = tl ys \<Longrightarrow> length xs = length ys \<Longrightarrow> Suc n < length xs \<Longrightarrow> xs ! Suc n = ys ! Suc n"
  by (cases xs; cases ys) auto

text \<open>The answers are determined by the first message, the committed digits and the rows of the other
  generators, whatever the index.\<close>

lemma sent_answers_determined:
  fixes B :: "('s::field, 'p::ab_group_add) backend" and co co' :: "'s coins"
  assumes laws: "mul_laws B" and g: "g \<noteq> 0"
    and lens: "length ds = N_of B" "length gs + 1 = length w" "length w = length w'"
    and wf: "wf_coins (bk_M B) (length gs + 1) co" "wf_coins (bk_M B) (length gs + 1) co'"
    and index: "i < N_of B" "j < N_of B"
    and open_i: "ds ! i = (\<Sum>k<length (g # gs). bk_mul B ((g # gs) ! k) (w ! k))"
    and open_j: "ds ! j = (\<Sum>k<length (g # gs). bk_mul B ((g # gs) ! k) (w' ! k))"
    and tls: "tl w = tl w'" "tl (co_rho co) = tl (co_rho co')"
    and points: "sent_points B co g (g # gs) i ds = sent_points B co' g (g # gs) j ds"
    and digits: "\<And>k. k < bk_M B \<Longrightarrow> index_bits (bk_M B) i ! k * x + co_a co ! k =
      index_bits (bk_M B) j ! k * x + co_a co' ! k"
  shows "sent_answers B co w i x = sent_answers B co' w' j x"
proof -
  let ?m = "bk_M B"
  define f where "f = from_fn ?m (\<lambda>k. index_bits ?m i ! k * x + co_a co ! k)"
  have fi: "f ! k = index_bits ?m i ! k * x + co_a co ! k"
    and fj: "f ! k = index_bits ?m j ! k * x + co_a co' ! k" if "k < ?m" for k
    using that by (simp_all add: f_def digits)
  have f': "from_fn ?m (\<lambda>k. index_bits ?m j ! k * x + co_a co' ! k) = f"
    by (simp add: f_def digits cong: from_fn_cong)
  have idem: "index_bits ?m n ! k * index_bits ?m n ! k = (index_bits ?m n ! k :: 's)" if "k < ?m" for n k
    using that by (simp add: index_bits_idem)
  note inj = mul_eq_iff [OF laws g]
  note pts = points [unfolded sent_points_def Let_def prod.inject]
  have za: "co_r_a co + co_r_b co * x = co_r_a co' + co_r_b co' * x"
    using check1_complete [OF laws fi, where g = g and r_a = "co_r_a co" and r_b = "co_r_b co"]
      check1_complete [OF laws fj, where g = g and r_a = "co_r_a co'" and r_b = "co_r_b co'"] pts
    by (intro inj [THEN iffD1]) (simp add: check_bit_opening_sum)
  have zc: "co_r_c co * x + co_r_d co = co_r_c co' * x + co_r_d co'"
    using check2_complete [OF laws fi idem, where g = g and r_c = "co_r_c co" and r_d = "co_r_d co"]
      check2_complete [OF laws fj idem, where g = g and r_c = "co_r_c co'" and r_d = "co_r_d co'"] pts
    by (intro inj [THEN iffD1]) (simp add: check_bit_opening_sum)
  define z where "z c v n = z_response ?m (x_powers ?m x) v (x_powers ?m x) (co_rho c) n" for c :: "'s coins" and v n
  have later: "z co w (Suc n) = z co' w' (Suc n)" if "n < length gs" for n
  proof -
    have "w ! Suc n = w' ! Suc n"
      using that lens by (intro nth_Suc_same_tl tls) auto
    moreover have "co_rho co ! Suc n = co_rho co' ! Suc n"
      using that wf by (intro nth_Suc_same_tl tls) (auto simp: wf_coins_def)
    ultimately show ?thesis
      by (simp add: z_def z_response_sum)
  qed
  have sums: "(\<Sum>k<length (g # gs). bk_mul B ((g # gs) ! k) (z co w k)) =
      (\<Sum>k<length (g # gs). bk_mul B ((g # gs) ! k) (z co' w' k))"
    using membership_complete [OF laws lens(1) _ index(1) open_i fi, of "co_rho co"]
      membership_complete [OF laws lens(1) _ index(2) open_j fj, of "co_rho co'"] pts lens
    by (simp add: z_def del: sum.lessThan_Suc)
  have "bk_mul B g (z co w 0) = bk_mul B g (z co' w' 0)"
    using sums unfolding sum_first_generator [where h = "\<lambda>p k. bk_mul B p (z co w k)"]
      sum_first_generator [where h = "\<lambda>p k. bk_mul B p (z co' w' k)"] by (simp add: later)
  then have first: "z co w 0 = z co' w' 0"
    by (simp add: inj)
  have "z co w n = z co' w' n" if "n < length w" for n
    using that lens(2) first later by (cases n) auto
  then show ?thesis
    unfolding sent_answers_def Let_def lens(3)
    using za zc f' by (simp add: f_def z_def lens(3) cong: from_fn_cong)
qed

section \<open>Transcripts\<close>

text \<open>The nonce, the first message and the answers to the challenge \<open>X\<close> derives from it.\<close>

definition transcript ::
    "('s::field, 'p::ab_group_add) backend \<Rightarrow> 'p \<Rightarrow> 'p list \<Rightarrow> 'p list \<Rightarrow> ('p \<times> 'p \<times> 'p \<times> 'p \<times> 'p list \<Rightarrow> 's) \<Rightarrow>
      's list \<Rightarrow> nat \<Rightarrow> 's coins \<Rightarrow> 's \<times> ('p \<times> 'p \<times> 'p \<times> 'p \<times> 'p list) \<times> ('s list \<times> 's \<times> 's \<times> 's list)" where
  "transcript B g gs ds X w i co =
     (let ps = sent_points B co g (g # gs) i ds in (co_nonce co, ps, sent_answers B co w i (X ps)))"

definition opens_at ::
    "('s::field, 'p::ab_group_add) backend \<Rightarrow> 'p \<Rightarrow> 'p list \<Rightarrow> 'p list \<Rightarrow> 's list \<Rightarrow> nat \<Rightarrow> bool" where
  "opens_at B g gs ds w i \<longleftrightarrow> i < N_of B \<and> length w = length gs + 1 \<and>
     ds ! i = (\<Sum>k<length (g # gs). bk_mul B ((g # gs) ! k) (w ! k))"

lemma transcript_transfer:
  fixes B :: "('s::field, 'p::ab_group_add) backend" and co :: "'s coins"
  assumes laws: "mul_laws B" and g: "g \<noteq> 0" and gen: "\<forall>P. \<exists>s. bk_mul B g s = P"
    and ds: "length ds = N_of B" and opens: "opens_at B g gs ds w i" "opens_at B g gs ds w' j" "tl w = tl w'"
    and wf: "wf_coins (bk_M B) (length gs + 1) co"
  shows "\<exists>co'. wf_coins (bk_M B) (length gs + 1) co' \<and> tl (co_rho co') = tl (co_rho co) \<and>
    transcript B g gs ds X w' j co' = transcript B g gs ds X w i co"
proof -
  obtain pa pb pc pd es where ps: "sent_points B co g (g # gs) i ds = (pa, pb, pc, pd, es)" and es: "length es = bk_M B"
    using ds by (auto simp: sent_points_def Let_def)
  define x where "x = X (pa, pb, pc, pd, es)"
  define a where "a = from_fn (bk_M B)
    (\<lambda>k. index_bits (bk_M B) i ! k * x + co_a co ! k - index_bits (bk_M B) j ! k * x)"
  have rows: "length (tl (co_rho co)) = length gs" "\<forall>r\<in>set (tl (co_rho co)). length r = bk_M B"
    using wf by (cases "co_rho co"; auto simp: wf_coins_def)+
  have "length a = bk_M B"
    by (simp add: a_def)
  then obtain co' where co': "wf_coins (bk_M B) (length gs + 1) co'" "co_a co' = a" "co_nonce co' = co_nonce co"
      "tl (co_rho co') = tl (co_rho co)" "sent_points B co' g (g # gs) j ds = (pa, pb, pc, pd, es)"
    by (rule coins_for_points [OF gen ds _ es rows])
  have "sent_answers B co w i x = sent_answers B co' w' j x"
    by (rule sent_answers_determined [OF laws g ds _ _ wf co'(1) _ _ _ _ opens(3) co'(4) [symmetric]])
      (use opens ps co' in \<open>auto simp: opens_at_def a_def\<close>)
  then show ?thesis
    using co' ps by (intro exI [of _ co']) (simp add: transcript_def x_def)
qed

lemma bit_commitment_inj:
  "mul_laws B \<Longrightarrow> g \<noteq> 0 \<Longrightarrow> bit_commitment B g r c = bit_commitment B g r' c \<longleftrightarrow> r = r'"
  by (simp add: bit_commitment_sum mul_eq_iff)

lemma decomposition_points_inj:
  fixes B :: "('s::field, 'p::ab_group_add) backend"
  assumes laws: "mul_laws B" "g \<noteq> 0" and ds: "length ds = N_of B"
    and rho: "wf_coins (bk_M B) (length gs + 1) co" "wf_coins (bk_M B) (length gs + 1) co'"
      "tl (co_rho co) = tl (co_rho co')"
    and eq: "decomposition_points B (co_rho co) (g # gs) bits a ds = decomposition_points B (co_rho co') (g # gs) bits a ds"
  shows "co_rho co = co_rho co'"
proof -
  have row: "co_rho co ! Suc n = co_rho co' ! Suc n" if "n < length gs" for n
    using that rho(1,2) by (intro nth_Suc_same_tl rho(3)) (auto simp: wf_coins_def)
  have "co_rho co ! 0 ! k = co_rho co' ! 0 ! k" if "k < bk_M B" for k
  proof -
    have "decomposition_points B (co_rho co) (g # gs) bits a ds ! k = decomposition_points B (co_rho co') (g # gs) bits a ds ! k"
      by (simp add: eq)
    then have "bk_mul B g (co_rho co ! 0 ! k) = bk_mul B g (co_rho co' ! 0 ! k)"
      unfolding nth_decomposition_points [OF ds that] sum_first_generator [where h = "\<lambda>p i. bk_mul B p (co_rho co ! i ! k)"]
        sum_first_generator [where h = "\<lambda>p i. bk_mul B p (co_rho co' ! i ! k)"]
      by (simp add: row)
    then show ?thesis
      by (simp add: mul_eq_iff [OF laws])
  qed
  moreover have "length (co_rho co ! 0) = bk_M B" "length (co_rho co' ! 0) = bk_M B"
    using rho(1,2) by (auto simp: wf_coins_def)
  ultimately have "co_rho co ! 0 = co_rho co' ! 0"
    by (intro nth_equalityI) simp_all
  then have "co_rho co ! n = co_rho co' ! n" if "n < length gs + 1" for n
    using that row by (cases n) auto
  then show ?thesis
    using rho(1,2) by (intro nth_equalityI) (auto simp: wf_coins_def)
qed

lemma transcript_inj:
  fixes B :: "('s::field, 'p::ab_group_add) backend" and co co' :: "'s coins"
  assumes laws: "mul_laws B" "g \<noteq> 0" and ds: "length ds = N_of B"
    and wf: "wf_coins (bk_M B) (length gs + 1) co" "wf_coins (bk_M B) (length gs + 1) co'"
      "tl (co_rho co) = tl (co_rho co')"
    and eq: "transcript B g gs ds X w j co = transcript B g gs ds X w j co'"
  shows "co = co'"
proof -
  have ps: "sent_points B co g (g # gs) j ds = sent_points B co' g (g # gs) j ds" and nonce: "co_nonce co = co_nonce co'"
    using eq by (auto simp: transcript_def Let_def)
  define x where "x = X (sent_points B co' g (g # gs) j ds)"
  have "sent_answers B co w j x = sent_answers B co' w j x"
    using eq by (simp add: transcript_def Let_def ps x_def)
  then have "from_fn (bk_M B) (\<lambda>k. index_bits (bk_M B) j ! k * x + co_a co ! k) =
      from_fn (bk_M B) (\<lambda>k. index_bits (bk_M B) j ! k * x + co_a co' ! k)"
    by (simp add: sent_answers_def Let_def)
  then have "co_a co ! k = co_a co' ! k" if "k < bk_M B" for k
    using from_fn_inj_nth [OF _ that] by fastforce
  then have a: "co_a co = co_a co'"
    using wf(1,2) by (intro nth_equalityI) (auto simp: wf_coins_def)
  note pts = ps [unfolded sent_points_def Let_def prod.inject a bit_commitment_inj [OF laws]]
  have "co_rho co = co_rho co'"
    using pts by (intro decomposition_points_inj [OF laws ds wf]) blast
  with a pts nonce show ?thesis
    by (intro coins.equality) auto
qed

text \<open>For two openings that differ in the scalar of the base generator only, the coins that lead to one
  transcript from the one member and from the other correspond to each other.\<close>

lemma transcripts_bij:
  fixes B :: "('s::field, 'p::ab_group_add) backend" and t :: "'s \<times> ('p \<times> 'p \<times> 'p \<times> 'p \<times> 'p list) \<times> ('s list \<times> 's \<times> 's \<times> 's list)"
    and X :: "'p \<times> 'p \<times> 'p \<times> 'p \<times> 'p list \<Rightarrow> 's"
  assumes laws: "mul_laws B" "g \<noteq> 0" and gen: "\<forall>P. \<exists>s. bk_mul B g s = P" and ds: "length ds = N_of B"
    and opens: "opens_at B g gs ds w i" "opens_at B g gs ds w' j" "tl w = tl w'"
  defines "sends v k \<equiv> {co. wf_coins (bk_M B) (length gs + 1) co \<and> transcript B g gs ds X v k co = t}"
  shows "\<exists>T. bij_betw T (sends w i) (sends w' j)"
proof -
  define T where "T co = (SOME co'. co' \<in> sends w' j \<and> tl (co_rho co') = tl (co_rho co))" for co :: "'s coins"
  have T: "T co \<in> sends w' j \<and> tl (co_rho (T co)) = tl (co_rho co)" if "co \<in> sends w i" for co
    unfolding T_def using transcript_transfer [OF laws gen ds opens, of co X] that
    by (intro someI_ex [where P = "\<lambda>co'. co' \<in> sends w' j \<and> tl (co_rho co') = tl (co_rho co)"])
      (auto simp: sends_def)
  have "inj_on T (sends w i)"
  proof (rule inj_onI)
    fix co co' assume in_i: "co \<in> sends w i" "co' \<in> sends w i" and "T co = T co'"
    then have "tl (co_rho co) = tl (co_rho co')"
      using T by metis
    then show "co = co'"
      using in_i by (intro transcript_inj [OF laws ds, of gs _ _ X w i]) (auto simp: sends_def)
  qed
  moreover have "T ` sends w i = sends w' j"
  proof (intro equalityI subsetI)
    fix c assume c: "c \<in> sends w' j"
    then obtain co where co: "co \<in> sends w i" "tl (co_rho co) = tl (co_rho c)"
      using transcript_transfer [OF laws gen ds opens(2,1) opens(3) [symmetric], of c X] by (auto simp: sends_def)
    have "T co = c"
      using T [OF co(1)] co(2) c by (intro transcript_inj [OF laws ds, of gs _ _ X w' j]) (auto simp: sends_def)
    then show "c \<in> T ` sends w i"
      using co(1) by blast
  qed (use T in blast)
  ultimately show ?thesis
    by (auto simp: bij_betw_def)
qed

section \<open>Proofs and transcripts\<close>

lemma from_fn_map_inj: "length xs = n \<Longrightarrow> length ys = n \<Longrightarrow> (\<And>x y. h x = h y \<Longrightarrow> x = y) \<Longrightarrow>
    from_fn n (\<lambda>k. h (xs ! k)) = from_fn n (\<lambda>k. h (ys ! k)) \<Longrightarrow> xs = ys"
  by (metis from_fn_inj_nth nth_equalityI)

lemma scalar_to_bytes_inj: "codec_laws B \<Longrightarrow> scalar_to_bytes B s = scalar_to_bytes B t \<longleftrightarrow> s = t"
  by (metis scalar_round_trip)

lemma assemble_inj:
  fixes B :: "('s::field, 'p::ab_group_add) backend"
  assumes laws: "mul_laws B" "codec_laws B" and g: "crs_g crs \<noteq> 0"
    and lens: "length e = bk_M B" "length e' = bk_M B" "length f = bk_M B" "length f' = bk_M B"
    and eq: "assemble B crs n l nullifiers nul name_scalar (a, b, c, d, e) (f, z_a, z_c, z) =
      assemble B crs n' l nullifiers nul name_scalar (a', b', c', d', e') (f', z_a', z_c', z')"
  shows "n = n' \<and> (a, b, c, d, e) = (a', b', c', d', e') \<and> (f, z_a, z_c, z) = (f', z_a', z_c', z')"
proof -
  note codec = point_to_bytes_inj [OF laws(2)] scalar_to_bytes_inj [OF laws(2)]
  have "e = e'"
    using eq lens by (intro from_fn_map_inj [where h = "point_to_bytes B"]) (auto simp: assemble_def Let_def codec)
  moreover have "f = f'"
    using eq lens by (intro from_fn_map_inj [where h = "scalar_to_bytes B"]) (auto simp: assemble_def Let_def codec)
  moreover have "z = z'"
    using eq by (auto simp: assemble_def Let_def codec inj_on_def intro: map_inj_on [of "scalar_to_bytes B"])
  ultimately show ?thesis
    using eq by (auto simp: assemble_def Let_def codec mul_eq_iff [OF laws(1) g])
qed

text \<open>The proof is a function of the transcript, one that loses nothing.\<close>

definition write_proof where
  "write_proof B crs l nullifiers nul name_scalar t =
     (case t of (n, ps, zs) \<Rightarrow> assemble B crs n l nullifiers nul name_scalar ps zs)"

lemma write_proof_inj:
  fixes B :: "('s::field, 'p::ab_group_add) backend"
  assumes laws: "mul_laws B" "codec_laws B" and g: "crs_g crs \<noteq> 0" and ds: "length ds = N_of B"
    and eq: "write_proof B crs l nullifiers nul name_scalar (transcript B g gs ds X w i co) =
      write_proof B crs l nullifiers nul name_scalar (transcript B g gs ds X w' j co')"
  shows "transcript B g gs ds X w i co = transcript B g gs ds X w' j co'"
proof -
  obtain n a b c d e f za zc z where t: "transcript B g gs ds X w i co = (n, (a, b, c, d, e), (f, za, zc, z))"
    using prod_cases5 prod_cases4 by (metis surj_pair)
  obtain n' a' b' c' d' e' f' za' zc' z' where t': "transcript B g gs ds X w' j co' = (n', (a', b', c', d', e'), (f', za', zc', z'))"
    by (metis surj_pair)
  have "length e = bk_M B" "length e' = bk_M B" "length f = bk_M B" "length f' = bk_M B"
    using t t' ds by (auto simp: transcript_def sent_points_def sent_answers_def Let_def)
  from assemble_inj [OF laws g this] show ?thesis
    using eq unfolding t t' write_proof_def prod.case by blast
qed

lemma proofs_bij:
  fixes B :: "('s::field, 'p::ab_group_add) backend" and X :: "'p \<times> 'p \<times> 'p \<times> 'p \<times> 'p list \<Rightarrow> 's"
    and nullifiers :: "bytes list" and nul name_scalar :: bytes and l :: nat
  assumes laws: "mul_laws B" "codec_laws B" and g: "crs_g crs \<noteq> 0"
    and gen: "\<forall>P. \<exists>s. bk_mul B (crs_g crs) s = P" and ds: "length ds = N_of B"
    and opens: "opens_at B (crs_g crs) gs ds w i" "opens_at B (crs_g crs) gs ds w' j" "tl w = tl w'"
  defines "proof_of v k \<equiv> \<lambda>co. write_proof B crs l nullifiers nul name_scalar (transcript B (crs_g crs) gs ds X v k co)"
  shows "\<exists>T. bij_betw T {co. wf_coins (bk_M B) (length gs + 1) co \<and> proof_of w i co = p}
    {co. wf_coins (bk_M B) (length gs + 1) co \<and> proof_of w' j co = p}"
proof (cases "\<exists>co. wf_coins (bk_M B) (length gs + 1) co \<and> proof_of w i co = p")
  case True
  then obtain co\<^sub>0 where p: "proof_of w i co\<^sub>0 = p"
    by blast
  define t where "t = transcript B (crs_g crs) gs ds X w i co\<^sub>0"
  have "proof_of v k co = p \<longleftrightarrow> transcript B (crs_g crs) gs ds X v k co = t" for v k co
    using write_proof_inj [OF laws g ds] p unfolding proof_of_def t_def by metis
  then show ?thesis
    using transcripts_bij [OF laws(1) g gen ds opens, of X t] by simp
next
  case False
  then have i: "\<not> (wf_coins (bk_M B) (length gs + 1) co \<and> proof_of w i co = p)" for co
    by blast
  then have "\<not> (wf_coins (bk_M B) (length gs + 1) co \<and> proof_of w' j co = p)" for co
    using transcript_transfer [OF laws(1) g gen ds opens(2,1) opens(3) [symmetric], of co X] unfolding proof_of_def by metis
  with i have "{co. wf_coins (bk_M B) (length gs + 1) co \<and> proof_of w i co = p} = {}"
    "{co. wf_coins (bk_M B) (length gs + 1) co \<and> proof_of w' j co = p} = {}"
    by blast+
  then show ?thesis
    by (metis bij_betw_empty1 bij_betw_id)
qed

text \<open>Every choice of coins is one the random generator can draw, since each scalar is the reduction of its
  own representation.\<close>

lemma coins_drawn:
  fixes B :: "('s::field, 'p::ab_group_add) backend"
  assumes codec: "codec_laws B" and wf: "wf_coins (bk_M B) n co"
  shows "\<exists>rng. draw_coins B rng n = co"
proof -
  let ?m = "bk_M B"
  define s where "s i =
     (if i < ?m then co_a co ! i
      else if i < ?m + 4 then [co_r_a co, co_r_b co, co_r_c co, co_r_d co] ! (i - ?m)
      else if i < ?m + 4 + n * ?m then co_rho co ! ((i - (?m + 4)) div ?m) ! ((i - (?m + 4)) mod ?m)
      else co_nonce co)" for i
  have draw: "random_scalar B (\<lambda>i. scalar_to_bytes B (s i)) i = s i" for i
    using codec by (simp add: random_scalar_def bytes_to_scalar_def scalar_to_bytes_def)
  have "s (?m + 4 + gi * ?m + k) = co_rho co ! gi ! k" if "gi < n" "k < ?m" for gi k
  proof -
    have "gi * ?m + k < gi * ?m + ?m"
      using that by simp
    also have "\<dots> \<le> n * ?m"
      using that mult_le_mono1 [of "Suc gi" n ?m] by simp
    finally have "?m + 4 + gi * ?m + k < ?m + 4 + n * ?m"
      by simp
    moreover have "(gi * ?m + k) div ?m = gi" "(gi * ?m + k) mod ?m = k"
      using that by simp_all
    ultimately show ?thesis
      by (simp add: s_def add.assoc)
  qed
  then have rho: "from_fn n (\<lambda>gi. from_fn ?m (\<lambda>k. s (?m + 4 + gi * ?m + k))) = co_rho co"
    using wf by (intro nth_equalityI) (auto simp: wf_coins_def intro!: nth_equalityI)
  have a: "from_fn ?m (random_scalar B (\<lambda>i. scalar_to_bytes B (s i))) = co_a co"
    using wf by (intro nth_equalityI) (auto simp: wf_coins_def draw, simp add: s_def)
  have "draw_coins B (\<lambda>i. scalar_to_bytes B (s i)) n = co"
    unfolding draw_coins_def Let_def draw rho a by (simp add: s_def)
  then show ?thesis
    by blast
qed

lemma draw_coins_wf: "wf_coins (bk_M B) n (draw_coins B rng n)"
  by (auto simp: wf_coins_def draw_coins_def Let_def in_set_conv_nth)

lemma drawn_coins:
  fixes B :: "('s::field, 'p::ab_group_add) backend"
  assumes "codec_laws B"
  shows "{draw_coins B rng n |rng. P (draw_coins B rng n)} = {co. wf_coins (bk_M B) n co \<and> P co}"
  using coins_drawn [OF assms, of n] draw_coins_wf [of B n] by blast

section \<open>The members of a set\<close>

lemma member_opens:
  fixes B :: "('s::field, 'p::ab_group_add) backend" and nullifiers :: "bytes list" and blinding name_scalar :: bytes
  assumes wf: "wf_generators crs" and set: "length xs = N_of B" "all_decode B xs" "index < N_of B"
    and service: "1 \<le> l" "l \<le> num_merchants crs"
    and point: "point_from_bytes B (xs ! index) = Some (master_point B crs (bytes_to_scalar B blinding)
      (\<lambda>i. bytes_to_scalar B (nullifiers ! i)) (bytes_to_scalar B name_scalar))"
  defines "gs \<equiv> map (\<lambda>i. crs_generators crs ! (i - 1)) (other_indices (num_merchants crs) l) @ [crs_h_name crs]"
  shows "opens_at B (crs_g crs) gs
    (verifier_shifted_set B (bk_mul B (crs_generators crs ! (l - 1)) (bytes_to_scalar B (nullifiers ! (l - 1)))) xs)
    (witness_scalars B crs l blinding nullifiers name_scalar) index"
  using set service point shifted_opening [OF wf service, of B "bytes_to_scalar B blinding"
      "\<lambda>i. bytes_to_scalar B (nullifiers ! i)" "bytes_to_scalar B name_scalar"]
  by (simp add: opens_at_def gs_def witness_scalars_def length_other_indices verifier_shifted_set_decode set_points_def
      del: sum.lessThan_Suc One_nat_def)

text \<open>The runs of the prover, by the coins they draw.\<close>

lemma prover_runs:
  fixes B :: "('s::field, 'p::ab_group_add) backend" and nullifiers :: "bytes list"
  assumes codec: "codec_laws B" and wf: "wf_generators crs" and set: "length xs = N_of B" "all_decode B xs" "index < N_of B"
    and service: "1 \<le> l" "l \<le> num_merchants crs" and len: "length nullifiers = num_merchants crs"
  defines "gs \<equiv> map (\<lambda>i. crs_generators crs ! (i - 1)) (other_indices (num_merchants crs) l) @ [crs_h_name crs]"
  defines "ds \<equiv> verifier_shifted_set B
    (bk_mul B (crs_generators crs ! (l - 1)) (bytes_to_scalar B (nullifiers ! (l - 1)))) xs"
  shows "{draw_coins B rng (Suc (num_merchants crs)) |rng.
      prove_payment_identity_registration B rng crs xs index l set_id blinding nullifiers pseudonym nul name_scalar = Inr p} =
    {co. wf_coins (bk_M B) (length gs + 1) co \<and>
      write_proof B crs l nullifiers nul name_scalar (transcript B (crs_g crs) gs ds
        (points_challenge B crs pseudonym nul l set_id name_scalar ds)
        (witness_scalars B crs l blinding nullifiers name_scalar) index co) = p}"
proof -
  have n: "length (other_indices (num_merchants crs) l) + 1 = num_merchants crs"
    using service by (simp add: length_other_indices)
  then have len_gs: "length gs + 1 = Suc (num_merchants crs)"
    by (simp add: gs_def)
  show ?thesis
    unfolding len_gs
    by (subst drawn_coins [OF codec, symmetric])
      (simp add: prove_honest_message [OF wf set service len] honest_message_def prover_message_parts [OF n]
        write_proof_def transcript_def Let_def gs_def ds_def n)
qed

text \<open>C3. The registration proof does not show who registers. Where the base generator generates the group, as
  on secp256k1, the commitment at every position \<open>j\<close> of the set opens to the prover's own nullifiers and
  name with some blinding key. That one key explains every registration of the prover, with whichever
  merchants and pseudonyms: whatever proof \<open>p\<close> the prover sends from its position \<open>index\<close>, the prover at
  \<open>j\<close> with that key sends for equally many choices of its coins, the coins that lead to \<open>p\<close> being in
  bijection. Each proof is therefore distributed alike for every member of the set.\<close>

theorem registration_proof_hides_member:
  fixes B :: "('s::field, 'p::ab_group_add) backend"
  assumes laws: "mul_laws B" "codec_laws B"
    and base: "crs_g crs \<noteq> 0" "\<forall>P. \<exists>s. bk_mul B (crs_g crs) s = P"
    and wf: "wf_generators crs"
    and set: "length anonymity_set = N_of B" "all_decode B anonymity_set" "index < N_of B" "j < N_of B"
    and member: "commit_master_identity B crs nullifiers blinding name_scalar = Inr (anonymity_set ! index)"
  shows "\<exists>blinding'. length blinding' = 32 \<and>
    (\<exists>phi. commit_master_identity B crs nullifiers blinding' name_scalar = Inr phi \<and>
       point_from_bytes B phi = point_from_bytes B (anonymity_set ! j)) \<and>
    (\<forall>l\<in>{1..num_merchants crs}. \<forall>pseudonym nul p. \<exists>T. bij_betw T
      {draw_coins B rng (Suc (num_merchants crs)) |rng. prove_payment_identity_registration B rng crs anonymity_set
         index l set_id blinding nullifiers pseudonym nul name_scalar = Inr p}
      {draw_coins B rng (Suc (num_merchants crs)) |rng. prove_payment_identity_registration B rng crs anonymity_set
         j l set_id blinding' nullifiers pseudonym nul name_scalar = Inr p})"
proof -
  have len: "length nullifiers = num_merchants crs" "length nullifiers = length (crs_generators crs)"
    using member wf by (auto simp: commit_master_identity_def wf_generators_def split: if_splits)
  note point = commit_master_identity_point [OF len(2)]
  obtain P where P: "point_from_bytes B (anonymity_set ! j) = Some P"
    using set by (auto simp: all_decode_def list_all_length)
  define q where "q = master_point B crs 0 (\<lambda>i. bytes_to_scalar B (nullifiers ! i)) (bytes_to_scalar B name_scalar)"
  obtain k where k: "bk_mul B (crs_g crs) k = P - q"
    using base(2) by blast
  define blinding' where "blinding' = scalar_to_bytes B k"
  have P_point: "P = master_point B crs (bytes_to_scalar B blinding') (\<lambda>i. bytes_to_scalar B (nullifiers ! i))
      (bytes_to_scalar B name_scalar)"
    using laws k by (simp add: blinding'_def bytes_to_scalar_def scalar_to_bytes_def master_point_def q_def mul_simps
        algebra_simps)
  have decoded: "point_from_bytes B (anonymity_set ! index) = Some (master_point B crs (bytes_to_scalar B blinding)
      (\<lambda>i. bytes_to_scalar B (nullifiers ! i)) (bytes_to_scalar B name_scalar))"
    using member laws(2) unfolding point sum.inject by (metis point_round_trip)
  have "\<exists>T. bij_betw T
      {draw_coins B rng (Suc (num_merchants crs)) |rng. prove_payment_identity_registration B rng crs anonymity_set
         index l set_id blinding nullifiers pseudonym nul name_scalar = Inr p}
      {draw_coins B rng (Suc (num_merchants crs)) |rng. prove_payment_identity_registration B rng crs anonymity_set
         j l set_id blinding' nullifiers pseudonym nul name_scalar = Inr p}"
    if l: "1 \<le> l" "l \<le> num_merchants crs" for l pseudonym nul p
    unfolding prover_runs [OF laws(2) wf set(1,2,3) l len(1)] prover_runs [OF laws(2) wf set(1,2,4) l len(1)]
    by (rule proofs_bij [OF laws base _ member_opens [OF wf set(1,2,3) l decoded]
          member_opens [OF wf set(1,2,4) l P [unfolded P_point]]])
      (simp_all add: set witness_scalars_def)
  moreover have "commit_master_identity B crs nullifiers blinding' name_scalar = Inr (point_to_bytes B P)"
    by (simp add: point P_point)
  ultimately show ?thesis
    using laws P by (intro exI [of _ blinding'] conjI ballI allI exI [of _ "point_to_bytes B P"])
      (simp_all add: blinding'_def)
qed

lemma sample_base: "\<exists>s. bk_mul sample (crs_g sample_crs) s = (P :: gf5)"
  by (rule exI [of _ "P * inverse (crs_g sample_crs)"]) (simp add: sample_def)

theorem registration_proof_hides_member_witness:
  "\<exists>blinding'. length blinding' = 32 \<and>
    (\<exists>phi. commit_master_identity sample sample_crs sample_nullifiers blinding' sample_name_scalar = Inr phi \<and>
       point_from_bytes sample phi = point_from_bytes sample (sample_set[0 := point_to_bytes sample 1] ! 0)) \<and>
    (\<forall>l\<in>{1..num_merchants sample_crs}. \<forall>pseudonym nul p. \<exists>T. bij_betw T
      {draw_coins sample rng (Suc (num_merchants sample_crs)) |rng. prove_payment_identity_registration sample rng
         sample_crs (sample_set[0 := point_to_bytes sample 1])
         2 l (sample_key 9) (sample_key 2) sample_nullifiers pseudonym nul sample_name_scalar = Inr p}
      {draw_coins sample rng (Suc (num_merchants sample_crs)) |rng. prove_payment_identity_registration sample rng
         sample_crs (sample_set[0 := point_to_bytes sample 1])
         0 l (sample_key 9) blinding' sample_nullifiers pseudonym nul sample_name_scalar = Inr p})"
  by (rule registration_proof_hides_member)
    (use sample_set_decodes in \<open>simp_all add: sample_proof_hyps sample_base all_decode_def list_all_length nth_list_update\<close>)

end
