(* ===== verification/Wire_Format.thy ===== *)
theory Wire_Format
  imports Sample_World
begin

text \<open>
  Properties of the reference string's wire format (\<open>src/src/core/crs.rs\<close>), of the names and hex
  forms (\<open>src/src/core/types.rs\<close>) and of the build script's choice of \<open>M\<close>.
\<close>

text \<open>C28. The reference string survives the wire. For every CRS whose fields fit the format,
  \<open>from_bytes\<close> of \<open>to_bytes\<close> gives back the same points, security parameter, set size and
  merchants, each renumbered by its position and with an empty book, whatever bytes follow; if the
  ids are 1, 2, \<dots> and the books empty, it is the same CRS.\<close>

theorem crs_round_trip:
  assumes "codec_laws B" and "wf_crs c"
  shows "crs_from_bytes B (crs_to_bytes B c @ rest) = Inr (wire_crs c) \<and>
    ((\<forall>i<num_merchants c. m_merchant_id (crs_merchants c ! i) = i + 1 \<and>
        m_registered (crs_merchants c ! i) = Map.empty) \<longrightarrow> wire_crs c = c)"
  using crs_round_trip_raw [OF assms] renumber_id [of "crs_merchants c" 0]
  by (simp add: wire_crs_def num_merchants_def)

lemma sample_crs_wf: "wf_crs sample_crs"
  by (simp add: wf_crs_def fields_ok_def merchant_fields_def sample_merchant_def ascii_def byte_in_def)
    (simp add: sample_crs_def)

theorem crs_round_trip_witness:
  "crs_from_bytes sample (crs_to_bytes sample sample_crs) = Inr sample_crs"
  using crs_round_trip [OF sample_codec_laws sample_crs_wf, of "[]"]
  by (auto simp: less_2_cases_iff sample_merchant_def)

text \<open>The length prefix of the origin has 16 bits. A merchant whose origin has 65536 bytes or
  more is written with the length modulo \<open>2\<^sup>1\<^sup>6\<close>: when the reader accepts that prefix as
  UTF-8, it reads the truncated origin and goes on inside the origin's own bytes, so that a
  single such merchant makes every reader of the CRS see another origin.\<close>

theorem crs_long_origin_truncated:
  assumes "codec_laws B" and "length (crs_generators c) = 1" and "crs_merchants c = [m]"
    and "crs_set_size c < 2 ^ 32" and "utf8_valid (m_name m)" and "length (m_name m) \<le> 255"
    and "length (m_credential_generator m) = 33"
    and "utf8_valid (take (length (m_origin m) mod 65536) (m_origin m))"
    and "65536 \<le> length (m_origin m)"
  shows "\<exists>m'. crs_from_bytes B (crs_to_bytes B c) = Inr (c\<lparr>crs_merchants := [m']\<rparr>) \<and>
    m_name m' = m_name m \<and> m_origin m' = take (length (m_origin m) mod 65536) (m_origin m) \<and>
    m_origin m' \<noteq> m_origin m"
proof -
  have "parse_merchants 1 [] (merchant_to_bytes m) =
      Inr ([\<lparr>m_name = m_name m, m_credential_generator = m_credential_generator m,
        m_origin = take (length (m_origin m) mod 65536) (m_origin m), m_merchant_id = 1,
        m_registered = Map.empty\<rparr>], drop (length (m_origin m) mod 65536) (m_origin m))"
    using parse_merchant_fields_bytes [OF assms(5-8), of "[]"]
    by (simp add: merchant_to_bytes_fields merchant_fields_def)
  moreover have "length (take (length (m_origin m) mod 65536) (m_origin m)) < length (m_origin m)"
    using assms(9) mod_less_divisor [of 65536 "length (m_origin m)"] by simp
  then have "take (length (m_origin m) mod 65536) (m_origin m) \<noteq> m_origin m"
    by (metis less_irrefl)
  ultimately show ?thesis
    using crs_from_bytes_header [OF assms(1,2), of "[]"] assms(3,4)
    by (intro exI [of _ "\<lparr>m_name = m_name m, m_credential_generator = m_credential_generator m,
        m_origin = take (length (m_origin m) mod 65536) (m_origin m), m_merchant_id = 1,
        m_registered = Map.empty\<rparr>"]) (simp del: parse_merchants.simps)
qed

definition long_origin_merchant :: merchant where
  "long_origin_merchant = (sample_merchant ''a'' 1)\<lparr>m_origin := replicate 65537 97\<rparr>"

lemma long_origin_prefix: "take (length (m_origin long_origin_merchant) mod 65536) (m_origin long_origin_merchant) = [97]"
  by (simp add: long_origin_merchant_def)

theorem crs_long_origin_truncated_witness:
  "\<exists>m'. crs_from_bytes sample (crs_to_bytes sample (crs_setup sample [long_origin_merchant] 4)) =
       Inr ((crs_setup sample [long_origin_merchant] 4)\<lparr>crs_merchants := [m']\<rparr>) \<and> m_origin m' = [97]"
proof -
  have "length (m_origin long_origin_merchant) = 65537"
    by (simp add: long_origin_merchant_def)
  then have "\<exists>m'. crs_from_bytes sample (crs_to_bytes sample (crs_setup sample [long_origin_merchant] 4)) =
       Inr ((crs_setup sample [long_origin_merchant] 4)\<lparr>crs_merchants := [m']\<rparr>) \<and>
      m_name m' = m_name long_origin_merchant \<and>
      m_origin m' = take (length (m_origin long_origin_merchant) mod 65536) (m_origin long_origin_merchant) \<and>
      m_origin m' \<noteq> m_origin long_origin_merchant"
    by (intro crs_long_origin_truncated [OF sample_codec_laws])
      (simp_all only: long_origin_prefix, simp_all add: long_origin_merchant_def sample_merchant_def ascii_def byte_in_def)
  then show ?thesis
    by (auto simp only: long_origin_prefix)
qed

text \<open>The build script fixes \<open>M\<close> between 2 and 8, so that the anonymity set has between 4
  and 256 members: a set \<open>VEILED_M\<close> is taken over every feature flag and rejected outside that
  range; without it the smallest flag set decides, and the default is 3.\<close>

theorem build_m_outcome:
  "(case build_m v f of
      Inr m \<Rightarrow> 2 \<le> m \<and> m \<le> 8 \<and> 4 \<le> (2::nat) ^ m \<and> (2::nat) ^ m \<le> 256 \<and>
        (case v of Some s \<Rightarrow> parse_u32 s = Some m
         | None \<Rightarrow> m = (if feat_m2 f then 2 else if feat_m3 f then 3 else if feat_m4 f then 4
             else if feat_m5 f then 5 else 3))
    | Inl e \<Rightarrow> (\<exists>s. v = Some s \<and> (\<forall>m\<in>{2..8}. parse_u32 s \<noteq> Some m)))"
proof -
  have pow: "2 \<le> m \<Longrightarrow> m \<le> 8 \<Longrightarrow> (4::nat) \<le> 2 ^ m \<and> (2::nat) ^ m \<le> 256" for m :: nat
    using power_increasing [of 2 m "2::nat"] power_increasing [of m 8 "2::nat"] by simp
  show ?thesis
  proof (cases v)
    case None
    then show ?thesis by (simp add: build_m_def)
  next
    case (Some s)
    then show ?thesis
      by (cases "parse_u32 s") (auto simp: build_m_def pow)
  qed
qed

end
