(* ===== verification/Bitcoin.thy ===== *)
theory Bitcoin
  imports Crs
begin

text \<open>
  The values of the bitcoin and secp256k1 crates that the registry builds and reads, as records
  with the fields the code sets, and the crates' operations as the fields of a record. Public
  keys are of a type \<open>'k\<close>, secret keys of a type \<open>'x\<close>; x-only keys, scripts, transaction
  ids and digests are byte lists.
\<close>

record outpoint =
  op_txid :: bytes
  op_vout :: u32

record tx_in =
  ti_previous_output :: outpoint
  ti_script_sig :: bytes
  ti_sequence :: u32
  ti_witness :: "bytes list"

record tx_out =
  to_value :: u64
  to_script_pubkey :: bytes

record transaction =
  tx_version :: nat
  tx_lock_time :: u32
  tx_input :: "tx_in list"
  tx_output :: "tx_out list"

text \<open>\<open>Sequence::ENABLE_RBF_NO_LOCKTIME\<close> of the crate, the only sequence number used.\<close>

definition ENABLE_RBF_NO_LOCKTIME :: u32 where
  "ENABLE_RBF_NO_LOCKTIME = 0xFFFFFFFD"

definition outpoint_null :: outpoint where
  "outpoint_null = \<lparr>op_txid = replicate 32 0, op_vout = 0xFFFFFFFF\<rparr>"

record ('k, 'x) btc =
  bt_sha256 :: "bytes \<Rightarrow> bytes"
  bt_sha256d :: "bytes \<Rightarrow> bytes"
  bt_compute_txid :: "transaction \<Rightarrow> bytes"
  bt_p2tr_tweaked :: "bytes \<Rightarrow> bytes"
  bt_secret_key :: "bytes \<Rightarrow> 'x option"
  bt_public_key :: "'x \<Rightarrow> 'k"
  bt_serialize :: "'k \<Rightarrow> bytes"
  bt_x_only :: "'k \<Rightarrow> bytes"
  bt_scalar_from_be :: "bytes \<Rightarrow> bytes option"
  bt_add_tweak :: "bytes \<Rightarrow> bytes \<Rightarrow> bytes option"
  bt_amount_sum :: "u64 list \<Rightarrow> failure + u64"
  bt_amount_add :: "u64 \<Rightarrow> u64 \<Rightarrow> failure + u64"
  bt_key_spend_sighash :: "transaction \<Rightarrow> tx_out \<Rightarrow> failure + bytes"
  bt_sign_schnorr :: "bytes \<Rightarrow> 'x \<Rightarrow> bytes"

text \<open>SHA-256 digests and serialized x-only keys are 32 bytes.\<close>

definition sha_laws :: "('k, 'x) btc \<Rightarrow> bool" where
  "sha_laws T \<longleftrightarrow> (\<forall>m. length (bt_sha256 T m) = 32)"

text \<open>The sum of amounts is the sum when it fits in 64 bits.\<close>

definition amount_laws :: "('k, 'x) btc \<Rightarrow> bool" where
  "amount_laws T \<longleftrightarrow>
     (\<forall>xs. sum_list (map unat xs) < 2 ^ 64 \<longrightarrow>
        bt_amount_sum T xs = Inr (word_of_nat (sum_list (map unat xs)))) \<and>
     (\<forall>a b. unat a + unat b < 2 ^ 64 \<longrightarrow> bt_amount_add T a b = Inr (a + b))"

end
