(* ===== verification/Registry_Core.thy ===== *)
theory Registry_Core
  imports Bitcoin Sample_World "HOL-Library.Sublist"
begin

text \<open>
  \<open>src/src/core/registry.rs\<close>: the registry of Phases 0 and 2, and the Taproot commitment to
  the anonymity set with its Merkle tree.
\<close>

record taproot_commitment =
  tc_tx :: transaction
  tc_merkle_root :: bytes
  tc_internal_key :: bytes
  tc_output_key :: bytes

record ('p, 'x) registry =
  rg_crs :: "'p crs"
  rg_merchants :: "merchant list"
  rg_set_size :: nat
  rg_anonymity_set :: "bytes list"
  rg_set_id :: bytes
  rg_keypair :: 'x
  rg_amount :: u64
  rg_outputs :: "outpoint list"

text \<open>\<open>Registry::new\<close>; the 32 random bytes are the argument \<open>sk_bytes\<close>.\<close>

definition registry_new ::
    "('s, 'p) backend \<Rightarrow> ('k, 'x) btc \<Rightarrow> bytes \<Rightarrow> nat \<Rightarrow> u64 \<Rightarrow> failure + ('p, 'x) registry" where
  "registry_new B T sk_bytes set_size amount =
     rbind (ok_or (bt_secret_key T sk_bytes) (Panic ''32 random bytes should be a valid secret key'')) (\<lambda>keypair.
     Inr \<lparr>rg_crs = crs_setup B [] set_size, rg_merchants = [], rg_set_size = set_size,
          rg_anonymity_set = [], rg_set_id = replicate 32 0, rg_keypair = keypair,
          rg_amount = amount, rg_outputs = []\<rparr>)"

definition registry_public_key :: "('k, 'x) btc \<Rightarrow> ('p, 'x) registry \<Rightarrow> 'k" where
  "registry_public_key T r = bt_public_key T (rg_keypair r)"

definition registry_add_merchant :: "('p, 'x) registry \<Rightarrow> merchant \<Rightarrow> ('p, 'x) registry \<times> nat" where
  "registry_add_merchant r m =
     (let id = length (rg_merchants r) + 1
      in (r\<lparr>rg_merchants := rg_merchants r @ [m\<lparr>m_merchant_id := id\<rparr>]\<rparr>, id))"

definition registry_setup :: "('s, 'p) backend \<Rightarrow> ('p, 'x) registry \<Rightarrow> ('p, 'x) registry" where
  "registry_setup B r = r\<lparr>rg_crs := crs_setup B (rg_merchants r) (rg_set_size r)\<rparr>"

definition registry_add_beneficiary ::
    "('p, 'x) registry \<Rightarrow> bytes \<Rightarrow> outpoint \<Rightarrow> ('p, 'x) registry \<times> nat" where
  "registry_add_beneficiary r phi output =
     (let r' = r\<lparr>rg_anonymity_set := rg_anonymity_set r @ [phi], rg_outputs := rg_outputs r @ [output]\<rparr>
      in (r', length (rg_anonymity_set r') - 1))"

definition beneficiary_count :: "('p, 'x) registry \<Rightarrow> nat" where
  "beneficiary_count r = length (rg_anonymity_set r)"

section \<open>The Merkle tree\<close>

text \<open>\<open>usize::next_power_of_two\<close>, the loop that pads, and one level of the tree over
  \<open>chunks(2)\<close>, which panics on a chunk of one element.\<close>

fun next_power_of_two_from :: "nat \<Rightarrow> nat \<Rightarrow> nat \<Rightarrow> nat" where
  "next_power_of_two_from 0 p n = p"
| "next_power_of_two_from (Suc fuel) p n = (if n \<le> p then p else next_power_of_two_from fuel (2 * p) n)"

definition next_power_of_two :: "nat \<Rightarrow> nat" where
  "next_power_of_two n = next_power_of_two_from n 1 n"

definition pad_leaves :: "bytes list \<Rightarrow> bytes list" where
  "pad_leaves leaves = leaves @ replicate (next_power_of_two (length leaves) - length leaves) (last leaves)"

fun next_level :: "(bytes \<Rightarrow> bytes) \<Rightarrow> bytes list \<Rightarrow> failure + bytes list" where
  "next_level h [] = Inr []"
| "next_level h [x] = Inl (Panic ''index out of bounds'')"
| "next_level h (x # y # zs) = rbind (next_level h zs) (\<lambda>ws. Inr (h (x @ y) # ws))"

lemma next_level_length: "next_level h xs = Inr ys \<Longrightarrow> length xs = 2 * length ys"
  by (induction h xs arbitrary: ys rule: next_level.induct) (auto simp: rbind_Inr_iff)

function merkle_levels :: "(bytes \<Rightarrow> bytes) \<Rightarrow> bytes list \<Rightarrow> failure + bytes" where
  "merkle_levels h level =
     (if length level > 1
      then (case next_level h level of Inl e \<Rightarrow> Inl e | Inr level' \<Rightarrow> merkle_levels h level')
      else (case level of [] \<Rightarrow> Inl (Panic ''index out of bounds'') | root # _ \<Rightarrow> Inr root))"
  by pat_completeness auto
termination
  by (relation "measure (\<lambda>(h, level). length level)") (auto, drule next_level_length, linarith)

declare merkle_levels.simps [simp del]

definition merkle_root :: "(bytes \<Rightarrow> bytes) \<Rightarrow> bytes list \<Rightarrow> failure + bytes" where
  "merkle_root h xs = merkle_levels h (pad_leaves (map h xs))"

section \<open>The commitment transaction\<close>

definition create_anonymity_set ::
    "('k, 'x) btc \<Rightarrow> ('p, 'x) registry \<Rightarrow> outpoint \<Rightarrow>
      failure + (('p, 'x) registry \<times> (failure + taproot_commitment))" where
  "create_anonymity_set T r funding_outpoint =
     (if rg_anonymity_set r = [] then Inr (r, Inl (Err ''anonymity set is empty''))
      else
      rbind (merkle_root (bt_sha256 T) (rg_anonymity_set r)) (\<lambda>root.
      let r' = r\<lparr>rg_set_id := root\<rparr>;
          internal_key = bt_x_only T (bt_public_key T (rg_keypair r));
          tweak_hash = bt_sha256 T (internal_key @ root) in
      Inr (r',
        rbind (ok_or (bt_scalar_from_be T tweak_hash) (Err ''tweak scalar overflow'')) (\<lambda>tweak.
        rbind (ok_or (bt_add_tweak T internal_key tweak) (Err ''tweak addition failed'')) (\<lambda>output_key.
        let total_value = rg_amount r * word_of_nat (length (rg_anonymity_set r));
            tx = \<lparr>tx_version = 2, tx_lock_time = 0,
                  tx_input = [\<lparr>ti_previous_output = funding_outpoint, ti_script_sig = [],
                    ti_sequence = ENABLE_RBF_NO_LOCKTIME, ti_witness = []\<rparr>],
                  tx_output = [\<lparr>to_value = total_value, to_script_pubkey = bt_p2tr_tweaked T output_key\<rparr>]\<rparr> in
        Inr \<lparr>tc_tx = tx, tc_merkle_root = root, tc_internal_key = internal_key,
             tc_output_key = output_key\<rparr>)))))"

section \<open>Lemmas on the tree\<close>

lemma next_power_of_two_from_pow:
  "\<exists>k. next_power_of_two_from fuel (2 ^ i) n = 2 ^ k \<and> i \<le> k"
  by (induction fuel arbitrary: i) (use power_Suc le_SucI Suc_leD in \<open>fastforce simp flip: power_Suc\<close>)+

lemma next_power_of_two_from_ge:
  "n \<le> p + fuel \<Longrightarrow> 1 \<le> p \<Longrightarrow> n \<le> next_power_of_two_from fuel p n"
  by (induction fuel arbitrary: p) auto

lemma next_power_of_two_pow: "\<exists>k. next_power_of_two n = 2 ^ k"
  using next_power_of_two_from_pow [of n 0 n] by (auto simp: next_power_of_two_def)

lemma next_power_of_two_ge: "n \<le> next_power_of_two n"
  by (simp add: next_power_of_two_def next_power_of_two_from_ge)

lemma next_power_of_two_from_less:
  "p < 2 * n \<Longrightarrow> next_power_of_two_from fuel p n < 2 * n"
  by (induction fuel arbitrary: p) auto

lemma next_power_of_two_less: "0 < n \<Longrightarrow> next_power_of_two n < 2 * n"
  by (simp add: next_power_of_two_def next_power_of_two_from_less)

lemma length_pad_leaves: "length (pad_leaves xs) = next_power_of_two (length xs)"
  using next_power_of_two_ge [of "length xs"] by (simp add: pad_leaves_def)

lemma next_level_even: "even (length xs) \<Longrightarrow> \<exists>ys. next_level h xs = Inr ys \<and> length xs = 2 * length ys"
proof (induction h xs rule: next_level.induct)
  case (3 h x y zs)
  then obtain ys where "next_level h zs = Inr ys" "length zs = 2 * length ys" by auto
  then show ?case by simp
qed auto

lemma merkle_levels_pow: "length xs = 2 ^ k \<Longrightarrow> \<exists>r. merkle_levels h xs = Inr r"
proof (induction k arbitrary: xs)
  case 0
  then obtain x where "xs = [x]" by (auto simp: length_Suc_conv)
  then show ?case by (subst merkle_levels.simps) simp
next
  case (Suc k)
  then obtain ys where "next_level h xs = Inr ys" "length ys = 2 ^ k" "1 < length xs"
    using next_level_even [of xs h] one_less_power [of "2::nat" "Suc k"] by auto
  then show ?case
    using Suc.IH by (subst merkle_levels.simps) simp
qed

lemma merkle_root_total: "xs \<noteq> [] \<Longrightarrow> \<exists>r. merkle_root h xs = Inr r"
  using next_power_of_two_pow [of "length xs"] merkle_levels_pow
  by (auto simp: merkle_root_def length_pad_leaves)

text \<open>The messages that are hashed on the way to the root, level by level, and the search for a
  collision between those of two sets, position by position.\<close>

fun pairs :: "bytes list \<Rightarrow> bytes list" where
  "pairs (x # y # zs) = (x @ y) # pairs zs"
| "pairs _ = []"

lemma length_pairs: "length (pairs xs) = length xs div 2"
  by (induction xs rule: pairs.induct) auto

lemma next_level_pairs: "even (length xs) \<Longrightarrow> next_level h xs = Inr (map h (pairs xs))"
  by (induction h xs rule: next_level.induct) auto

function tree_messages :: "(bytes \<Rightarrow> bytes) \<Rightarrow> bytes list \<Rightarrow> bytes list" where
  "tree_messages h level =
     (if length level > 1 then pairs level @ tree_messages h (map h (pairs level)) else [])"
  by pat_completeness auto
termination
  by (relation "measure (\<lambda>(h, level). length level)") (auto simp: length_pairs)

declare tree_messages.simps [simp del]

definition find_collision :: "(bytes \<Rightarrow> bytes) \<Rightarrow> bytes list \<Rightarrow> bytes list \<Rightarrow> (bytes \<times> bytes) option" where
  "find_collision h xs ys =
     find (\<lambda>(a, b). a \<noteq> b \<and> h a = h b)
       (zip (xs @ tree_messages h (pad_leaves (map h xs))) (ys @ tree_messages h (pad_leaves (map h ys))))"

definition no_collision :: "(bytes \<Rightarrow> bytes) \<Rightarrow> bytes list \<Rightarrow> bytes list \<Rightarrow> bool" where
  "no_collision h xs ys \<longleftrightarrow> (\<forall>(a, b)\<in>set (zip xs ys). h a = h b \<longrightarrow> a = b)"

lemma no_collision_append:
  "length xs = length ys \<Longrightarrow> no_collision h (xs @ us) (ys @ vs) \<longleftrightarrow> no_collision h xs ys \<and> no_collision h us vs"
  by (auto simp: no_collision_def)

lemma no_collision_map:
  "length xs = length ys \<Longrightarrow> no_collision h xs ys \<Longrightarrow> map h xs = map h ys \<Longrightarrow> xs = ys"
  by (induction xs ys rule: list_induct2) (auto simp: no_collision_def)

lemma pairs_inject:
  "even (length xs) \<Longrightarrow> length xs = length ys \<Longrightarrow> \<forall>x\<in>set xs \<union> set ys. length x = n \<Longrightarrow> pairs xs = pairs ys \<Longrightarrow> xs = ys"
proof (induction xs arbitrary: ys rule: pairs.induct)
  case (1 x y zs)
  then obtain x' y' zs' where ys: "ys = x' # y' # zs'"
    by (auto simp: Suc_length_conv length_Suc_conv)
  with 1 show ?case by auto
qed auto

lemma merkle_levels_binding:
  assumes h: "\<And>m. length (h m) = n"
  shows "length xs = 2 ^ k \<Longrightarrow> length ys = 2 ^ k \<Longrightarrow> \<forall>x\<in>set xs \<union> set ys. length x = n \<Longrightarrow>
    merkle_levels h xs = merkle_levels h ys \<Longrightarrow> no_collision h (tree_messages h xs) (tree_messages h ys) \<Longrightarrow>
    xs = ys"
proof (induction k arbitrary: xs ys)
  case 0
  then obtain x y where "xs = [x]" "ys = [y]" by (auto simp: length_Suc_conv)
  then show ?case
    using "0.prems"(4) by (simp add: merkle_levels.simps [of h "[x]"] merkle_levels.simps [of h "[y]"])
next
  case (Suc k)
  have big: "1 < length xs" "1 < length ys"
    using Suc.prems(1,2) one_less_power [of "2::nat" "Suc k"] by auto
  have up: "next_level h xs = Inr (map h (pairs xs))" "next_level h ys = Inr (map h (pairs ys))"
    using Suc.prems(1,2) by (simp_all add: next_level_pairs)
  have len: "length (map h (pairs xs)) = 2 ^ k" "length (map h (pairs ys)) = 2 ^ k"
    using Suc.prems(1,2) by (simp_all add: length_pairs)
  have safe: "no_collision h (pairs xs) (pairs ys)"
    "no_collision h (tree_messages h (map h (pairs xs))) (tree_messages h (map h (pairs ys)))"
    using Suc.prems(5) big len
    by (simp_all add: tree_messages.simps [of h xs] tree_messages.simps [of h ys] no_collision_append)
  have "merkle_levels h (map h (pairs xs)) = merkle_levels h (map h (pairs ys))"
    using Suc.prems(4) big up
    by (simp add: merkle_levels.simps [of h xs] merkle_levels.simps [of h ys])
  then have "map h (pairs xs) = map h (pairs ys)"
    using Suc.IH [OF len] safe(2) h by auto
  moreover have "length (pairs xs) = length (pairs ys)"
    using len by simp
  ultimately have "pairs xs = pairs ys"
    using no_collision_map [OF _ safe(1)] by blast
  then show ?case
    using pairs_inject [of xs ys n] Suc.prems(1,2,3) by simp
qed

lemma next_power_of_two_unique:
  assumes "n \<le> 2 ^ k" "2 ^ k < 2 * n"
  shows "next_power_of_two n = 2 ^ k"
proof -
  obtain j where j: "next_power_of_two n = 2 ^ j"
    using next_power_of_two_pow by blast
  have "0 < n" using assms by (cases n) auto
  then have "2 ^ k < (2 ^ Suc j :: nat)" "2 ^ j < (2 ^ Suc k :: nat)"
    using next_power_of_two_ge [of n] next_power_of_two_less [of n] assms j by auto
  then have "k = j"
    by (simp only: power_strict_increasing_iff less_Suc_eq_le)
  with j show ?thesis by simp
qed

lemma next_power_of_two_Suc:
  assumes "n < next_power_of_two n"
  shows "next_power_of_two (Suc n) = next_power_of_two n"
proof -
  obtain k where k: "next_power_of_two n = 2 ^ k"
    using next_power_of_two_pow by blast
  show ?thesis
  proof (cases "n = 0")
    case True
    then show ?thesis by (simp add: next_power_of_two_def)
  next
    case False
    then show ?thesis
      using next_power_of_two_unique [of "Suc n" k] next_power_of_two_less [of n] assms k by simp
  qed
qed

lemma pad_leaves_again:
  "xs \<noteq> [] \<Longrightarrow> length xs < next_power_of_two (length xs) \<Longrightarrow> pad_leaves (xs @ [last xs]) = pad_leaves xs"
  by (simp add: pad_leaves_def next_power_of_two_Suc replicate_append_same flip: replicate_Suc)

section \<open>The lifecycle\<close>

datatype registry_op = AddMerchant merchant | Setup | AddBeneficiary bytes outpoint

definition registry_step ::
    "('s, 'p) backend \<Rightarrow> ('p, 'x) registry \<Rightarrow> registry_op \<Rightarrow> ('p, 'x) registry" where
  "registry_step B r e =
     (case e of
        AddMerchant m \<Rightarrow> fst (registry_add_merchant r m)
      | Setup \<Rightarrow> registry_setup B r
      | AddBeneficiary phi out \<Rightarrow> fst (registry_add_beneficiary r phi out))"

definition registry_ok :: "('s, 'p) backend \<Rightarrow> ('p, 'x) registry \<Rightarrow> bool" where
  "registry_ok B r \<longleftrightarrow>
     (\<forall>i<length (rg_merchants r). m_merchant_id (rg_merchants r ! i) = i + 1) \<and>
     length (rg_outputs r) = length (rg_anonymity_set r) \<and>
     (\<exists>ms. prefix ms (rg_merchants r) \<and> rg_crs r = crs_setup B ms (rg_set_size r))"

interpretation registry_runs: growing_system "registry_step B" "registry_ok B"
    "\<lambda>r r'. prefix (rg_merchants r) (rg_merchants r') \<and> prefix (rg_anonymity_set r) (rg_anonymity_set r')
       \<and> rg_keypair r' = rg_keypair r \<and> rg_amount r' = rg_amount r \<and> rg_set_size r' = rg_set_size r"
  for B :: "('s, 'p) backend"
proof
  fix r :: "('p, 'x) registry" and e
  show "registry_ok B (registry_step B r e)" if "registry_ok B r"
    using that
    by (cases e) (auto simp: registry_ok_def registry_step_def registry_add_merchant_def Let_def
        registry_add_beneficiary_def registry_setup_def nth_append intro: prefix_order.trans)
  show "prefix (rg_merchants r) (rg_merchants (registry_step B r e)) \<and>
      prefix (rg_anonymity_set r) (rg_anonymity_set (registry_step B r e)) \<and>
      rg_keypair (registry_step B r e) = rg_keypair r \<and> rg_amount (registry_step B r e) = rg_amount r \<and>
      rg_set_size (registry_step B r e) = rg_set_size r"
    by (cases e) (auto simp: registry_step_def registry_add_merchant_def Let_def
        registry_add_beneficiary_def registry_setup_def)
qed (auto intro: prefix_order.trans)

lemma registry_new_ok: "registry_new B T sk n a = Inr r \<Longrightarrow> registry_ok B r"
  by (auto simp: registry_new_def rbind_Inr_iff registry_ok_def)

section \<open>Properties\<close>

text \<open>C29. The commitment to an anonymity set is binding among sets of one size. For two sets of the
  same number of commitments with one Merkle root, the search compares the messages that the two
  computations of the root hash, position by position: it outputs two different messages with one
  SHA-256 digest, or the sets are equal.\<close>

theorem merkle_root_binding:
  assumes "sha_laws T" "length xs = length ys"
    and "merkle_root (bt_sha256 T) xs = Inr root" "merkle_root (bt_sha256 T) ys = Inr root"
  shows "case find_collision (bt_sha256 T) xs ys of
      Some (a, b) \<Rightarrow> a \<noteq> b \<and> bt_sha256 T a = bt_sha256 T b
    | None \<Rightarrow> xs = ys"
proof (cases "find_collision (bt_sha256 T) xs ys")
  case (Some ab)
  then show ?thesis
    by (auto simp: find_collision_def dest!: find_SomeD split: prod.splits)
next
  case None
  let ?h = "bt_sha256 T"
  define us where "us = pad_leaves (map ?h xs)"
  define vs where "vs = pad_leaves (map ?h ys)"
  have "no_collision ?h (xs @ tree_messages ?h us) (ys @ tree_messages ?h vs)"
    using find_NoneD [OF None [unfolded find_collision_def]]
    by (auto simp: no_collision_def us_def vs_def)
  then have safe: "no_collision ?h xs ys" "no_collision ?h (tree_messages ?h us) (tree_messages ?h vs)"
    using assms(2) by (simp_all add: no_collision_append)
  have "map ?h xs = map ?h ys"
  proof (cases "xs = []")
    case False
    obtain k where "next_power_of_two (length xs) = 2 ^ k"
      using next_power_of_two_pow by blast
    then have len: "length us = 2 ^ k" "length vs = 2 ^ k"
      using assms(2) by (simp_all add: us_def vs_def length_pad_leaves)
    have "ys \<noteq> []" using False assms(2) by auto
    with False have "\<forall>x\<in>set us \<union> set vs. length x = 32"
      using assms(1) last_in_set [of "map ?h xs"] last_in_set [of "map ?h ys"]
      by (auto simp: us_def vs_def pad_leaves_def sha_laws_def)
    then have "us = vs"
      using merkle_levels_binding [of ?h 32, OF _ len] safe(2) assms
      by (simp add: sha_laws_def merkle_root_def us_def vs_def)
    then have "take (length xs) us = take (length xs) vs" by simp
    then show ?thesis
      using assms(2) by (simp add: us_def vs_def pad_leaves_def)
  qed (use assms(2) in simp)
  from no_collision_map [OF assms(2) safe(1) this] None show ?thesis
    by simp
qed

text \<open>The padding is visible in the root: repeating the last commitment of a set whose size
  is not a power of two gives a larger set with the same Merkle root, so that the root, which
  the documentation takes for the identifier of the set, does not determine the set.\<close>

theorem merkle_padding_collision:
  assumes "xs \<noteq> []" and "length xs < next_power_of_two (length xs)"
  shows "merkle_root h (xs @ [last xs]) = merkle_root h xs"
proof -
  have "pad_leaves (map h xs @ [h (last xs)]) = pad_leaves (map h xs)"
    using pad_leaves_again [of "map h xs"] assms by (simp add: last_map)
  then show ?thesis by (simp add: merkle_root_def)
qed

theorem merkle_padding_collision_witness:
  "merkle_root digest32 ([[1], [2], [3]] @ [last [[1], [2], [3]]]) = merkle_root digest32 [[1], [2], [3]]"
  by (rule merkle_padding_collision) (simp_all add: next_power_of_two_def numeral_eq_Suc)

definition sample_btc :: "(bytes, bytes) btc" where
  "sample_btc = \<lparr>
     bt_sha256 = digest32, bt_sha256d = (\<lambda>b. digest32 (digest32 b)),
     bt_compute_txid = (\<lambda>t. digest32 (concat (map to_script_pubkey (tx_output t)))),
     bt_p2tr_tweaked = (\<lambda>k. [0x51, 0x20] @ k),
     bt_secret_key = try_into_array 32, bt_public_key = (\<lambda>x. 2 # x), bt_serialize = (\<lambda>k. k),
     bt_x_only = tl, bt_scalar_from_be = Some, bt_add_tweak = (\<lambda>k t. Some (map2 (+) k t)),
     bt_amount_sum = (\<lambda>xs. if sum_list (map unat xs) < 2 ^ 64
        then Inr (word_of_nat (sum_list (map unat xs))) else Inl (Panic ''overflow'')),
     bt_amount_add = (\<lambda>a b. if unat a + unat b < 2 ^ 64 then Inr (a + b) else Inl (Panic ''overflow'')),
     bt_key_spend_sighash = (\<lambda>t out. Inr (digest32 (to_script_pubkey out))),
     bt_sign_schnorr = (\<lambda>m x. m @ x) \<rparr>"

lemma sample_btc_laws: "sha_laws sample_btc" "amount_laws sample_btc"
  by (simp_all add: sha_laws_def amount_laws_def sample_btc_def digest32_def)

lemma merkle_root_singleton: "merkle_root h [x] = Inr (h x)"
  by (simp add: merkle_root_def pad_leaves_def next_power_of_two_def merkle_levels.simps)

theorem merkle_root_binding_witness:
  "case find_collision (bt_sha256 sample_btc) [[0, 1], [5]] [[1, 254], [5]] of
      Some (a, b) \<Rightarrow> a \<noteq> b \<and> bt_sha256 sample_btc a = bt_sha256 sample_btc b
    | None \<Rightarrow> [[0, 1], [5]] = ([[1, 254], [5]] :: bytes list)"
proof -
  have "digest32 [0, 1] = digest32 [1, 254]"
    by (simp add: digest32_def)
  then have roots: "merkle_root (bt_sha256 sample_btc) [[0, 1], [5]] = merkle_root (bt_sha256 sample_btc) [[1, 254], [5]]"
    by (simp add: merkle_root_def sample_btc_def)
  obtain root where "merkle_root (bt_sha256 sample_btc) [[0, 1], [5]] = Inr root"
    using merkle_root_total [of "[[0, 1], [5]]"] by auto
  with roots show ?thesis
    by (intro merkle_root_binding [OF sample_btc_laws(1), where root = root]) simp_all
qed

text \<open>The commitment transaction. An empty set gives the error and leaves the registry as it
  is. For a non-empty set the Merkle computation never panics; the registry's set id becomes
  the root, whatever happens next; and a returned commitment spends exactly the given outpoint
  into one output that pays \<open>amount \<times> members\<close> (modulo \<open>2\<^sup>6\<^sup>4\<close>) to the internal key
  tweaked by the hash of the internal key and the root.\<close>

theorem create_anonymity_set_outcome:
  "if rg_anonymity_set r = []
   then create_anonymity_set T r fund = Inr (r, Inl (Err ''anonymity set is empty''))
   else \<exists>root out. merkle_root (bt_sha256 T) (rg_anonymity_set r) = Inr root \<and>
     create_anonymity_set T r fund = Inr (r\<lparr>rg_set_id := root\<rparr>, out) \<and>
     (case out of
        Inl e \<Rightarrow> e = Err ''tweak scalar overflow'' \<or> e = Err ''tweak addition failed''
      | Inr c \<Rightarrow> \<exists>tweak output.
          tc_merkle_root c = root \<and> tc_internal_key c = bt_x_only T (registry_public_key T r) \<and>
          bt_scalar_from_be T (bt_sha256 T (tc_internal_key c @ root)) = Some tweak \<and>
          bt_add_tweak T (tc_internal_key c) tweak = Some (tc_output_key c) \<and>
          map ti_previous_output (tx_input (tc_tx c)) = [fund] \<and>
          tx_output (tc_tx c) = [output] \<and>
          unat (to_value output) = unat (rg_amount r) * length (rg_anonymity_set r) mod 2 ^ 64 \<and>
          to_script_pubkey output = bt_p2tr_tweaked T (tc_output_key c))"
proof (cases "rg_anonymity_set r = []")
  case True
  then show ?thesis by (simp add: create_anonymity_set_def)
next
  case False
  then obtain root where root: "merkle_root (bt_sha256 T) (rg_anonymity_set r) = Inr root"
    using merkle_root_total by blast
  have sats: "unat (rg_amount r * word_of_nat (length (rg_anonymity_set r)) :: u64) =
      unat (rg_amount r) * length (rg_anonymity_set r) mod 2 ^ 64"
    by (simp add: unat_word_ariths unat_of_nat mod_mult_right_eq)
  define key where "key = bt_x_only T (registry_public_key T r)"
  show ?thesis
    using False root sats
    by (cases "bt_scalar_from_be T (bt_sha256 T (key @ root))";
        cases "bt_add_tweak T key (the (bt_scalar_from_be T (bt_sha256 T (key @ root))))")
      (auto simp: create_anonymity_set_def Let_def key_def registry_public_key_def)
qed

text \<open>The lifecycle of a registry. Along every sequence of \<open>add_merchant\<close>, \<open>setup\<close> and
  \<open>add_beneficiary\<close> calls, the merchants have the ids 1, 2, \<dots> in the order they were added,
  every commitment has its outpoint, the CRS is the one \<open>Crs::setup\<close> derives from a prefix of
  the merchants, and no merchant or commitment is ever removed or reordered.\<close>

theorem registry_lifecycle:
  fixes r :: "('p, 'x) registry"
  assumes "registry_new B T sk n a = Inr r"
  shows "registry_ok B (foldl (registry_step B) r es) \<and>
    prefix (rg_anonymity_set (foldl (registry_step B) r es))
      (rg_anonymity_set (foldl (registry_step B) (foldl (registry_step B) r es) es')) \<and>
    prefix (rg_merchants (foldl (registry_step B) r es))
      (rg_merchants (foldl (registry_step B) (foldl (registry_step B) r es) es'))"
proof -
  have "registry_ok B (foldl (registry_step B) r es)"
    by (rule registry_runs.run_inv [OF registry_new_ok [OF assms]])
  then show ?thesis
    using registry_runs.run_le by blast
qed

theorem registry_lifecycle_witness:
  "\<exists>r :: (gf5, bytes) registry. registry_new sample sample_btc (replicate 32 1) 4 1000 = Inr r \<and>
     registry_ok sample (foldl (registry_step sample) r [AddMerchant (sample_merchant ''a'' 0), Setup]) \<and>
     prefix (rg_anonymity_set (foldl (registry_step sample) r [AddMerchant (sample_merchant ''a'' 0), Setup]))
       (rg_anonymity_set (foldl (registry_step sample)
          (foldl (registry_step sample) r [AddMerchant (sample_merchant ''a'' 0), Setup])
          [AddBeneficiary sample_phi outpoint_null]))"
proof -
  obtain r :: "(gf5, bytes) registry" where "registry_new sample sample_btc (replicate 32 1) 4 1000 = Inr r"
    by (simp add: registry_new_def sample_btc_def try_into_array_def)
  then show ?thesis
    using registry_lifecycle by blast
qed

end
