(* ===== verification/Tx.thy ===== *)
theory Tx
  imports Registry_Core "HOL-Library.List_Lexorder" "HOL-Library.Multiset"
begin

text \<open>
  \<open>src/src/core/tx.rs\<close>: the flat transaction structure (root and fan-out transaction) and the
  placeholder key aggregation. Amounts are satoshis of 64 bits; their checked sum and addition
  belong to the bitcoin crate.
\<close>

record 'k identity_txo =
  it_pubkey :: 'k
  it_amount :: u64

record 'k identity_tree =
  tree_root_tx :: transaction
  tree_fanout_tx :: transaction
  tree_users :: "'k identity_txo list"

definition tree_root :: "'k identity_tree \<Rightarrow> transaction" where
  "tree_root t = tree_root_tx t"

definition tree_fanout :: "'k identity_tree \<Rightarrow> transaction" where
  "tree_fanout t = tree_fanout_tx t"

definition tree_value :: "('k, 'x) btc \<Rightarrow> 'k identity_tree \<Rightarrow> failure + u64" where
  "tree_value T t = bt_amount_sum T (map it_amount (tree_users t))"

definition user_count :: "'k identity_tree \<Rightarrow> nat" where
  "user_count t = length (tree_users t)"

definition tx_count :: "'k identity_tree \<Rightarrow> nat" where
  "tx_count t = 2"

definition tree_branch :: "'k identity_tree \<Rightarrow> nat \<Rightarrow> transaction list option" where
  "tree_branch t user_index =
     (if user_index < length (tree_users t) then Some [tree_root_tx t, tree_fanout_tx t] else None)"

definition p2tr_script :: "('k, 'x) btc \<Rightarrow> bytes \<Rightarrow> bytes" where
  "p2tr_script T key = bt_p2tr_tweaked T key"

definition create_root_tx :: "('k, 'x) btc \<Rightarrow> outpoint \<Rightarrow> bytes \<Rightarrow> u64 \<Rightarrow> transaction" where
  "create_root_tx T funding_outpoint aggregate_key total_amount =
     \<lparr>tx_version = 2, tx_lock_time = 0,
      tx_input = [\<lparr>ti_previous_output = funding_outpoint, ti_script_sig = [],
        ti_sequence = ENABLE_RBF_NO_LOCKTIME, ti_witness = []\<rparr>],
      tx_output = [\<lparr>to_value = total_amount, to_script_pubkey = p2tr_script T aggregate_key\<rparr>]\<rparr>"

definition create_fanout_tx :: "('k, 'x) btc \<Rightarrow> outpoint \<Rightarrow> 'k identity_txo list \<Rightarrow> transaction" where
  "create_fanout_tx T root_outpoint users =
     (let outputs = map (\<lambda>u. let xonly = bt_x_only T (it_pubkey u) in
            \<lparr>to_value = it_amount u, to_script_pubkey = p2tr_script T xonly\<rparr>) users in
      \<lparr>tx_version = 2, tx_lock_time = 0,
       tx_input = [\<lparr>ti_previous_output = root_outpoint, ti_script_sig = [],
         ti_sequence = ENABLE_RBF_NO_LOCKTIME, ti_witness = []\<rparr>],
       tx_output = outputs\<rparr>)"

definition tx_outpoint :: "('k, 'x) btc \<Rightarrow> transaction \<Rightarrow> u32 \<Rightarrow> outpoint" where
  "tx_outpoint T tx vout = \<lparr>op_txid = bt_compute_txid T tx, op_vout = vout\<rparr>"

text \<open>The hash of the keys in the order of \<open>sort_by_key(|k| k.serialize())\<close>, a stable sort.\<close>

definition sorted_keys_hash :: "('k, 'x) btc \<Rightarrow> 'k list \<Rightarrow> bytes" where
  "sorted_keys_hash T keys =
     (let sorted = sort_key (bt_serialize T) keys
      in bt_sha256 T (concat (map (bt_serialize T) sorted)))"

definition aggregate_secret_key :: "('k, 'x) btc \<Rightarrow> 'k list \<Rightarrow> failure + 'x" where
  "aggregate_secret_key T keys =
     ok_or (bt_secret_key T (sorted_keys_hash T keys)) (Panic ''SHA256 output is a valid secret key'')"

definition aggregate_keys :: "('k, 'x) btc \<Rightarrow> 'k list \<Rightarrow> failure + bytes" where
  "aggregate_keys T keys =
     rbind (ok_or (bt_secret_key T (sorted_keys_hash T keys)) (Panic ''SHA256 output is a valid secret key''))
       (\<lambda>sk. Inr (bt_x_only T (bt_public_key T sk)))"

definition build_tree_with_fee ::
    "('k, 'x) btc \<Rightarrow> 'k identity_txo list \<Rightarrow> outpoint \<Rightarrow> u64 \<Rightarrow> failure + 'k identity_tree" where
  "build_tree_with_fee T users funding_outpoint fee =
     (if length users < 2 then Inl (Err ''need at least 2 users'')
      else
        (let all_keys = map it_pubkey users in
         rbind (aggregate_keys T all_keys) (\<lambda>agg_key.
         rbind (bt_amount_sum T (map it_amount users)) (\<lambda>user_total.
         rbind (bt_amount_add T user_total fee) (\<lambda>root_output_value.
         let root_tx = create_root_tx T funding_outpoint agg_key root_output_value;
             root_outpoint = \<lparr>op_txid = bt_compute_txid T root_tx, op_vout = 0\<rparr>;
             fanout_tx = create_fanout_tx T root_outpoint users in
         Inr \<lparr>tree_root_tx = root_tx, tree_fanout_tx = fanout_tx, tree_users = users\<rparr>)))))"

definition build_identity_tree ::
    "('k, 'x) btc \<Rightarrow> 'k identity_txo list \<Rightarrow> outpoint \<Rightarrow> failure + 'k identity_tree" where
  "build_identity_tree T users funding_outpoint = build_tree_with_fee T users funding_outpoint 0"

text \<open>\<open>sign_tx\<close> replaces the witness of input 0; indexing an empty input list panics.\<close>

definition sign_tx :: "('k, 'x) btc \<Rightarrow> transaction \<Rightarrow> 'x \<Rightarrow> tx_out \<Rightarrow> failure + transaction" where
  "sign_tx T tx secret_key prev_output =
     rbind (case bt_key_spend_sighash T tx prev_output of
              Inl _ \<Rightarrow> Inl (Panic ''sighash computation failed'') | Inr d \<Rightarrow> Inr d) (\<lambda>sighash.
     let sig = bt_sign_schnorr T sighash secret_key in
     case tx_input tx of
       [] \<Rightarrow> Inl (Panic ''index out of bounds'')
     | i # rest \<Rightarrow> Inr (tx\<lparr>tx_input := i\<lparr>ti_witness := [sig]\<rparr> # rest\<rparr>))"

section \<open>Lemmas\<close>

text \<open>With an injective key encoding, sorting by it depends on the keys as a multiset only.\<close>

lemma sort_key_mset:
  assumes "mset xs = mset ys" and "inj_on f (set xs)"
  shows "sort_key f xs = sort_key f ys"
proof (rule properties_for_sort_key)
  show "mset (sort_key f ys) = mset xs" using assms(1) by simp
  show "sorted (map f (sort_key f ys))" by simp
  have same: "set (sort_key f ys) = set xs"
    using assms(1) by (metis set_mset_mset set_sort)
  fix k
  assume "k \<in> set (sort_key f ys)"
  then have "k \<in> set xs"
    by (simp only: same)
  have eq: "mset (filter (\<lambda>x. f k = f x) xs) = mset (filter (\<lambda>x. f k = f x) (sort_key f ys))"
    using assms(1) by (simp add: mset_filter)
  have "x = k" if "x \<in> set xs" "f k = f x" for x
    using inj_onD [OF assms(2)] that \<open>k \<in> set xs\<close> by metis
  then have "filter (\<lambda>x. f k = f x) xs = replicate (length (filter (\<lambda>x. f k = f x) xs)) k"
    "filter (\<lambda>x. f k = f x) (sort_key f ys) = replicate (length (filter (\<lambda>x. f k = f x) (sort_key f ys))) k"
    using same by (auto intro!: replicate_eqI)
  then show "filter (\<lambda>x. f k = f x) (sort_key f ys) = filter (\<lambda>x. f k = f x) xs"
    using mset_eq_length [OF eq] by metis
qed

lemma fanout_values: "map to_value (tx_output (create_fanout_tx T op users)) = map it_amount users"
  by (simp add: create_fanout_tx_def Let_def comp_def)

section \<open>Properties\<close>

text \<open>C34. The two transactions fit together and conserve value: when the amounts fit in 64
  bits, a built tree funds one output from the given outpoint, the fan-out spends exactly
  output 0 of the root transaction, pays each user its own amount to its own key in order, and
  the root output is worth the sum of the fan-out outputs plus the fee.\<close>

theorem identity_tree_conserves_value:
  assumes "amount_laws T"
    and built: "build_tree_with_fee T users fund fee = Inr t"
    and fits: "sum_list (map (unat \<circ> it_amount) users) + unat fee < 2 ^ 64"
  shows "map ti_previous_output (tx_input (tree_root_tx t)) = [fund] \<and>
    map ti_previous_output (tx_input (tree_fanout_tx t)) = [tx_outpoint T (tree_root_tx t) 0] \<and>
    map to_value (tx_output (tree_fanout_tx t)) = map it_amount users \<and>
    map to_script_pubkey (tx_output (tree_fanout_tx t)) =
      map (\<lambda>u. p2tr_script T (bt_x_only T (it_pubkey u))) users \<and>
    length (tx_output (tree_root_tx t)) = 1 \<and>
    sum_list (map (unat \<circ> to_value) (tx_output (tree_root_tx t))) =
      sum_list (map (unat \<circ> to_value) (tx_output (tree_fanout_tx t))) + unat fee"
proof -
  let ?sum = "sum_list (map (unat \<circ> it_amount) users)"
  have sum: "bt_amount_sum T (map it_amount users) = Inr (word_of_nat ?sum)"
    using assms(1) fits by (simp add: amount_laws_def comp_def)
  have small: "unat (word_of_nat ?sum :: u64) = ?sum"
    using fits by (simp add: unat_of_nat)
  then have add: "bt_amount_add T (word_of_nat ?sum) fee = Inr (word_of_nat ?sum + fee)"
    using assms(1) fits by (simp add: amount_laws_def)
  have total: "unat (word_of_nat ?sum + fee) = ?sum + unat fee"
    using small fits by (simp add: unat_word_ariths)
  obtain agg where t: "t = \<lparr>tree_root_tx = create_root_tx T fund agg (word_of_nat ?sum + fee),
      tree_fanout_tx = create_fanout_tx T
        \<lparr>op_txid = bt_compute_txid T (create_root_tx T fund agg (word_of_nat ?sum + fee)), op_vout = 0\<rparr> users,
      tree_users = users\<rparr>"
    using built by (auto simp: build_tree_with_fee_def rbind_Inr_iff Let_def sum add split: if_splits)
  show ?thesis
    using total by (simp add: t create_root_tx_def create_fanout_tx_def tx_outpoint_def Let_def comp_def)
qed

definition sample_users :: "bytes identity_txo list" where
  "sample_users = [\<lparr>it_pubkey = 2 # replicate 32 1, it_amount = 700\<rparr>,
     \<lparr>it_pubkey = 2 # replicate 32 2, it_amount = 300\<rparr>]"

theorem identity_tree_conserves_value_witness:
  "\<exists>t. build_tree_with_fee sample_btc sample_users outpoint_null 50 = Inr t \<and>
     sum_list (map (unat \<circ> to_value) (tx_output (tree_root_tx t))) =
       sum_list (map (unat \<circ> to_value) (tx_output (tree_fanout_tx t))) + unat (50 :: u64)"
proof -
  obtain t where t: "build_tree_with_fee sample_btc sample_users outpoint_null 50 = Inr t"
    by (simp add: build_tree_with_fee_def sample_users_def aggregate_keys_def sample_btc_def
        try_into_array_def sorted_keys_hash_def digest32_def Let_def)
  have "sum_list (map (unat \<circ> it_amount) sample_users) + unat (50 :: u64) < 2 ^ 64"
    by (simp add: sample_users_def)
  then show ?thesis
    using t identity_tree_conserves_value [OF sample_btc_laws(2) t] by blast
qed

text \<open>The aggregate key does not depend on the order of the users, and the aggregate secret
  key is the secret key of the aggregate key, so that whoever knows the public keys can spend
  the root output, as the comment on the placeholder says.\<close>

theorem aggregate_keys_order_and_spend:
  assumes "inj_on (bt_serialize T) (set keys)" and "mset keys' = mset keys"
  shows "aggregate_keys T keys' = aggregate_keys T keys \<and>
    aggregate_keys T keys =
      rbind (aggregate_secret_key T keys) (\<lambda>sk. Inr (bt_x_only T (bt_public_key T sk)))"
  using sort_key_mset [of keys keys' "bt_serialize T"] assms
  by (simp add: aggregate_keys_def aggregate_secret_key_def sorted_keys_hash_def)

theorem aggregate_keys_order_and_spend_witness:
  "aggregate_keys sample_btc [[2, 5], [2, 4]] = aggregate_keys sample_btc [[2, 4], [2, 5]] \<and>
   aggregate_keys sample_btc [[2, 4], [2, 5]] =
     rbind (aggregate_secret_key sample_btc [[2, 4], [2, 5]])
       (\<lambda>sk. Inr (bt_x_only sample_btc (bt_public_key sample_btc sk)))"
  by (rule aggregate_keys_order_and_spend) (simp_all add: sample_btc_def)

end
