(* ===== verification/Registry_Wallet.thy ===== *)
theory Registry_Wallet
  imports Bitcoin
begin

text \<open>
  \<open>src/src/registry/wallet.rs\<close>: payment verification over the node's JSON answer, and funding
  of the commitment transaction. The node, serde_json's numbers and the BDK wallet are the
  fields of \<open>client\<close>; the type \<open>'f\<close> is the number type, \<open>'o\<close> the opaque values of the
  wallet library (mnemonic, wallet, partially signed transaction). The two calls of
  \<open>fund_and_broadcast\<close> that are functions of the file, \<open>create_bdk_wallet\<close> and \<open>sync_bdk_wallet\<close>, are
  modelled in theory Wallet_Commands; theory Registry_Funding gives the client that they make up. The
  log line that cuts the registry's own address at 20 bytes is left out: a Taproot address is longer.
\<close>

section \<open>JSON values\<close>

datatype 'f json =
    JNull
  | JBool bool
  | JNum 'f
  | JStr str
  | JArr "'f json list"
  | JObj "(str \<times> 'f json) list"

text \<open>\<open>value["key"]\<close>, which is \<open>Null\<close> for a missing key or another kind of value.\<close>

definition json_index :: "'f json \<Rightarrow> string \<Rightarrow> 'f json" where
  "json_index v key =
     (case v of JObj kvs \<Rightarrow> (case map_of kvs (ascii key) of Some x \<Rightarrow> x | None \<Rightarrow> JNull) | _ \<Rightarrow> JNull)"

definition as_array :: "'f json \<Rightarrow> 'f json list option" where
  "as_array v = (case v of JArr xs \<Rightarrow> Some xs | _ \<Rightarrow> None)"

definition as_str :: "'f json \<Rightarrow> str option" where
  "as_str v = (case v of JStr s \<Rightarrow> Some s | _ \<Rightarrow> None)"

definition as_f64 :: "'f json \<Rightarrow> 'f option" where
  "as_f64 v = (case v of JNum f \<Rightarrow> Some f | _ \<Rightarrow> None)"

section \<open>The wallet\<close>

record ('f, 'o) client =
  cl_getrawtransaction :: "bytes \<Rightarrow> string + 'f json"
  cl_from_btc :: "'f \<Rightarrow> string + u64"
  cl_parse_mnemonic :: "str \<Rightarrow> string + 'o"
  cl_create_wallet :: "'o \<Rightarrow> string + 'o"
  cl_sync :: "'o \<Rightarrow> string + 'o"
  cl_build_tx :: "'o \<Rightarrow> bytes \<Rightarrow> u64 \<Rightarrow> string + 'o"
  cl_sign :: "'o \<Rightarrow> 'o \<Rightarrow> string + bool \<times> 'o"
  cl_extract_tx :: "'o \<Rightarrow> string + transaction"
  cl_send :: "transaction \<Rightarrow> string + unit"

record ('f, 'o) wallet =
  wl_client :: "('f, 'o) client option"
  wl_mnemonic :: str
  wl_address :: str
  wl_xonly :: bytes

datatype wallet_error =
    FetchFailed bytes string
  | NoVoutArray
  | VoutNotFound u32
  | NoAddress
  | AddressMismatch str str
  | InvalidBtcValue string
  | NoValue
  | AmountTooLow u64 u64
  | MnemonicError string
  | WalletError string
  | BuildFailed string
  | SignFailed string
  | SigningIncomplete
  | ExtractFailed string
  | BroadcastFailed string

definition btc_value_to_sats :: "('f, 'o) client \<Rightarrow> 'f json \<Rightarrow> wallet_error + u64" where
  "btc_value_to_sats c v =
     (case as_f64 v of
        Some n \<Rightarrow> rbind (map_err InvalidBtcValue (cl_from_btc c n)) (\<lambda>amt. Inr amt)
      | None \<Rightarrow> Inl NoValue)"

definition verify_payment :: "('f, 'o) wallet \<Rightarrow> outpoint \<Rightarrow> u64 \<Rightarrow> wallet_error + unit" where
  "verify_payment w op required_sats =
     (case wl_client w of
        None \<Rightarrow> Inr ()
      | Some rpc \<Rightarrow>
         (let expected_address = wl_address w in
          rbind (map_err (FetchFailed (op_txid op)) (cl_getrawtransaction rpc (op_txid op))) (\<lambda>raw_tx.
          rbind (ok_or (as_array (json_index raw_tx ''vout'')) NoVoutArray) (\<lambda>vout_array.
          rbind (if unat (op_vout op) < length vout_array then Inr (vout_array ! unat (op_vout op))
                 else Inl (VoutNotFound (op_vout op))) (\<lambda>output.
          rbind (ok_or (as_str (json_index (json_index output ''scriptPubKey'') ''address'')) NoAddress)
            (\<lambda>script_address.
          if script_address \<noteq> expected_address
          then Inl (AddressMismatch expected_address script_address)
          else
          rbind (btc_value_to_sats rpc (json_index output ''value'')) (\<lambda>value_sats.
          if value_sats < required_sats then Inl (AmountTooLow required_sats value_sats)
          else Inr ())))))))"

definition wallet_get_address :: "('f, 'o) wallet \<Rightarrow> str \<times> bytes" where
  "wallet_get_address w = (wl_address w, wl_xonly w)"

text \<open>The txid of the broadcast transaction, or without a node the double hash of the script.\<close>

definition fund_and_broadcast ::
    "('k, 'x) btc \<Rightarrow> ('f, 'o) wallet \<Rightarrow> bytes \<Rightarrow> u64 \<Rightarrow> wallet_error + bytes" where
  "fund_and_broadcast T w output_script output_amount =
     (case wl_client w of
        Some rpc \<Rightarrow>
          rbind (map_err MnemonicError (cl_parse_mnemonic rpc (wl_mnemonic w))) (\<lambda>mnemonic.
          rbind (map_err WalletError (cl_create_wallet rpc mnemonic)) (\<lambda>bdk.
          rbind (map_err WalletError (cl_sync rpc bdk)) (\<lambda>bdk.
          rbind (map_err BuildFailed (cl_build_tx rpc bdk output_script output_amount)) (\<lambda>psbt.
          rbind (map_err SignFailed (cl_sign rpc bdk psbt)) (\<lambda>(finalized, psbt).
          if \<not> finalized then Inl SigningIncomplete
          else
          rbind (map_err ExtractFailed (cl_extract_tx rpc psbt)) (\<lambda>tx.
          let txid = bt_compute_txid T tx in
          rbind (map_err BroadcastFailed (cl_send rpc tx)) (\<lambda>_. Inr txid)))))))
      | None \<Rightarrow> Inr (bt_sha256d T output_script))"

section \<open>Properties\<close>

text \<open>What a verified payment is: without a node every outpoint passes; with a node exactly
  those whose output exists in the transaction the node returns, pays to the registry's own
  address and carries at least the required amount.\<close>

theorem verify_payment_iff:
  "verify_payment w op required = Inr () \<longleftrightarrow>
     (case wl_client w of
        None \<Rightarrow> True
      | Some rpc \<Rightarrow> \<exists>tx outs f sats.
          cl_getrawtransaction rpc (op_txid op) = Inr tx \<and> json_index tx ''vout'' = JArr outs \<and>
          unat (op_vout op) < length outs \<and>
          json_index (json_index (outs ! unat (op_vout op)) ''scriptPubKey'') ''address'' = JStr (wl_address w) \<and>
          json_index (outs ! unat (op_vout op)) ''value'' = JNum f \<and>
          cl_from_btc rpc f = Inr sats \<and> required \<le> sats)"
proof (cases "wl_client w")
  case None
  then show ?thesis by (simp add: verify_payment_def)
next
  case (Some rpc)
  have arr: "as_array v = Some xs \<longleftrightarrow> v = JArr xs" for v :: "'a json" and xs
    by (cases v) (auto simp: as_array_def)
  have string: "as_str v = Some s \<longleftrightarrow> v = JStr s" for v :: "'a json" and s
    by (cases v) (auto simp: as_str_def)
  have sats: "btc_value_to_sats rpc v = Inr n \<longleftrightarrow> (\<exists>f. v = JNum f \<and> cl_from_btc rpc f = Inr n)" for v n
    by (cases v) (auto simp: btc_value_to_sats_def as_f64_def rbind_Inr_iff)
  show ?thesis
    by (simp add: verify_payment_def Some Let_def rbind_Inr_iff arr string sats if_result_iff not_less
        del: split_paired_Ex) blast
qed

end
