(* ===== verification/Store.thy ===== *)
theory Store
  imports Registry_Core Registry_Wallet
begin

text \<open>
  \<open>src/src/registry/store.rs\<close>: the merchant pool, the finalized sets, the wallet and the
  optional database. The database connection is a value of type \<open>'d\<close>; the two operations
  of \<open>db.rs\<close> that the store calls are the fields of \<open>db_ops\<close>.
\<close>

record merchant_info =
  mi_merchant :: merchant
  mi_email :: str
  mi_phone :: str

text \<open>Of the watch channel \<open>finalization_tx\<close> the set holds the sender; the field is its current value.\<close>

record ('p, 'x) active_set =
  ac_registry :: "('p, 'x) registry"
  ac_beneficiary_capacity :: nat
  ac_sats_per_user :: u64
  ac_finalized :: bool
  ac_finalization_tx :: bool

record 'd db_ops =
  db_save_merchant :: "'d \<Rightarrow> str \<Rightarrow> str \<Rightarrow> str \<Rightarrow> str \<Rightarrow> string + 'd"
  db_mark_set_finalized :: "'d \<Rightarrow> bytes \<Rightarrow> bytes \<Rightarrow> string + 'd"

record ('p, 'x, 'f, 'o, 'd) store =
  st_merchant_pool :: "str \<rightharpoonup> merchant_info"
  st_active_sets :: "bytes \<rightharpoonup> ('p, 'x) active_set"
  st_wallet :: "('f, 'o) wallet"
  st_db :: "'d option"

datatype store_error =
    AlreadyRegistered str
  | PaymentError wallet_error
  | SetMissing bytes
  | DbError string
  | CommitmentFailed failure
  | StorePanic failure

definition store_new :: "('f, 'o) wallet \<Rightarrow> 'd option \<Rightarrow> ('p, 'x, 'f, 'o, 'd) store" where
  "store_new w db = \<lparr>st_merchant_pool = Map.empty, st_active_sets = Map.empty, st_wallet = w, st_db = db\<rparr>"

text \<open>The state is returned with the error as well: a database error comes after the
  insertion into the pool.\<close>

definition store_add_merchant ::
    "('s, 'p) backend \<Rightarrow> 'd db_ops \<Rightarrow> ('p, 'x, 'f, 'o, 'd) store \<Rightarrow> str \<Rightarrow> str \<Rightarrow> str \<Rightarrow> str \<Rightarrow> outpoint \<Rightarrow>
      u64 \<Rightarrow> ('p, 'x, 'f, 'o, 'd) store \<times> (store_error + unit)" where
  "store_add_merchant B D st name origin email phone outpoint required_fee =
     (if st_merchant_pool st name \<noteq> None then (st, Inl (AlreadyRegistered name))
      else
        (case verify_payment (st_wallet st) outpoint required_fee of
           Inl e \<Rightarrow> (st, Inl (PaymentError e))
         | Inr _ \<Rightarrow>
            (case merchant_new B name origin of
               Inl e \<Rightarrow> (st, Inl (StorePanic e))
             | Inr merchant \<Rightarrow>
                (let st1 = st\<lparr>st_merchant_pool := (st_merchant_pool st)(name \<mapsto>
                       \<lparr>mi_merchant = merchant, mi_email = email, mi_phone = phone\<rparr>)\<rparr> in
                 case st_db st1 of
                   None \<Rightarrow> (st1, Inr ())
                 | Some conn \<Rightarrow>
                    (case db_save_merchant D conn name origin email phone of
                       Inl e \<Rightarrow> (st1, Inl (DbError e))
                     | Inr conn' \<Rightarrow> (st1\<lparr>st_db := Some conn'\<rparr>, Inr ()))))))"

definition store_get_anonymity_set ::
    "('p, 'x, 'f, 'o, 'd) store \<Rightarrow> bytes \<Rightarrow> store_error + ('p, 'x) active_set" where
  "store_get_anonymity_set st set_id = ok_or (st_active_sets st set_id) (SetMissing set_id)"

definition store_get_registry_address ::
    "('p, 'x, 'f, 'o, 'd) store \<Rightarrow> bytes \<Rightarrow> store_error + str \<times> bytes" where
  "store_get_registry_address st set_id =
     rbind (if set_id \<noteq> replicate 32 0
            then rbind (ok_or (st_active_sets st set_id) (SetMissing set_id)) (\<lambda>_. Inr ())
            else Inr ()) (\<lambda>_.
     Inr (wallet_get_address (st_wallet st)))"

definition store_get_crs ::
    "('p, 'x, 'f, 'o, 'd) store \<Rightarrow> bytes \<Rightarrow> store_error + ('p, 'x) registry" where
  "store_get_crs st set_id = ok_or (map_option ac_registry (st_active_sets st set_id)) (SetMissing set_id)"

definition store_create_tx ::
    "('k, 'x) btc \<Rightarrow> 'd db_ops \<Rightarrow> ('p, 'x, 'f, 'o, 'd) store \<Rightarrow> ('p, 'x) registry \<Rightarrow> nat \<Rightarrow> u64 \<Rightarrow>
      ('p, 'x, 'f, 'o, 'd) store \<times> ('p, 'x) registry \<times> (store_error + bytes)" where
  "store_create_tx T D st registry beneficiary_capacity sats_per_user =
     (case create_anonymity_set T registry outpoint_null of
        Inl e \<Rightarrow> (st, registry, Inl (StorePanic e))
      | Inr (registry', Inl e) \<Rightarrow> (st, registry', Inl (CommitmentFailed e))
      | Inr (registry', Inr commitment) \<Rightarrow>
         (let output_amount = word_of_nat beneficiary_capacity * sats_per_user in
          case tx_output (tc_tx commitment) of
            [] \<Rightarrow> (st, registry', Inl (StorePanic (Panic ''index out of bounds'')))
          | out # _ \<Rightarrow>
             (case fund_and_broadcast T (st_wallet st) (to_script_pubkey out) output_amount of
                Inl e \<Rightarrow> (st, registry', Inl (PaymentError e))
              | Inr btc_txid \<Rightarrow>
                 (let set_id = btc_txid;
                      st1 = st\<lparr>st_active_sets := (st_active_sets st)(set_id \<mapsto>
                        \<lparr>ac_registry = registry', ac_beneficiary_capacity = beneficiary_capacity,
                         ac_sats_per_user = sats_per_user, ac_finalized = True, ac_finalization_tx = True\<rparr>)\<rparr> in
                  case st_db st1 of
                    None \<Rightarrow> (st1, registry', Inr btc_txid)
                  | Some conn \<Rightarrow>
                     (case db_mark_set_finalized D conn set_id btc_txid of
                        Inl e \<Rightarrow> (st1, registry', Inl (DbError e))
                      | Inr conn' \<Rightarrow> (st1\<lparr>st_db := Some conn'\<rparr>, registry', Inr btc_txid))))))"

section \<open>The merchant pool as a book\<close>

record merchant_request =
  mq_name :: str
  mq_origin :: str
  mq_email :: str
  mq_phone :: str
  mq_outpoint :: outpoint

definition request_info :: "('s, 'p) backend \<Rightarrow> merchant_request \<Rightarrow> merchant_info" where
  "request_info B q =
     \<lparr>mi_merchant = (case merchant_new B (mq_name q) (mq_origin q) of Inr m \<Rightarrow> m | Inl _ \<Rightarrow> undefined),
      mi_email = mq_email q, mi_phone = mq_phone q\<rparr>"

definition pool_attempt ::
    "('s, 'p) backend \<Rightarrow> 'd db_ops \<Rightarrow> u64 \<Rightarrow> ('p, 'x, 'f, 'o, 'd) store \<Rightarrow> merchant_request \<Rightarrow>
      store_error + ('p, 'x, 'f, 'o, 'd) store" where
  "pool_attempt B D fee st q =
     (case store_add_merchant B D st (mq_name q) (mq_origin q) (mq_email q) (mq_phone q) (mq_outpoint q) fee of
        (st', Inr _) \<Rightarrow> Inr st' | (_, Inl e) \<Rightarrow> Inl e)"

lemma store_add_merchant_ok:
  "store_add_merchant B D st name origin email phone op fee = (st', Inr u) \<Longrightarrow>
   st_merchant_pool st name = None \<and>
   verify_payment (st_wallet st) op fee = Inr () \<and> length name \<le> 255 \<and>
   (\<exists>m. merchant_new B name origin = Inr m \<and>
     st_merchant_pool st' = (st_merchant_pool st)(name \<mapsto>
       \<lparr>mi_merchant = m, mi_email = email, mi_phone = phone\<rparr>)) \<and>
   st_active_sets st' = st_active_sets st \<and> st_wallet st' = st_wallet st"
  by (auto simp: store_add_merchant_def Let_def split: if_splits sum.splits option.splits)

interpretation pool_book: registration_book st_merchant_pool "pool_attempt B D fee" mq_name "request_info B"
  for B :: "('s, 'p) backend" and D :: "'d db_ops" and fee
proof
  fix st st' :: "('p, 'x, 'f, 'o, 'd) store" and q
  assume "pool_attempt B D fee st q = Inr st'"
  then have "store_add_merchant B D st (mq_name q) (mq_origin q) (mq_email q) (mq_phone q) (mq_outpoint q) fee
      = (st', Inr ())"
    by (auto simp: pool_attempt_def split: prod.splits sum.splits)
  from store_add_merchant_ok [OF this]
  show "st_merchant_pool st (mq_name q) = None"
    "st_merchant_pool st' = (st_merchant_pool st)(mq_name q \<mapsto> request_info B q)"
    by (auto simp: request_info_def simp del: merchant_new_Inr)
qed

end
