(* ===== verification/Proof_Codec.thy ===== *)
theory Proof_Codec
  imports Payment_Identity Sample_World
begin

text \<open>
  The byte format of the registration proof (\<open>src/src/core/payment_identity.rs\<close>, from
  \<open>PROOF_BASE_SIZE\<close> on). A slice with bounds outside the buffer, or an array conversion of
  the wrong length, is the value \<open>SlicePanic\<close>; the constant \<open>M\<close> is the argument \<open>m\<close>.
\<close>

section \<open>Offsets\<close>

definition PROOF_BASE_SIZE :: "nat \<Rightarrow> nat" where
  "PROOF_BASE_SIZE m = 4 * 33 + m * 33 + m * 32 + 2 * 32 + 33 + 3 * 32"

definition EPOLY_START :: nat where "EPOLY_START = 4 * 33"
definition F_START :: "nat \<Rightarrow> nat" where "F_START m = EPOLY_START + m * 33"
definition ZA_START :: "nat \<Rightarrow> nat" where "ZA_START m = F_START m + m * 32"
definition ZC_START :: "nat \<Rightarrow> nat" where "ZC_START m = ZA_START m + 32"
definition SCHNORR_R_START :: "nat \<Rightarrow> nat" where "SCHNORR_R_START m = ZC_START m + 32"
definition SCHNORR_S_START :: "nat \<Rightarrow> nat" where "SCHNORR_S_START m = SCHNORR_R_START m + 33"
definition NULLIFIER_SCALAR_START :: "nat \<Rightarrow> nat" where
  "NULLIFIER_SCALAR_START m = SCHNORR_S_START m + 32"
definition NAME_SCALAR_START :: "nat \<Rightarrow> nat" where
  "NAME_SCALAR_START m = NULLIFIER_SCALAR_START m + 32"

lemmas offset_defs = PROOF_BASE_SIZE_def EPOLY_START_def F_START_def ZA_START_def ZC_START_def
  SCHNORR_R_START_def SCHNORR_S_START_def NULLIFIER_SCALAR_START_def NAME_SCALAR_START_def

section \<open>Serialization\<close>

definition serialize_payment_identity_registration_proof :: "pid_proof \<Rightarrow> bytes" where
  "serialize_payment_identity_registration_proof p =
     pf_a p @ pf_b p @ pf_c p @ pf_d p @ concat (pf_e_poly p) @ concat (pf_f p) @
     pf_z_a p @ pf_z_c p @ pf_schnorr_r p @ pf_schnorr_s p @ pf_nullifier_scalar p @
     pf_name_scalar p @ concat (pf_z_responses p)"

datatype proof_codec_error =
    ProofTooShort nat nat
  | ZResponsesNotMultiple nat
  | SlicePanic

definition byte_slice :: "nat \<Rightarrow> nat \<Rightarrow> bytes \<Rightarrow> bytes" where
  "byte_slice i j b = take (j - i) (drop i b)"

text \<open>\<open>b[i..j].try_into().unwrap()\<close> for a target of \<open>n\<close> bytes.\<close>

definition slice_array :: "nat \<Rightarrow> nat \<Rightarrow> nat \<Rightarrow> bytes \<Rightarrow> proof_codec_error + bytes" where
  "slice_array n i j b =
     (if i \<le> j \<and> j \<le> length b then ok_or (try_into_array n (byte_slice i j b)) SlicePanic
      else Inl SlicePanic)"

definition deserialize_payment_identity_registration_proof ::
    "nat \<Rightarrow> bytes \<Rightarrow> proof_codec_error + pid_proof" where
  "deserialize_payment_identity_registration_proof m b =
     (if length b < PROOF_BASE_SIZE m then Inl (ProofTooShort (length b) (PROOF_BASE_SIZE m))
      else let z_bytes = length b - PROOF_BASE_SIZE m in
      if z_bytes mod 32 \<noteq> 0 then Inl (ZResponsesNotMultiple z_bytes)
      else
      rbind (collect_res (\<lambda>k. let start = EPOLY_START + k * 33 in slice_array 33 start (start + 33) b) [0..<m]) (\<lambda>e_poly.
      rbind (collect_res (\<lambda>k. let start = F_START m + k * 32 in slice_array 32 start (start + 32) b) [0..<m]) (\<lambda>f.
      let z_count = z_bytes div 32 in
      rbind (collect_res (\<lambda>i. let start = PROOF_BASE_SIZE m + i * 32 in slice_array 32 start (start + 32) b)
               [0..<z_count]) (\<lambda>z_responses.
      rbind (slice_array 33 0 33 b) (\<lambda>a.
      rbind (slice_array 33 33 66 b) (\<lambda>b'.
      rbind (slice_array 33 66 99 b) (\<lambda>c.
      rbind (slice_array 33 99 132 b) (\<lambda>d.
      rbind (slice_array 32 (ZA_START m) (ZC_START m) b) (\<lambda>z_a.
      rbind (slice_array 32 (ZC_START m) (SCHNORR_R_START m) b) (\<lambda>z_c.
      rbind (slice_array 33 (SCHNORR_R_START m) (SCHNORR_S_START m) b) (\<lambda>schnorr_r.
      rbind (slice_array 32 (SCHNORR_S_START m) (NULLIFIER_SCALAR_START m) b) (\<lambda>schnorr_s.
      rbind (slice_array 32 (NULLIFIER_SCALAR_START m) (NAME_SCALAR_START m) b) (\<lambda>nullifier_scalar.
      rbind (slice_array 32 (NAME_SCALAR_START m) (PROOF_BASE_SIZE m) b) (\<lambda>name_scalar.
      Inr \<lparr>pf_a = a, pf_b = b', pf_c = c, pf_d = d, pf_e_poly = e_poly, pf_f = f,
           pf_z_a = z_a, pf_z_c = z_c, pf_z_responses = z_responses,
           pf_schnorr_r = schnorr_r, pf_schnorr_s = schnorr_s,
           pf_nullifier_scalar = nullifier_scalar, pf_name_scalar = name_scalar\<rparr>))))))))))))))"

section \<open>Slices and chunks\<close>

lemma slice_array_in [codec_simps]:
  "i + n \<le> length b \<Longrightarrow> j = i + n \<Longrightarrow> slice_array n i j b = Inr (byte_slice i j b)"
  by (simp add: slice_array_def byte_slice_def)

lemma length_byte_slice: "j \<le> length b \<Longrightarrow> length (byte_slice i j b) = j - i"
  by (simp add: byte_slice_def)

definition chunks_at :: "nat \<Rightarrow> nat \<Rightarrow> nat \<Rightarrow> bytes \<Rightarrow> bytes list" where
  "chunks_at s n k b = from_fn k (\<lambda>i. byte_slice (s + i * n) (s + i * n + n) b)"

lemma length_chunks_at [simp]: "length (chunks_at s n k b) = k"
  by (simp add: chunks_at_def)

lemma collect_slices [codec_simps]:
  "s + k * n \<le> length b \<Longrightarrow>
   collect_res (\<lambda>i. let start = s + i * n in slice_array n start (start + n) b) [0..<k] =
     Inr (chunks_at s n k b)"
proof -
  assume *: "s + k * n \<le> length b"
  have "s + i * n + n \<le> length b" if "i < k" for i
  proof -
    have "i * n + n \<le> k * n"
      using that by (metis Suc_leI add.commute mult_Suc mult_le_mono1)
    with * show ?thesis by simp
  qed
  then show ?thesis
    unfolding chunks_at_def from_fn_def
    by (intro collect_res_map) (simp add: slice_array_in Let_def)
qed

lemma byte_slice_drop: "byte_slice (s + i) (s + j) b = byte_slice i j (drop s b)"
  by (simp add: byte_slice_def add.commute)

lemma byte_slice_append_left: "j \<le> length xs \<Longrightarrow> byte_slice i j (xs @ ys) = byte_slice i j xs"
  by (cases "i \<le> length xs") (auto simp: byte_slice_def)

lemma byte_slice_append_right:
  "length xs \<le> i \<Longrightarrow> byte_slice i j (xs @ ys) = byte_slice (i - length xs) (j - length xs) ys"
  by (simp add: byte_slice_def)

lemma byte_slice_all: "j = length b \<Longrightarrow> byte_slice 0 j b = b"
  by (simp add: byte_slice_def)

lemma chunks_at_drop: "chunks_at s n k b = chunks_at 0 n k (drop s b)"
  by (simp add: chunks_at_def byte_slice_drop [symmetric] add.assoc)

lemma chunks_at_concat:
  "\<forall>x\<in>set xs. length x = n \<Longrightarrow> k = length xs \<Longrightarrow> chunks_at 0 n k (concat xs @ r) = xs"
proof (induction xs arbitrary: k)
  case Nil
  then show ?case by (simp add: chunks_at_def from_fn_def)
next
  case (Cons x xs)
  have "chunks_at 0 n (length (x # xs)) (concat (x # xs) @ r) =
      byte_slice 0 n (x @ concat xs @ r) # chunks_at 0 n (length xs) (concat xs @ r)"
    using Cons.prems
    by (simp add: chunks_at_def from_fn_def upt_conv_Cons map_Suc_upt [symmetric] comp_def
        byte_slice_append_right add.commute del: upt_Suc)
  then show ?case
    using Cons by (simp add: byte_slice_def)
qed

lemma concat_chunks_at:
  "k * n \<le> length b \<Longrightarrow> concat (chunks_at 0 n k b) = take (k * n) b"
proof (induction k)
  case 0
  then show ?case by (simp add: chunks_at_def from_fn_def)
next
  case (Suc k)
  have "concat (chunks_at 0 n (Suc k) b) = concat (chunks_at 0 n k b) @ byte_slice (k * n) (k * n + n) b"
    by (simp add: chunks_at_def from_fn_def)
  also have "\<dots> = take (k * n + n) b"
    using Suc by (simp add: byte_slice_def take_add)
  finally show ?case by (simp add: add.commute)
qed

lemma byte_slice_cat: "i \<le> j \<Longrightarrow> j \<le> k \<Longrightarrow> byte_slice i j b @ byte_slice j k b = byte_slice i k b"
proof -
  assume "i \<le> j" "j \<le> k"
  then have "byte_slice i k b = take ((j - i) + (k - j)) (drop i b)"
    by (simp add: byte_slice_def)
  also have "\<dots> = byte_slice i j b @ take (k - j) (drop (j - i) (drop i b))"
    by (simp only: byte_slice_def take_add)
  finally show ?thesis
    using \<open>i \<le> j\<close> by (simp add: byte_slice_def)
qed

lemma chunks_slice:
  "s + k * n \<le> length b \<Longrightarrow> concat (chunks_at s n k b) = byte_slice s (s + k * n) b"
  by (subst chunks_at_drop) (simp add: concat_chunks_at byte_slice_def)

section \<open>The format\<close>

lemma deserialize_slices:
  assumes "PROOF_BASE_SIZE m \<le> length b" and "(length b - PROOF_BASE_SIZE m) mod 32 = 0"
  shows "deserialize_payment_identity_registration_proof m b = Inr
     \<lparr>pf_a = byte_slice 0 33 b, pf_b = byte_slice 33 66 b, pf_c = byte_slice 66 99 b,
      pf_d = byte_slice 99 132 b,
      pf_e_poly = chunks_at EPOLY_START 33 m b, pf_f = chunks_at (F_START m) 32 m b,
      pf_z_a = byte_slice (ZA_START m) (ZC_START m) b,
      pf_z_c = byte_slice (ZC_START m) (SCHNORR_R_START m) b,
      pf_z_responses = chunks_at (PROOF_BASE_SIZE m) 32 ((length b - PROOF_BASE_SIZE m) div 32) b,
      pf_schnorr_r = byte_slice (SCHNORR_R_START m) (SCHNORR_S_START m) b,
      pf_schnorr_s = byte_slice (SCHNORR_S_START m) (NULLIFIER_SCALAR_START m) b,
      pf_nullifier_scalar = byte_slice (NULLIFIER_SCALAR_START m) (NAME_SCALAR_START m) b,
      pf_name_scalar = byte_slice (NAME_SCALAR_START m) (PROOF_BASE_SIZE m) b\<rparr>"
proof -
  let ?z = "(length b - PROOF_BASE_SIZE m) div 32"
  have z: "PROOF_BASE_SIZE m + ?z * 32 \<le> length b"
    using assms(1) div_times_less_eq_dividend [of "length b - PROOF_BASE_SIZE m" 32] by linarith
  have small: "EPOLY_START + m * 33 \<le> length b" "F_START m + m * 32 \<le> length b"
    using assms(1) by (simp_all add: offset_defs)
  have fixed: "slice_array n i j b = Inr (byte_slice i j b)" if "j = i + n" "j \<le> PROOF_BASE_SIZE m" for n i j
    using that assms(1) by (simp add: slice_array_in)
  show ?thesis
    using assms(2)
    by (simp only: deserialize_payment_identity_registration_proof_def not_less [THEN iffD2, OF assms(1)]
        Let_def [of "length b - _"] Let_def [of "_ div _"] if_False not_True_eq_False simp_thms
        collect_slices [OF small(1)] collect_slices [OF small(2)] collect_slices [OF z] rbind_simps)
      (simp add: fixed offset_defs)
qed

lemma serialize_slices:
  assumes "PROOF_BASE_SIZE m \<le> length b" and "(length b - PROOF_BASE_SIZE m) mod 32 = 0"
    and "deserialize_payment_identity_registration_proof m b = Inr p"
  shows "serialize_payment_identity_registration_proof p = b"
proof -
  let ?z = "(length b - PROOF_BASE_SIZE m) div 32"
  have z: "PROOF_BASE_SIZE m + ?z * 32 = length b"
    using assms(1,2) by (metis div_mult_mod_eq add.right_neutral le_add_diff_inverse)
  have small: "EPOLY_START + m * 33 \<le> length b" "F_START m + m * 32 \<le> length b"
    using assms(1) by (simp_all add: offset_defs)
  have "byte_slice i j b @ byte_slice j k b @ r = byte_slice i k b @ r" if "i \<le> j" "j \<le> k" for i j k r
    using byte_slice_cat [OF that, of b] by (simp flip: append_assoc)
  note cat = this byte_slice_cat
  have "serialize_payment_identity_registration_proof p = byte_slice 0 (length b) b"
    using deserialize_slices [OF assms(1,2)] assms(3) z small
    by (simp add: serialize_payment_identity_registration_proof_def chunks_slice)
      (simp add: offset_defs cat)
  then show ?thesis
    by (simp add: byte_slice_all)
qed

lemma length_concat_const: "\<forall>x\<in>set xs. length x = n \<Longrightarrow> length (concat xs) = length xs * n"
  by (induction xs) auto

lemma length_concat_fields:
  assumes "wf_proof m p"
  shows "length (concat (pf_e_poly p)) = m * 33" "length (concat (pf_f p)) = m * 32"
    "length (concat (pf_z_responses p)) = length (pf_z_responses p) * 32"
  using assms length_concat_const [of "pf_e_poly p" 33] length_concat_const [of "pf_f p" 32]
    length_concat_const [of "pf_z_responses p" 32]
  by (simp_all add: wf_proof_def)

lemma length_serialize:
  "wf_proof m p \<Longrightarrow> length (serialize_payment_identity_registration_proof p) =
     PROOF_BASE_SIZE m + 32 * length (pf_z_responses p)"
  using length_concat_fields [of m p]
  by (simp add: wf_proof_def serialize_payment_identity_registration_proof_def PROOF_BASE_SIZE_def
      del: length_concat)

text \<open>Reading field by field: the part of the buffer before a field has the length of its
  offset.\<close>

lemma chunks_at_field:
  "length xs = s \<Longrightarrow> \<forall>y\<in>set ys. length y = n \<Longrightarrow> k = length ys \<Longrightarrow>
     chunks_at s n k (xs @ concat ys @ zs) = ys"
  by (subst chunks_at_drop) (simp add: chunks_at_concat)

lemma deserialize_serialize:
  assumes "wf_proof m p"
  shows "deserialize_payment_identity_registration_proof m
      (serialize_payment_identity_registration_proof p) = Inr p"
proof -
  define b where "b = serialize_payment_identity_registration_proof p"
  note wf = assms [unfolded wf_proof_def]
  note len = length_concat_fields [OF assms]
  note b = b_def [unfolded serialize_payment_identity_registration_proof_def]
  define pre where "pre = pf_a p @ pf_b p @ pf_c p @ pf_d p @ concat (pf_e_poly p) @ concat (pf_f p)"
  have pre: "length pre = ZA_START m"
    using wf len by (simp add: pre_def offset_defs del: length_concat)
  have fields: "byte_slice 0 33 b = pf_a p" "byte_slice 33 66 b = pf_b p" "byte_slice 66 99 b = pf_c p"
    "byte_slice 99 132 b = pf_d p"
    unfolding b using wf by (simp_all add: byte_slice_def)
  define scalars where "scalars = pf_z_a p @ pf_z_c p @ pf_schnorr_r p @ pf_schnorr_s p
    @ pf_nullifier_scalar p @ pf_name_scalar p"
  have split: "b = (pf_a p @ pf_b p @ pf_c p @ pf_d p) @ concat (pf_e_poly p) @
      (concat (pf_f p) @ scalars @ concat (pf_z_responses p))"
    "b = (pf_a p @ pf_b p @ pf_c p @ pf_d p @ concat (pf_e_poly p)) @ concat (pf_f p) @
      (scalars @ concat (pf_z_responses p))"
    "b = (pre @ scalars) @ concat (pf_z_responses p) @ []"
    by (simp_all add: b pre_def scalars_def)
  have epoly: "chunks_at EPOLY_START 33 m b = pf_e_poly p"
    unfolding split(1) by (rule chunks_at_field) (use wf in \<open>simp_all add: EPOLY_START_def\<close>)
  have f: "chunks_at (F_START m) 32 m b = pf_f p"
    unfolding split(2)
    by (rule chunks_at_field) (use wf len in \<open>simp_all add: EPOLY_START_def F_START_def del: length_concat\<close>)
  have z: "chunks_at (PROOF_BASE_SIZE m) 32 (length (pf_z_responses p)) b = pf_z_responses p"
    by (subst split(3), rule chunks_at_field, use wf pre in \<open>simp_all add: scalars_def offset_defs\<close>)
  have b': "b = pre @ pf_z_a p @ pf_z_c p @ pf_schnorr_r p @ pf_schnorr_s p @ pf_nullifier_scalar p
      @ pf_name_scalar p @ concat (pf_z_responses p)"
    by (simp add: b pre_def)
  have tail: "byte_slice (ZA_START m) (ZC_START m) b = pf_z_a p"
    "byte_slice (ZC_START m) (SCHNORR_R_START m) b = pf_z_c p"
    "byte_slice (SCHNORR_R_START m) (SCHNORR_S_START m) b = pf_schnorr_r p"
    "byte_slice (SCHNORR_S_START m) (NULLIFIER_SCALAR_START m) b = pf_schnorr_s p"
    "byte_slice (NULLIFIER_SCALAR_START m) (NAME_SCALAR_START m) b = pf_nullifier_scalar p"
    "byte_slice (NAME_SCALAR_START m) (PROOF_BASE_SIZE m) b = pf_name_scalar p"
    using wf pre unfolding b' by (simp_all add: byte_slice_def offset_defs)
  show ?thesis
    using length_serialize [OF assms]
    by (simp add: deserialize_slices b_def [symmetric] fields epoly f z tail)
qed

lemma deserialize_cases:
  "deserialize_payment_identity_registration_proof m b =
     (if length b < PROOF_BASE_SIZE m then Inl (ProofTooShort (length b) (PROOF_BASE_SIZE m))
      else if (length b - PROOF_BASE_SIZE m) mod 32 \<noteq> 0
      then Inl (ZResponsesNotMultiple (length b - PROOF_BASE_SIZE m))
      else deserialize_payment_identity_registration_proof m b)"
  by (simp add: deserialize_payment_identity_registration_proof_def Let_def)

lemma deserialize_InrD:
  "deserialize_payment_identity_registration_proof m b = Inr p \<Longrightarrow>
     PROOF_BASE_SIZE m \<le> length b \<and> (length b - PROOF_BASE_SIZE m) mod 32 = 0"
  by (subst (asm) deserialize_cases) (auto split: if_splits)

lemma deserialize_canonical:
  assumes "deserialize_payment_identity_registration_proof m b = Inr p"
  shows "serialize_payment_identity_registration_proof p = b"
  using deserialize_InrD [OF assms] serialize_slices [OF _ _ assms] by simp

lemma deserialize_wf:
  assumes "deserialize_payment_identity_registration_proof m b = Inr p"
  shows "wf_proof m p"
proof -
  note ok = deserialize_InrD [OF assms, THEN conjunct1] deserialize_InrD [OF assms, THEN conjunct2]
  have chunk: "length x = n" if "x \<in> set (chunks_at s n k b)" "s + k * n \<le> length b" for x s n k
  proof -
    obtain i where "i < k" "x = byte_slice (s + i * n) (s + i * n + n) b"
      using \<open>x \<in> _\<close> by (auto simp: chunks_at_def from_fn_def)
    moreover have "i * n + n \<le> k * n"
      using \<open>i < k\<close> by (metis Suc_leI add.commute mult_Suc mult_le_mono1)
    ultimately show ?thesis
      using that(2) by (simp add: length_byte_slice)
  qed
  have z: "PROOF_BASE_SIZE m + (length b - PROOF_BASE_SIZE m) div 32 * 32 = length b"
    using ok by (metis div_mult_mod_eq add.right_neutral le_add_diff_inverse)
  have small: "EPOLY_START + m * 33 \<le> length b" "F_START m + m * 32 \<le> length b"
    using ok(1) by (simp_all add: offset_defs)
  have sets: "\<forall>x\<in>set (chunks_at EPOLY_START 33 m b). length x = 33"
    "\<forall>x\<in>set (chunks_at (F_START m) 32 m b). length x = 32"
    "\<forall>x\<in>set (chunks_at (PROOF_BASE_SIZE m) 32 ((length b - PROOF_BASE_SIZE m) div 32) b). length x = 32"
    by (rule ballI, erule chunk, rule small(1), rule ballI, erule chunk, rule small(2),
      rule ballI, erule chunk, rule eq_refl [OF z])
  have lens: "length (byte_slice 0 33 b) = 33" "length (byte_slice 33 66 b) = 33"
    "length (byte_slice 66 99 b) = 33" "length (byte_slice 99 132 b) = 33"
    "length (byte_slice (ZA_START m) (ZC_START m) b) = 32"
    "length (byte_slice (ZC_START m) (SCHNORR_R_START m) b) = 32"
    "length (byte_slice (SCHNORR_R_START m) (SCHNORR_S_START m) b) = 33"
    "length (byte_slice (SCHNORR_S_START m) (NULLIFIER_SCALAR_START m) b) = 32"
    "length (byte_slice (NULLIFIER_SCALAR_START m) (NAME_SCALAR_START m) b) = 32"
    "length (byte_slice (NAME_SCALAR_START m) (PROOF_BASE_SIZE m) b) = 32"
    using ok(1) by (subst length_byte_slice; simp add: offset_defs)+
  have p: "p = (case deserialize_payment_identity_registration_proof m b of Inr q \<Rightarrow> q | Inl _ \<Rightarrow> p)"
    by (simp only: assms sum.case)
  show ?thesis
    by (subst p, simp only: deserialize_slices [OF ok] sum.case wf_proof_def pid_proof.simps)
      (simp only: lens length_chunks_at simp_thms, intro conjI sets)
qed

text \<open>C25. Serializing a proof and reading it back gives the proof, for every \<open>M\<close> and every
  number of responses.\<close>

theorem proof_round_trip:
  "wf_proof m p \<Longrightarrow> deserialize_payment_identity_registration_proof m
     (serialize_payment_identity_registration_proof p) = Inr p"
  by (rule deserialize_serialize)

text \<open>C26. The format is canonical: whatever the decoder accepts is a proof whose fields have the
  lengths of the Rust arrays, and serializing it gives the same bytes, so that no two byte
  strings stand for one proof.\<close>

theorem proof_bytes_canonical:
  "deserialize_payment_identity_registration_proof m b = Inr p \<Longrightarrow>
     wf_proof m p \<and> serialize_payment_identity_registration_proof p = b"
  by (simp add: deserialize_wf deserialize_canonical)

text \<open>The decoder is total and its errors are exact: it accepts a buffer if and only if
  the length is \<open>PROOF_BASE_SIZE + 32\<cdot>k\<close> for some \<open>k\<close>, a short buffer and a ragged
  tail give their two errors, and no slice of it goes out of bounds.\<close>

theorem deserialize_outcome:
  "case deserialize_payment_identity_registration_proof m b of
     Inr p \<Rightarrow> length b = PROOF_BASE_SIZE m + 32 * length (pf_z_responses p)
   | Inl (ProofTooShort n k) \<Rightarrow> n = length b \<and> k = PROOF_BASE_SIZE m \<and> n < k
   | Inl (ZResponsesNotMultiple n) \<Rightarrow> length b = PROOF_BASE_SIZE m + n \<and> n mod 32 \<noteq> 0
   | Inl SlicePanic \<Rightarrow> False"
proof (cases "PROOF_BASE_SIZE m \<le> length b \<and> (length b - PROOF_BASE_SIZE m) mod 32 = 0")
  case True
  then obtain p where p: "deserialize_payment_identity_registration_proof m b = Inr p"
    by (simp add: deserialize_slices)
  then show ?thesis
    using length_serialize [OF deserialize_wf [OF p]] deserialize_canonical [OF p] by simp
next
  case False
  then show ?thesis
    by (subst deserialize_cases) auto
qed

text \<open>A proof for two services with \<open>M = 2\<close>.\<close>

definition sample_proof :: pid_proof where
  "sample_proof =
     (let p = replicate 33 2; s = replicate 32 1 in
      \<lparr>pf_a = p, pf_b = p, pf_c = p, pf_d = p, pf_e_poly = [p, p], pf_f = [s, s], pf_z_a = s, pf_z_c = s,
       pf_z_responses = [s, s, s], pf_schnorr_r = p, pf_schnorr_s = s, pf_nullifier_scalar = s,
       pf_name_scalar = s\<rparr>)"

lemma wf_sample_proof: "wf_proof 2 sample_proof"
  by (simp add: wf_proof_def sample_proof_def Let_def)

theorem proof_round_trip_witness:
  "deserialize_payment_identity_registration_proof 2
     (serialize_payment_identity_registration_proof sample_proof) = Inr sample_proof"
  by (rule proof_round_trip [OF wf_sample_proof])

theorem proof_bytes_canonical_witness:
  "wf_proof 2 sample_proof \<and> serialize_payment_identity_registration_proof sample_proof =
     serialize_payment_identity_registration_proof sample_proof"
  by (rule proof_bytes_canonical) (rule deserialize_serialize [OF wf_sample_proof])

lemma prove_wf_proof:
  fixes B :: "('s::field, 'p::ab_group_add) backend"
  assumes "codec_laws B" and "\<forall>n\<in>set nullifiers. length n = 32" and "length name_scalar = 32"
    and "prove_payment_identity_registration B rng crs xs index l set_id blinding nullifiers pseudonym nul name_scalar
      = Inr p"
  shows "wf_proof (bk_M B) p" and "length (pf_z_responses p) = num_merchants crs + 1"
proof -
  obtain co hs ds where p: "p = prover_message B co crs hs ds index l set_id blinding nullifiers pseudonym nul name_scalar"
    and l: "1 \<le> l" "l \<le> length nullifiers"
    using assms(4) by (auto simp: prove_payment_identity_registration_def Let_def rbind_Inr_iff split: if_splits)
  have "length (nullifiers ! (l - 1)) = 32"
    using assms(2) l by simp
  then show "wf_proof (bk_M B) p" "length (pf_z_responses p) = num_merchants crs + 1"
    using assms(1,3) by (auto simp: p prover_message_def Let_def wf_proof_def from_fn_def)
qed

text \<open>C27. The type of what the prover returns. Given 32-byte nullifiers and a 32-byte name
  scalar, every proof it returns has fields of the lengths of the Rust arrays, one response per
  generator, and serializes to \<open>PROOF_BASE_SIZE + 32\<cdot>(L + 1)\<close> bytes.\<close>

theorem prover_output_typed:
  fixes B :: "('s::field, 'p::ab_group_add) backend"
  assumes "codec_laws B" and "\<forall>n\<in>set nullifiers. length n = 32" and "length name_scalar = 32"
    and "prove_payment_identity_registration B rng crs xs index l set_id blinding nullifiers pseudonym nul name_scalar
      = Inr p"
  shows "wf_proof (bk_M B) p \<and> length (pf_z_responses p) = num_merchants crs + 1 \<and>
    length (serialize_payment_identity_registration_proof p) = PROOF_BASE_SIZE (bk_M B) + 32 * (num_merchants crs + 1)"
  using prove_wf_proof [OF assms] by (simp add: length_serialize)

theorem prover_output_typed_witness:
  "\<exists>p. prove_payment_identity_registration sample sample_key sample_crs sample_set 2 1 [] [] sample_nullifiers [] []
       sample_name_scalar = Inr p \<and>
     length (serialize_payment_identity_registration_proof p) = PROOF_BASE_SIZE 2 + 32 * 3"
proof -
  obtain P where "point_from_bytes sample sample_phi = Some P"
    using sample_phi_decodes by blast
  then obtain p where p: "prove_payment_identity_registration sample sample_key sample_crs sample_set 2 1 [] []
      sample_nullifiers [] [] sample_name_scalar = Inr p"
    by (auto simp: prove_payment_identity_registration_def Let_def crs_h_def shifted_set_def sample_set_def
        sample_nullifiers_def other_gens_def other_indices_def numeral_eq_Suc)
  have "\<forall>n\<in>set sample_nullifiers. length n = 32" "length sample_name_scalar = 32"
    by (auto simp: sample_nullifiers_def derive_all_nullifiers_def derive_nullifier_def sample_digest_laws
        sample_name_scalar_def to_scalar_bytes_def)
  then show ?thesis
    using p prover_output_typed [OF sample_codec_laws _ _ p] by simp
qed

end
