(* ===== verification/Service.thy ===== *)
theory Service
  imports Store Proof_Codec
begin

text \<open>
  \<open>src/src/registry/service.rs\<close>: the gRPC handlers. Each handler is a function on the service
  state that returns the new state and a status or a response; the parts of a handler that run
  under one lock are separate functions, so that other requests can run between them.
\<close>

record config =
  cf_min_sats_per_user :: u64
  cf_merchant_registration_fee :: u64
  cf_beneficiary_capacity :: nat
  cf_merchant_capacity :: nat

definition config_default :: config where
  "config_default = \<lparr>cf_min_sats_per_user = 1000, cf_merchant_registration_fee = 3000,
     cf_beneficiary_capacity = 4, cf_merchant_capacity = 2\<rparr>"

datatype registry_state = Empty | Pending | Finalizing

record ('p, 'x, 'f, 'o, 'd) service =
  sv_store :: "('p, 'x, 'f, 'o, 'd) store"
  sv_registry :: "('p, 'x) registry"
  sv_config :: config
  sv_state :: registry_state

definition service_new ::
    "('s, 'p) backend \<Rightarrow> ('k, 'x) btc \<Rightarrow> bytes \<Rightarrow> ('p, 'x, 'f, 'o, 'd) store \<Rightarrow> config \<Rightarrow>
      failure + ('p, 'x, 'f, 'o, 'd) service" where
  "service_new B T sk_bytes st config =
     rbind (registry_new B T sk_bytes (cf_beneficiary_capacity config) (cf_min_sats_per_user config)) (\<lambda>r.
     Inr \<lparr>sv_store = st, sv_registry = r, sv_config = config, sv_state = Empty\<rparr>)"

datatype status =
    InvalidArgument string
  | AlreadyExists string
  | AlreadyExistsStore store_error
  | FailedPrecondition string
  | PaymentFailed wallet_error
  | Internal store_error
  | NotFound store_error
  | Crash failure

text \<open>A panic inside a store operation unwinds the handler; an error becomes a status.\<close>

definition store_status :: "(store_error \<Rightarrow> status) \<Rightarrow> store_error \<Rightarrow> status" where
  "store_status f e = (case e of StorePanic p \<Rightarrow> Crash p | _ \<Rightarrow> f e)"

definition parse_array :: "nat \<Rightarrow> string \<Rightarrow> bytes \<Rightarrow> status + bytes" where
  "parse_array n msg b = ok_or (try_into_array n b) (InvalidArgument msg)"

text \<open>The transaction id comes in display order and is reversed.\<close>

definition parse_txid :: "bytes \<Rightarrow> status + bytes" where
  "parse_txid b = rbind (parse_array 32 ''funding_txid must be 32 bytes'' b) (\<lambda>t. Inr (rev t))"

section \<open>Merchant registration\<close>

record merchant_message =
  mm_name :: str
  mm_origin :: str
  mm_email :: str
  mm_phone :: str
  mm_funding_txid :: bytes
  mm_funding_vout :: u32

definition register_merchant_store ::
    "('s, 'p) backend \<Rightarrow> 'd db_ops \<Rightarrow> ('p, 'x, 'f, 'o, 'd) service \<Rightarrow> merchant_message \<Rightarrow>
      ('p, 'x, 'f, 'o, 'd) service \<times> (status + unit)" where
  "register_merchant_store B D sv q =
     (case parse_txid (mm_funding_txid q) of
        Inl e \<Rightarrow> (sv, Inl e)
      | Inr txid \<Rightarrow>
         (let outpoint = \<lparr>op_txid = txid, op_vout = mm_funding_vout q\<rparr>;
              (st, r) = store_add_merchant B D (sv_store sv) (mm_name q) (mm_origin q) (mm_email q)
                          (mm_phone q) outpoint (cf_merchant_registration_fee (sv_config sv))
          in (sv\<lparr>sv_store := st\<rparr>, map_err (store_status AlreadyExistsStore) r)))"

definition register_merchant_registry ::
    "('s, 'p) backend \<Rightarrow> ('p, 'x, 'f, 'o, 'd) service \<Rightarrow> merchant_message \<Rightarrow>
      ('p, 'x, 'f, 'o, 'd) service \<times> (status + u32)" where
  "register_merchant_registry B sv q =
     (case merchant_new B (mm_name q) (mm_origin q) of
        Inl e \<Rightarrow> (sv, Inl (Crash e))
      | Inr merchant \<Rightarrow>
         (let (r, id) = registry_add_merchant (sv_registry sv) merchant
          in (sv\<lparr>sv_registry := r\<rparr>, Inr (word_of_nat id))))"

definition register_merchant ::
    "('s, 'p) backend \<Rightarrow> 'd db_ops \<Rightarrow> ('p, 'x, 'f, 'o, 'd) service \<Rightarrow> merchant_message \<Rightarrow>
      ('p, 'x, 'f, 'o, 'd) service \<times> (status + u32)" where
  "register_merchant B D sv q =
     (case register_merchant_store B D sv q of
        (sv1, Inl e) \<Rightarrow> (sv1, Inl e)
      | (sv1, Inr _) \<Rightarrow> register_merchant_registry B sv1 q)"

section \<open>Beneficiary registration\<close>

record beneficiary_message =
  bm_phi :: bytes
  bm_funding_txid :: bytes
  bm_funding_vout :: u32

definition register_beneficiary_insert ::
    "('p, 'x, 'f, 'o, 'd) service \<Rightarrow> bytes \<Rightarrow> outpoint \<Rightarrow> ('p, 'x, 'f, 'o, 'd) service \<times> (status + u32)" where
  "register_beneficiary_insert sv phi outpoint =
     (if beneficiary_count (sv_registry sv) \<ge> cf_beneficiary_capacity (sv_config sv)
      then (sv, Inl (FailedPrecondition ''Anonymity set is full''))
      else if phi \<in> set (rg_anonymity_set (sv_registry sv))
      then (sv, Inl (AlreadyExists ''Beneficiary already registered''))
      else
        (let (r, index) = registry_add_beneficiary (sv_registry sv) phi outpoint
         in (sv\<lparr>sv_registry := r\<rparr>, Inr (word_of_nat index))))"

definition register_beneficiary ::
    "('p, 'x, 'f, 'o, 'd) service \<Rightarrow> beneficiary_message \<Rightarrow> ('p, 'x, 'f, 'o, 'd) service \<times> (status + u32)" where
  "register_beneficiary sv q =
     (case parse_array 33 ''phi must be 33 bytes'' (bm_phi q) of
        Inl e \<Rightarrow> (sv, Inl e)
      | Inr phi \<Rightarrow>
         (case parse_txid (bm_funding_txid q) of
            Inl e \<Rightarrow> (sv, Inl e)
          | Inr txid \<Rightarrow>
             (let outpoint = \<lparr>op_txid = txid, op_vout = bm_funding_vout q\<rparr> in
              case verify_payment (st_wallet (sv_store sv)) outpoint (cf_min_sats_per_user (sv_config sv)) of
                Inl e \<Rightarrow> (sv, Inl (PaymentFailed e))
              | Inr _ \<Rightarrow> register_beneficiary_insert sv phi outpoint)))"

section \<open>Finalization and queries\<close>

definition finalize_set ::
    "('s, 'p) backend \<Rightarrow> ('k, 'x) btc \<Rightarrow> 'd db_ops \<Rightarrow> ('p, 'x, 'f, 'o, 'd) service \<Rightarrow> bytes \<Rightarrow>
      ('p, 'x, 'f, 'o, 'd) service \<times> (status + bytes)" where
  "finalize_set B T D sv set_id =
     (case parse_array 32 ''set_id must be 32 bytes'' set_id of
        Inl e \<Rightarrow> (sv, Inl e)
      | Inr _ \<Rightarrow>
         (let registry = registry_setup B (sv_registry sv);
              (st, registry', r) = store_create_tx T D (sv_store sv) registry
                (cf_beneficiary_capacity (sv_config sv)) (cf_min_sats_per_user (sv_config sv))
          in (sv\<lparr>sv_store := st, sv_registry := registry'\<rparr>, map_err (store_status Internal) r)))"

definition get_crs :: "('s, 'p) backend \<Rightarrow> ('p, 'x, 'f, 'o, 'd) service \<Rightarrow> bytes \<Rightarrow> status + bytes" where
  "get_crs B sv set_id =
     rbind (parse_array 32 ''set_id must be 32 bytes'' set_id) (\<lambda>d.
     rbind (map_err NotFound (store_get_crs (sv_store sv) d)) (\<lambda>registry.
     Inr (crs_to_bytes B (rg_crs registry))))"

record set_response =
  sr_commitments :: "bytes list"
  sr_finalized :: bool
  sr_count :: u32
  sr_capacity :: u32

text \<open>The loop \<open>while commitments.len() < N\<close>, which pushes the last commitment.\<close>

function push_until :: "nat \<Rightarrow> bytes \<Rightarrow> bytes list \<Rightarrow> bytes list" where
  "push_until n x xs = (if length xs < n then push_until n x (xs @ [x]) else xs)"
  by pat_completeness auto
termination
  by (relation "measure (\<lambda>(n, x, xs). n - length xs)") auto

declare push_until.simps [simp del]

definition pad_commitments :: "nat \<Rightarrow> bytes list \<Rightarrow> bytes list" where
  "pad_commitments n raw =
     (if raw \<noteq> [] \<and> length raw < n then push_until n (last raw) raw else raw)"

lemma push_until_replicate: "push_until n x xs = xs @ replicate (n - length xs) x"
proof (induction n x xs rule: push_until.induct)
  case (1 n x xs)
  show ?case
  proof (cases "length xs < n")
    case True
    then have "n - length xs = Suc (n - Suc (length xs))" by simp
    with True 1 show ?thesis
      by (subst push_until.simps) simp
  next
    case False
    then show ?thesis by (simp add: push_until.simps)
  qed
qed

definition get_anonymity_set ::
    "('s, 'p) backend \<Rightarrow> ('p, 'x, 'f, 'o, 'd) service \<Rightarrow> bytes \<Rightarrow> status + set_response" where
  "get_anonymity_set B sv set_id =
     rbind (parse_array 32 ''set_id must be 32 bytes'' set_id) (\<lambda>d.
     rbind (map_err NotFound (store_get_anonymity_set (sv_store sv) d)) (\<lambda>active_set.
     let raw = rg_anonymity_set (ac_registry active_set) in
     Inr \<lparr>sr_commitments = pad_commitments (N_of B) raw, sr_finalized = ac_finalized active_set,
          sr_count = word_of_nat (beneficiary_count (ac_registry active_set)),
          sr_capacity = word_of_nat (ac_beneficiary_capacity active_set)\<rparr>))"

definition get_registry_address ::
    "('p, 'x, 'f, 'o, 'd) service \<Rightarrow> bytes \<Rightarrow> status + str \<times> bytes" where
  "get_registry_address sv set_id =
     rbind (parse_array 32 ''set_id must be 32 bytes'' set_id) (\<lambda>d.
     map_err NotFound (store_get_registry_address (sv_store sv) d))"

definition get_fees :: "('p, 'x, 'f, 'o, 'd) service \<Rightarrow> u64 \<times> u64" where
  "get_fees sv = (cf_min_sats_per_user (sv_config sv), cf_merchant_registration_fee (sv_config sv))"

record merchant_entry =
  me_name :: str
  me_origin :: str
  me_credential_generator :: bytes

definition merchant_entry_of :: "merchant_info \<Rightarrow> merchant_entry" where
  "merchant_entry_of info =
     \<lparr>me_name = m_name (mi_merchant info), me_origin = m_origin (mi_merchant info),
      me_credential_generator = m_credential_generator (mi_merchant info)\<rparr>"

text \<open>\<open>HashMap::values\<close> has no order: the response is any list of the entries of the pool.\<close>

definition get_merchants :: "('p, 'x, 'f, 'o, 'd) service \<Rightarrow> merchant_entry set" where
  "get_merchants sv = merchant_entry_of ` ran (st_merchant_pool (sv_store sv))"

definition reset_store :: "('p, 'x, 'f, 'o, 'd) service \<Rightarrow> ('p, 'x, 'f, 'o, 'd) service" where
  "reset_store sv =
     sv\<lparr>sv_store := (sv_store sv)\<lparr>st_merchant_pool := Map.empty, st_active_sets := Map.empty\<rparr>\<rparr>"

definition reset_registry ::
    "('s, 'p) backend \<Rightarrow> ('k, 'x) btc \<Rightarrow> bytes \<Rightarrow> ('p, 'x, 'f, 'o, 'd) service \<Rightarrow>
      ('p, 'x, 'f, 'o, 'd) service \<times> (status + unit)" where
  "reset_registry B T sk_bytes sv =
     (case registry_new B T sk_bytes (cf_beneficiary_capacity (sv_config sv))
             (cf_min_sats_per_user (sv_config sv)) of
        Inl e \<Rightarrow> (sv, Inl (Crash e))
      | Inr r \<Rightarrow> (sv\<lparr>sv_registry := r\<rparr>, Inr ()))"

definition reset ::
    "('s, 'p) backend \<Rightarrow> ('k, 'x) btc \<Rightarrow> bytes \<Rightarrow> ('p, 'x, 'f, 'o, 'd) service \<Rightarrow>
      ('p, 'x, 'f, 'o, 'd) service \<times> (status + unit)" where
  "reset B T sk_bytes sv = reset_registry B T sk_bytes (reset_store sv)"

text \<open>\<open>subscribe_set_finalization\<close>: poll the store every two seconds until the set exists,
  then answer with its padded commitments. \<open>snapshots i\<close> is the service when poll \<open>i\<close>
  holds the lock; the fuel bounds the polls. The spawned task waits for the value of the watch
  channel to become true, unless the set was finalized already: \<open>watched j\<close> is what \<open>changed\<close>
  answers for the \<open>j\<close>-th time, the new value, or \<open>None\<close> when the sender is dropped, upon which
  the task ends. Then it reads the store again, at the time of \<open>later\<close>, and sends nothing if the
  set is gone. The outer \<open>None\<close> of the result is a task that still waits.\<close>

fun subscribe_poll :: "nat \<Rightarrow> (nat \<Rightarrow> ('p, 'x, 'f, 'o, 'd) service) \<Rightarrow> nat \<Rightarrow> bytes \<Rightarrow> nat option" where
  "subscribe_poll 0 snapshots i d = None"
| "subscribe_poll (Suc fuel) snapshots i d =
     (if st_active_sets (sv_store (snapshots i)) d \<noteq> None then Some i
      else subscribe_poll fuel snapshots (i + 1) d)"

fun watch_wait :: "nat \<Rightarrow> bool \<Rightarrow> (nat \<Rightarrow> bool option) \<Rightarrow> nat \<Rightarrow> bool option" where
  "watch_wait fuel value_seen watched j =
     (if value_seen then Some True
      else case fuel of
          0 \<Rightarrow> None
        | Suc fuel' \<Rightarrow> (case watched j of None \<Rightarrow> Some False | Some v \<Rightarrow> watch_wait fuel' v watched (j + 1)))"

declare watch_wait.simps [simp del]

definition subscription_message ::
    "('s, 'p) backend \<Rightarrow> ('p, 'x, 'f, 'o, 'd) service \<Rightarrow> bytes \<Rightarrow> set_response option" where
  "subscription_message B later d =
     (case st_active_sets (sv_store later) d of
        None \<Rightarrow> None
      | Some active_set \<Rightarrow>
         (let raw = rg_anonymity_set (ac_registry active_set) in
          Some \<lparr>sr_commitments = pad_commitments (N_of B) raw, sr_finalized = True,
                sr_count = word_of_nat (beneficiary_count (ac_registry active_set)),
                sr_capacity = word_of_nat (ac_beneficiary_capacity active_set)\<rparr>))"

definition subscribe_set_finalization ::
    "('s, 'p) backend \<Rightarrow> nat \<Rightarrow> (nat \<Rightarrow> ('p, 'x, 'f, 'o, 'd) service) \<Rightarrow> nat \<Rightarrow> (nat \<Rightarrow> bool option) \<Rightarrow> bytes \<Rightarrow>
      status + set_response option option" where
  "subscribe_set_finalization B fuel snapshots delay watched set_id =
     rbind (parse_array 32 ''set_id must be 32 bytes'' set_id) (\<lambda>d.
     Inr (case subscribe_poll fuel snapshots 0 d of
            None \<Rightarrow> None
          | Some i \<Rightarrow>
             (case st_active_sets (sv_store (snapshots i)) d of
                None \<Rightarrow> None
              | Some active_set \<Rightarrow>
                 (case if ac_finalized active_set then Some True
                       else watch_wait fuel (ac_finalization_tx active_set) watched 0 of
                    None \<Rightarrow> None
                  | Some False \<Rightarrow> Some None
                  | Some True \<Rightarrow> Some (subscription_message B (snapshots (i + delay)) d)))))"

section \<open>Interleavings\<close>

text \<open>One step is one critical section of a handler; the requests of the parts may come from
  different calls. Two more steps are of the environment: the node answers differently from now
  on (\<open>NodeAnswers\<close>), and a \<open>finalize_set\<close> is dropped after its first lock (\<open>SetupOnly\<close>).\<close>

definition finalize_setup :: "('s, 'p) backend \<Rightarrow> ('p, 'x, 'f, 'o, 'd) service \<Rightarrow> ('p, 'x, 'f, 'o, 'd) service" where
  "finalize_setup B sv = sv\<lparr>sv_registry := registry_setup B (sv_registry sv)\<rparr>"

definition node_answers :: "('f, 'o) client \<Rightarrow> ('p, 'x, 'f, 'o, 'd) service \<Rightarrow> ('p, 'x, 'f, 'o, 'd) service" where
  "node_answers c sv =
     (let w = st_wallet (sv_store sv)
      in sv\<lparr>sv_store := (sv_store sv)\<lparr>st_wallet := w\<lparr>wl_client := map_option (\<lambda>_. c) (wl_client w)\<rparr>\<rparr>\<rparr>)"

datatype ('f, 'o) section_event =
    MerchantStore merchant_message
  | MerchantRegistry merchant_message
  | BeneficiaryInsert bytes outpoint
  | Finalize bytes
  | ResetStore
  | ResetRegistry bytes
  | SetupOnly
  | NodeAnswers "('f, 'o) client"

definition section_step ::
    "('s, 'p) backend \<Rightarrow> ('k, 'x) btc \<Rightarrow> 'd db_ops \<Rightarrow> ('p, 'x, 'f, 'o, 'd) service \<Rightarrow>
      ('f, 'o) section_event \<Rightarrow>
      ('p, 'x, 'f, 'o, 'd) service" where
  "section_step B T D sv e =
     (case e of
        MerchantStore q \<Rightarrow> fst (register_merchant_store B D sv q)
      | MerchantRegistry q \<Rightarrow> fst (register_merchant_registry B sv q)
      | BeneficiaryInsert phi op \<Rightarrow> fst (register_beneficiary_insert sv phi op)
      | Finalize d \<Rightarrow> fst (finalize_set B T D sv d)
      | ResetStore \<Rightarrow> reset_store sv
      | ResetRegistry sk \<Rightarrow> fst (reset_registry B T sk sv)
      | SetupOnly \<Rightarrow> finalize_setup B sv
      | NodeAnswers c \<Rightarrow> node_answers c sv)"

text \<open>What holds between any two critical sections: the pending set is duplicate-free and within
  the capacity, the registry is well-formed, and every finalized set is such a registry whose
  CRS covers all its merchants.\<close>

definition pending_ok :: "('s, 'p) backend \<Rightarrow> nat \<Rightarrow> ('p, 'x) registry \<Rightarrow> bool" where
  "pending_ok B capacity r \<longleftrightarrow>
     distinct (rg_anonymity_set r) \<and> beneficiary_count r \<le> capacity \<and> registry_ok B r"

definition finalized_ok :: "('s, 'p) backend \<Rightarrow> nat \<Rightarrow> ('p, 'x) active_set \<Rightarrow> bool" where
  "finalized_ok B capacity a \<longleftrightarrow>
     pending_ok B capacity (ac_registry a) \<and> rg_anonymity_set (ac_registry a) \<noteq> [] \<and>
     rg_crs (ac_registry a) = crs_setup B (rg_merchants (ac_registry a)) (rg_set_size (ac_registry a)) \<and>
     ac_finalized a \<and> ac_beneficiary_capacity a = capacity"

definition service_ok :: "('s, 'p) backend \<Rightarrow> ('p, 'x, 'f, 'o, 'd) service \<Rightarrow> bool" where
  "service_ok B sv \<longleftrightarrow>
     pending_ok B (cf_beneficiary_capacity (sv_config sv)) (sv_registry sv) \<and>
     (\<forall>d a. st_active_sets (sv_store sv) d = Some a \<longrightarrow>
        finalized_ok B (cf_beneficiary_capacity (sv_config sv)) a)"

lemma store_add_merchant_frame:
  "st_active_sets (fst (store_add_merchant B D st n og em ph outp fee)) = st_active_sets st"
  "st_wallet (fst (store_add_merchant B D st n og em ph outp fee)) = st_wallet st"
  by (simp_all add: store_add_merchant_def Let_def split: sum.split option.split)

lemma registry_step_ok: "registry_ok B r \<Longrightarrow> registry_ok B (registry_step B r e)"
  by (rule registry_runs.step_inv)

lemma registry_add_merchant_ok: "registry_ok B r \<Longrightarrow> registry_ok B (fst (registry_add_merchant r m))"
  using registry_step_ok [of B r "AddMerchant m"] by (simp add: registry_step_def)

lemma registry_add_beneficiary_ok:
  "registry_ok B r \<Longrightarrow> registry_ok B (fst (registry_add_beneficiary r phi op))"
  using registry_step_ok [of B r "AddBeneficiary phi op"] by (simp add: registry_step_def)

lemma registry_setup_ok: "registry_ok B r \<Longrightarrow> registry_ok B (registry_setup B r)"
  using registry_step_ok [of B r Setup] by (simp add: registry_step_def)

lemma pending_ok_new: "registry_new B T sk n a = Inr r \<Longrightarrow> pending_ok B cap r"
  by (auto simp: pending_ok_def registry_new_ok)
    (auto simp: registry_new_def rbind_Inr_iff beneficiary_count_def)

lemma create_anonymity_set_registry:
  "create_anonymity_set T r fund = Inr (r', out) \<Longrightarrow>
     (\<exists>d. r' = r\<lparr>rg_set_id := d\<rparr>) \<and> ((\<exists>c. out = Inr c) \<longrightarrow> rg_anonymity_set r \<noteq> [])"
  by (cases r) (auto simp: create_anonymity_set_def Let_def rbind_Inr_iff split: if_splits)

lemma store_create_tx_frame:
  assumes "store_create_tx T D st r cap sats = (st', r', out)"
  shows "(\<exists>d. r' = r\<lparr>rg_set_id := d\<rparr>) \<and>
    (st_active_sets st' = st_active_sets st \<or>
     (\<exists>txid. rg_anonymity_set r \<noteq> [] \<and> st_active_sets st' = (st_active_sets st)(txid \<mapsto>
        \<lparr>ac_registry = r', ac_beneficiary_capacity = cap, ac_sats_per_user = sats, ac_finalized = True, ac_finalization_tx = True\<rparr>))) \<and>
    st_merchant_pool st' = st_merchant_pool st \<and> st_wallet st' = st_wallet st"
proof -
  have same: "\<exists>d. r = r\<lparr>rg_set_id := d\<rparr>"
    by (intro exI [of _ "rg_set_id r"]) simp
  show ?thesis
    using assms same
    by (auto simp: store_create_tx_def Let_def dest!: create_anonymity_set_registry
        split: sum.splits list.splits option.splits) (rule exI, rule refl)+
qed

lemma pending_ok_set_id: "pending_ok B cap (r\<lparr>rg_set_id := d\<rparr>) \<longleftrightarrow> pending_ok B cap r"
  by (simp add: pending_ok_def registry_ok_def beneficiary_count_def)

lemma pending_ok_setup: "pending_ok B cap r \<Longrightarrow> pending_ok B cap (registry_setup B r)"
  by (simp add: pending_ok_def registry_setup_ok) (simp add: registry_setup_def beneficiary_count_def)

lemma service_ok_finalize:
  assumes "service_ok B sv"
  shows "service_ok B (fst (finalize_set B T D sv d))"
proof -
  let ?r = "registry_setup B (sv_registry sv)"
  let ?cap = "cf_beneficiary_capacity (sv_config sv)"
  have pending: "pending_ok B ?cap ?r"
    using assms by (simp add: service_ok_def pending_ok_setup)
  obtain st r out where tx: "store_create_tx T D (sv_store sv) ?r ?cap (cf_min_sats_per_user (sv_config sv)) = (st, r, out)"
    by (cases "store_create_tx T D (sv_store sv) ?r ?cap (cf_min_sats_per_user (sv_config sv))")
  from store_create_tx_frame [OF tx] obtain i where r: "r = ?r\<lparr>rg_set_id := i\<rparr>" by blast
  have "finalized_ok B ?cap a" if "st_active_sets st x = Some a" for x a
    using store_create_tx_frame [OF tx] that assms pending
    by (auto simp: finalized_ok_def service_ok_def r pending_ok_set_id split: if_splits)
      (simp_all add: registry_setup_def)
  moreover have "pending_ok B ?cap r"
    using pending by (simp add: r pending_ok_set_id)
  ultimately show ?thesis
    using assms
    by (auto simp: finalize_set_def tx service_ok_def split: sum.splits)
qed

lemma service_ok_step: "service_ok B sv \<Longrightarrow> service_ok B (section_step B T D sv e)"
proof (cases e)
  case (MerchantStore q)
  assume ok: "service_ok B sv"
  then show ?thesis
    by (auto simp: section_step_def MerchantStore register_merchant_store_def Let_def service_ok_def
        store_add_merchant_frame split: sum.splits prod.splits)
      (metis fst_conv store_add_merchant_frame(1))+
next
  case (MerchantRegistry q)
  assume "service_ok B sv"
  then have "pending_ok B (cf_beneficiary_capacity (sv_config sv)) (fst (registry_add_merchant (sv_registry sv) m))" for m
    by (simp add: service_ok_def pending_ok_def registry_add_merchant_ok)
      (simp add: registry_add_merchant_def Let_def beneficiary_count_def)
  with \<open>service_ok B sv\<close> show ?thesis
    by (auto simp: section_step_def MerchantRegistry register_merchant_registry_def service_ok_def
        simp del: merchant_new_Inr split: sum.splits prod.splits) (metis fst_conv)
next
  case (BeneficiaryInsert phi outp)
  assume "service_ok B sv"
  then have "pending_ok B (cf_beneficiary_capacity (sv_config sv))
      (fst (registry_add_beneficiary (sv_registry sv) phi outp))"
    if "beneficiary_count (sv_registry sv) < cf_beneficiary_capacity (sv_config sv)"
      "phi \<notin> set (rg_anonymity_set (sv_registry sv))"
    using that by (simp add: service_ok_def pending_ok_def registry_add_beneficiary_ok)
      (simp add: registry_add_beneficiary_def Let_def beneficiary_count_def)
  with \<open>service_ok B sv\<close> show ?thesis
    by (auto simp: section_step_def BeneficiaryInsert register_beneficiary_insert_def service_ok_def Let_def
        split: prod.splits)
next
  case (Finalize d)
  assume "service_ok B sv"
  then show ?thesis
    by (simp add: section_step_def Finalize service_ok_finalize)
next
  case (ResetRegistry sk)
  assume "service_ok B sv"
  then show ?thesis
    by (auto simp: section_step_def ResetRegistry reset_registry_def service_ok_def pending_ok_new
        split: sum.splits)
next
  case SetupOnly
  assume "service_ok B sv"
  then show ?thesis
    by (simp add: section_step_def SetupOnly service_ok_def finalize_setup_def pending_ok_setup)
qed (auto simp: section_step_def reset_store_def service_ok_def node_answers_def Let_def)

lemma section_step_config: "sv_config (section_step B T D sv e) = sv_config sv"
  by (cases e) (auto simp: section_step_def register_merchant_store_def register_merchant_registry_def
      register_beneficiary_insert_def finalize_set_def reset_store_def reset_registry_def finalize_setup_def
      node_answers_def Let_def split: sum.splits prod.splits)

interpretation service_runs: growing_system "section_step B T D" "service_ok B"
    "\<lambda>sv sv'. sv_config sv' = sv_config sv"
  for B :: "('s, 'p) backend" and T :: "('k, 'x) btc" and D :: "'d db_ops"
  by unfold_locales (auto simp: service_ok_step section_step_config)

end
