(* ===== verification/Database.thy ===== *)
theory Database
  imports Service "HOL-Library.List_Lexorder" "HOL-Library.Product_Lexorder"
begin

text \<open>
  \<open>src/src/registry/db.rs\<close>: the tables of the registry's database, the statements that write
  and read them, and the tables as the database of the store. A table is the list of its rows in
  order of insertion; an INTEGER column is its 64 bits, a TEXT its UTF-8 bytes, a BLOB its bytes.
  SQLite's own failures (a locked or full disk) are not modelled here: theory Store takes the
  results of the statements as parameters. The hex crate is the argument \<open>enc\<close> (and \<open>dec\<close>).
\<close>

section \<open>Tables\<close>

record merchant_row =
  mr_name :: str
  mr_origin :: str
  mr_email :: str
  mr_phone :: str

record set_table_row =
  st_set_id :: str
  st_capacity :: u64
  st_sats :: u64
  st_final :: u64
  st_txid :: "str option"

record set_merchant_row =
  sm_set_id :: str
  sm_position :: u64
  sm_name :: str

record commitment_table_row =
  ct_set_id :: str
  ct_idx :: u64
  ct_phi :: bytes
  ct_txid :: bytes
  ct_vout :: u32

record db =
  tb_merchants :: "merchant_row list"
  tb_sets :: "set_table_row list"
  tb_set_merchants :: "set_merchant_row list"
  tb_commitments :: "commitment_table_row list"
  tb_wallet :: "str option"

text \<open>\<open>CREATE TABLE IF NOT EXISTS\<close>: a new file has empty tables, an old one keeps its rows.\<close>

definition create_tables :: "db option \<Rightarrow> db" where
  "create_tables file =
     (case file of
        None \<Rightarrow> \<lparr>tb_merchants = [], tb_sets = [], tb_set_merchants = [], tb_commitments = [], tb_wallet = None\<rparr>
      | Some d \<Rightarrow> d)"

datatype sql_error = ForeignKeyViolation | InvalidColumnType nat string

section \<open>Writing\<close>

text \<open>\<open>INSERT OR IGNORE\<close>: a row whose primary key exists is skipped. The references of a row
  that is inserted must exist (\<open>PRAGMA foreign_keys=ON\<close>), and \<open>OR IGNORE\<close> does not cover
  that.\<close>

definition insert_or_ignore :: "('r \<Rightarrow> 'k) \<Rightarrow> 'r \<Rightarrow> 'r list \<Rightarrow> 'r list" where
  "insert_or_ignore pk r rows = (if pk r \<in> pk ` set rows then rows else rows @ [r])"

definition save_merchant :: "db \<Rightarrow> str \<Rightarrow> str \<Rightarrow> str \<Rightarrow> str \<Rightarrow> db" where
  "save_merchant d name origin email phone =
     d\<lparr>tb_merchants := insert_or_ignore mr_name
         \<lparr>mr_name = name, mr_origin = origin, mr_email = email, mr_phone = phone\<rparr> (tb_merchants d)\<rparr>"

definition sm_key :: "set_merchant_row \<Rightarrow> str \<times> u64" where
  "sm_key r = (sm_set_id r, sm_position r)"

definition ct_key :: "commitment_table_row \<Rightarrow> str \<times> u64" where
  "ct_key r = (ct_set_id r, ct_idx r)"

definition insert_set_merchant :: "db \<Rightarrow> set_merchant_row \<Rightarrow> sql_error + db" where
  "insert_set_merchant d r =
     (if sm_key r \<notin> sm_key ` set (tb_set_merchants d) \<and>
         (sm_set_id r \<notin> st_set_id ` set (tb_sets d) \<or> sm_name r \<notin> mr_name ` set (tb_merchants d))
      then Inl ForeignKeyViolation
      else Inr (d\<lparr>tb_set_merchants := insert_or_ignore sm_key r (tb_set_merchants d)\<rparr>))"

fun insert_set_merchants :: "str \<Rightarrow> nat \<Rightarrow> str list \<Rightarrow> db \<Rightarrow> db \<times> (sql_error + unit)" where
  "insert_set_merchants set_id_hex pos [] d = (d, Inr ())"
| "insert_set_merchants set_id_hex pos (name # names) d =
     (case insert_set_merchant d
             \<lparr>sm_set_id = set_id_hex, sm_position = word_of_nat pos, sm_name = name\<rparr> of
        Inl e \<Rightarrow> (d, Inl e)
      | Inr d' \<Rightarrow> insert_set_merchants set_id_hex (pos + 1) names d')"

text \<open>There is no transaction: an error leaves the rows written so far.\<close>

definition save_set ::
    "(bytes \<Rightarrow> str) \<Rightarrow> db \<Rightarrow> bytes \<Rightarrow> nat \<Rightarrow> u64 \<Rightarrow> str list \<Rightarrow> db \<times> (sql_error + unit)" where
  "save_set enc d set_id beneficiary_capacity sats_per_user merchant_names =
     (let set_id_hex = enc set_id;
          d1 = d\<lparr>tb_sets := insert_or_ignore st_set_id
                 \<lparr>st_set_id = set_id_hex, st_capacity = word_of_nat beneficiary_capacity,
                  st_sats = sats_per_user, st_final = 0, st_txid = None\<rparr> (tb_sets d)\<rparr>
      in insert_set_merchants set_id_hex 0 merchant_names d1)"

definition save_commitment ::
    "(bytes \<Rightarrow> str) \<Rightarrow> db \<Rightarrow> bytes \<Rightarrow> nat \<Rightarrow> bytes \<Rightarrow> outpoint \<Rightarrow> sql_error + db" where
  "save_commitment enc d set_id idx phi outpoint =
     (let r = \<lparr>ct_set_id = enc set_id, ct_idx = word_of_nat idx, ct_phi = phi,
               ct_txid = op_txid outpoint, ct_vout = op_vout outpoint\<rparr> in
      if ct_key r \<notin> ct_key ` set (tb_commitments d) \<and> ct_set_id r \<notin> st_set_id ` set (tb_sets d)
      then Inl ForeignKeyViolation
      else Inr (d\<lparr>tb_commitments := insert_or_ignore ct_key r (tb_commitments d)\<rparr>))"

definition save_wallet_mnemonic :: "db \<Rightarrow> str \<Rightarrow> db" where
  "save_wallet_mnemonic d mnemonic =
     (case tb_wallet d of None \<Rightarrow> d\<lparr>tb_wallet := Some mnemonic\<rparr> | Some _ \<Rightarrow> d)"

definition load_wallet_mnemonic :: "db \<Rightarrow> str option" where
  "load_wallet_mnemonic d = tb_wallet d"

text \<open>An \<open>UPDATE\<close> that matches no row is not an error.\<close>

definition mark_row :: "str \<Rightarrow> str option \<Rightarrow> set_table_row \<Rightarrow> set_table_row" where
  "mark_row set_id_hex txid r =
     (if st_set_id r = set_id_hex then r\<lparr>st_final := 1, st_txid := txid\<rparr> else r)"

lemma mark_row_id [simp]: "st_set_id (mark_row i t r) = st_set_id r"
  by (simp add: mark_row_def)

definition mark_set_finalized :: "(bytes \<Rightarrow> str) \<Rightarrow> db \<Rightarrow> bytes \<Rightarrow> str option \<Rightarrow> db" where
  "mark_set_finalized enc d set_id commitment_txid =
     (let set_id_hex = enc set_id in
      d\<lparr>tb_sets := map (mark_row set_id_hex commitment_txid) (tb_sets d)\<rparr>)"

section \<open>Reading\<close>

record set_row =
  sw_set_id :: bytes
  sw_beneficiary_capacity :: nat
  sw_sats_per_user :: u64
  sw_finalized :: bool
  sw_merchant_names :: "str list"

record commitment_row =
  cw_set_id :: bytes
  cw_idx :: nat
  cw_phi :: bytes
  cw_txid :: bytes
  cw_vout :: u32

record db_state =
  ds_merchants :: "merchant_row list"
  ds_sets :: "set_row list"
  ds_commitments :: "commitment_row list"

definition column_array :: "nat \<Rightarrow> string \<Rightarrow> nat \<Rightarrow> bytes \<Rightarrow> sql_error + bytes" where
  "column_array col name n b = ok_or (try_into_array n b) (InvalidColumnType col name)"

definition load_merchants :: "db \<Rightarrow> merchant_row list" where
  "load_merchants d = tb_merchants d"

definition set_merchant_names :: "db \<Rightarrow> str \<Rightarrow> str list" where
  "set_merchant_names d set_id_hex =
     map sm_name (sort_key (\<lambda>r. sint (sm_position r))
       (filter (\<lambda>r. sm_set_id r = set_id_hex) (tb_set_merchants d)))"

definition load_set :: "(str \<Rightarrow> bytes option) \<Rightarrow> db \<Rightarrow> set_table_row \<Rightarrow> sql_error + set_row" where
  "load_set dec d r =
     rbind (ok_or (dec (st_set_id r)) (InvalidColumnType 0 ''set_id'')) (\<lambda>b.
     rbind (column_array 0 ''set_id'' 32 b) (\<lambda>set_id.
     Inr \<lparr>sw_set_id = set_id, sw_beneficiary_capacity = unat (st_capacity r), sw_sats_per_user = st_sats r,
          sw_finalized = (st_final r \<noteq> 0), sw_merchant_names = set_merchant_names d (st_set_id r)\<rparr>))"

definition load_sets :: "(str \<Rightarrow> bytes option) \<Rightarrow> db \<Rightarrow> sql_error + set_row list" where
  "load_sets dec d = collect_res (load_set dec d) (tb_sets d)"

definition load_commitment :: "(str \<Rightarrow> bytes option) \<Rightarrow> commitment_table_row \<Rightarrow> sql_error + commitment_row" where
  "load_commitment dec r =
     rbind (ok_or (dec (ct_set_id r)) (InvalidColumnType 0 ''set_id'')) (\<lambda>b.
     rbind (column_array 0 ''set_id'' 32 b) (\<lambda>set_id.
     rbind (column_array 2 ''phi'' 33 (ct_phi r)) (\<lambda>phi.
     rbind (column_array 3 ''txid'' 32 (ct_txid r)) (\<lambda>txid.
     Inr \<lparr>cw_set_id = set_id, cw_idx = unat (ct_idx r), cw_phi = phi, cw_txid = txid, cw_vout = ct_vout r\<rparr>))))"

definition load_commitments :: "(str \<Rightarrow> bytes option) \<Rightarrow> db \<Rightarrow> sql_error + commitment_row list" where
  "load_commitments dec d =
     collect_res (load_commitment dec) (sort_key (\<lambda>r. (ct_set_id r, sint (ct_idx r))) (tb_commitments d))"

definition load_state :: "(str \<Rightarrow> bytes option) \<Rightarrow> db \<Rightarrow> sql_error + db_state" where
  "load_state dec d =
     (let merchants = load_merchants d in
      rbind (load_sets dec d) (\<lambda>sets.
      rbind (load_commitments dec d) (\<lambda>commitments.
      Inr \<lparr>ds_merchants = merchants, ds_sets = sets, ds_commitments = commitments\<rparr>)))"

section \<open>Integrity\<close>

datatype db_op =
    SaveMerchant str str str str
  | SaveSet bytes nat u64 "str list"
  | SaveCommitment bytes nat bytes outpoint
  | SaveMnemonic str
  | MarkFinalized bytes "str option"

definition db_step :: "(bytes \<Rightarrow> str) \<Rightarrow> db \<Rightarrow> db_op \<Rightarrow> db" where
  "db_step enc d e =
     (case e of
        SaveMerchant n og em ph \<Rightarrow> save_merchant d n og em ph
      | SaveSet i c s names \<Rightarrow> fst (save_set enc d i c s names)
      | SaveCommitment i k phi outp \<Rightarrow> (case save_commitment enc d i k phi outp of Inl _ \<Rightarrow> d | Inr d' \<Rightarrow> d')
      | SaveMnemonic m \<Rightarrow> save_wallet_mnemonic d m
      | MarkFinalized i t \<Rightarrow> mark_set_finalized enc d i t)"

text \<open>Primary keys are unique, references point to rows that exist.\<close>

definition db_ok :: "db \<Rightarrow> bool" where
  "db_ok d \<longleftrightarrow>
     distinct (map mr_name (tb_merchants d)) \<and> distinct (map st_set_id (tb_sets d)) \<and>
     distinct (map sm_key (tb_set_merchants d)) \<and> distinct (map ct_key (tb_commitments d)) \<and>
     (\<forall>r\<in>set (tb_set_merchants d). sm_set_id r \<in> st_set_id ` set (tb_sets d) \<and>
        sm_name r \<in> mr_name ` set (tb_merchants d)) \<and>
     (\<forall>r\<in>set (tb_commitments d). ct_set_id r \<in> st_set_id ` set (tb_sets d))"

lemma insert_or_ignore_set: "set (insert_or_ignore pk r rows) \<subseteq> insert r (set rows)"
  by (auto simp: insert_or_ignore_def)

lemma insert_or_ignore_keys [simp]: "pk ` set (insert_or_ignore pk r rows) = insert (pk r) (pk ` set rows)"
  by (auto simp: insert_or_ignore_def)

lemma insert_or_ignore_distinct [simp]:
  "distinct (map pk (insert_or_ignore pk r rows)) \<longleftrightarrow> distinct (map pk rows)"
  by (auto simp: insert_or_ignore_def)

lemma insert_or_ignore_prefix: "prefix rows (insert_or_ignore pk r rows)"
  by (simp add: insert_or_ignore_def)

lemma insert_set_merchant_ok: "db_ok d \<Longrightarrow> insert_set_merchant d r = Inr d' \<Longrightarrow> db_ok d'"
  by (auto simp: insert_set_merchant_def insert_or_ignore_def db_ok_def split: if_splits)

lemma insert_set_merchants_ok: "db_ok d \<Longrightarrow> db_ok (fst (insert_set_merchants i k names d))"
  by (induction i k names d rule: insert_set_merchants.induct)
    (auto split: sum.split dest: insert_set_merchant_ok)

lemma insert_set_merchant_frame:
  "insert_set_merchant d r = Inr d' \<Longrightarrow> tb_merchants d' = tb_merchants d \<and> tb_sets d' = tb_sets d \<and>
     tb_commitments d' = tb_commitments d \<and> tb_wallet d' = tb_wallet d"
  by (auto simp: insert_set_merchant_def split: if_splits)

lemma insert_set_merchants_frame:
  "tb_merchants (fst (insert_set_merchants i k names d)) = tb_merchants d"
  "tb_sets (fst (insert_set_merchants i k names d)) = tb_sets d"
  "tb_commitments (fst (insert_set_merchants i k names d)) = tb_commitments d"
  "tb_wallet (fst (insert_set_merchants i k names d)) = tb_wallet d"
  by (induction i k names d rule: insert_set_merchants.induct)
    (auto split: sum.split dest: insert_set_merchant_frame)

lemma db_step_ok: "db_ok d \<Longrightarrow> db_ok (db_step enc d e)"
proof (cases e)
  case (SaveMerchant n og em ph)
  assume "db_ok d"
  then show ?thesis
    by (auto simp: db_step_def SaveMerchant save_merchant_def db_ok_def)
next
  case (SaveSet i c s names)
  assume "db_ok d"
  then have "db_ok (d\<lparr>tb_sets := insert_or_ignore st_set_id r (tb_sets d)\<rparr>)" for r
    by (auto simp: db_ok_def)
  then show ?thesis
    by (simp add: db_step_def SaveSet save_set_def Let_def insert_set_merchants_ok)
next
  case (SaveCommitment i k phi outp)
  assume "db_ok d"
  then show ?thesis
    by (auto simp: db_step_def SaveCommitment save_commitment_def Let_def db_ok_def insert_or_ignore_def)
next
  case (SaveMnemonic m)
  assume "db_ok d"
  then show ?thesis
    by (auto simp: db_step_def SaveMnemonic save_wallet_mnemonic_def db_ok_def split: option.split)
next
  case (MarkFinalized i t)
  then show "db_ok d \<Longrightarrow> ?thesis"
    by (simp add: db_step_def mark_set_finalized_def Let_def db_ok_def image_image o_def)
qed

text \<open>What no statement takes away: the rows of every table stay where they are, with all columns of
  a merchant, a set member and a commitment, and of a set all but the two that
  \<open>mark_set_finalized\<close> writes; a finalized set stays finalized; the first mnemonic stays.\<close>

definition set_columns :: "set_table_row \<Rightarrow> str \<times> u64 \<times> u64" where
  "set_columns r = (st_set_id r, st_capacity r, st_sats r)"

definition db_grows :: "db \<Rightarrow> db \<Rightarrow> bool" where
  "db_grows d d' \<longleftrightarrow>
     prefix (tb_merchants d) (tb_merchants d') \<and>
     prefix (map set_columns (tb_sets d)) (map set_columns (tb_sets d')) \<and>
     (\<forall>i<length (tb_sets d). st_final (tb_sets d ! i) \<noteq> 0 \<longrightarrow> st_final (tb_sets d' ! i) \<noteq> 0) \<and>
     prefix (tb_set_merchants d) (tb_set_merchants d') \<and>
     prefix (tb_commitments d) (tb_commitments d') \<and>
     (tb_wallet d \<noteq> None \<longrightarrow> tb_wallet d' = tb_wallet d)"

lemma set_columns_mark [simp]: "set_columns (mark_row i t r) = set_columns r"
  by (simp add: mark_row_def set_columns_def)

lemma mark_row_final [simp]: "st_final r \<noteq> 0 \<Longrightarrow> st_final (mark_row i t r) \<noteq> 0"
  by (simp add: mark_row_def)

lemma insert_or_ignore_nth: "i < length rows \<Longrightarrow> insert_or_ignore pk r rows ! i = rows ! i"
  by (simp add: insert_or_ignore_def nth_append)

lemma insert_set_merchants_grow: "prefix (tb_set_merchants d) (tb_set_merchants (fst (insert_set_merchants i k names d)))"
proof (induction i k names d rule: insert_set_merchants.induct)
  case (2 i k name names d)
  show ?case
  proof (cases "insert_set_merchant d \<lparr>sm_set_id = i, sm_position = word_of_nat k, sm_name = name\<rparr>")
    case (Inr d')
    then have "prefix (tb_set_merchants d) (tb_set_merchants d')"
      by (auto simp: insert_set_merchant_def insert_or_ignore_prefix split: if_splits)
    with 2 Inr show ?thesis
      by (auto intro: prefix_order.trans)
  qed simp
qed simp

lemma db_grows_trans:
  assumes "db_grows d d'" "db_grows d' d''"
  shows "db_grows d d''"
proof -
  have "length (tb_sets d) \<le> length (tb_sets d')"
    using assms(1) prefix_length_le by (fastforce simp: db_grows_def)
  with assms show ?thesis
    unfolding db_grows_def by (fastforce intro: prefix_order.trans)
qed

lemma db_step_grows: "db_grows d (db_step enc d e)"
proof (cases e)
  case (SaveMerchant n og em ph)
  then show ?thesis
    by (simp add: db_grows_def db_step_def save_merchant_def insert_or_ignore_prefix)
next
  case (SaveSet i c s names)
  then show ?thesis
    using insert_set_merchants_grow [of "d\<lparr>tb_sets := x\<rparr>" "enc i" 0 names for x]
    by (simp add: db_grows_def db_step_def save_set_def Let_def insert_set_merchants_frame
        insert_or_ignore_nth insert_or_ignore_prefix map_mono_prefix)
next
  case (SaveCommitment i k phi outp)
  then show ?thesis
    by (simp add: db_grows_def db_step_def save_commitment_def Let_def insert_or_ignore_prefix)
next
  case (SaveMnemonic m)
  then show ?thesis
    by (simp add: db_grows_def db_step_def save_wallet_mnemonic_def split: option.split)
next
  case (MarkFinalized i t)
  then show ?thesis
    by (simp add: db_grows_def db_step_def mark_set_finalized_def Let_def o_def)
qed

interpretation db_runs: growing_system "db_step enc" db_ok db_grows
  for enc
proof
  fix d :: db and e
  show "db_ok (db_step enc d e)" if "db_ok d"
    using that by (rule db_step_ok)
  show "db_grows d (db_step enc d e)"
    by (rule db_step_grows)
  show "db_grows d d"
    by (simp add: db_grows_def)
qed (rule db_grows_trans)

end
