(* ===== verification/Service_Properties.thy ===== *)
theory Service_Properties
  imports Service
begin

text \<open>
  Properties of the registry service and its store: what holds between any two critical
  sections, what each handler answers, what the clients read back, and how the two sections of
  a merchant registration interact with a reset.
\<close>

section \<open>A sample service\<close>

text \<open>A service without node and database over the sample crates, for the witnesses.\<close>

definition sample_wallet :: "(nat, unit) wallet" where
  "sample_wallet = \<lparr>wl_client = None, wl_mnemonic = [], wl_address = ascii ''addr'', wl_xonly = sample_key 9\<rparr>"

definition sample_store :: "(gf5, bytes, nat, unit, nat) store" where
  "sample_store = store_new sample_wallet None"

definition sample_service :: "(gf5, bytes, nat, unit, nat) service" where
  "sample_service =
     \<lparr>sv_store = sample_store,
      sv_registry = \<lparr>rg_crs = crs_setup sample [] 4, rg_merchants = [], rg_set_size = 4,
        rg_anonymity_set = [], rg_set_id = replicate 32 0, rg_keypair = sample_key 7, rg_amount = 1000,
        rg_outputs = []\<rparr>,
      sv_config = config_default, sv_state = Empty\<rparr>"

definition failing_db :: "nat db_ops" where
  "failing_db = \<lparr>db_save_merchant = (\<lambda>d n og em ph. Inl ''locked''), db_mark_set_finalized = (\<lambda>d i t. Inl ''locked'')\<rparr>"

lemma sample_service_new: "service_new sample sample_btc (sample_key 7) sample_store config_default = Inr sample_service"
  by (simp add: service_new_def registry_new_def config_default_def sample_service_def, simp add: sample_btc_def try_into_array_def)

lemma sample_service_ok: "service_ok sample sample_service"
  by (simp add: service_ok_def pending_ok_def beneficiary_count_def registry_ok_def sample_service_def
      sample_store_def store_new_def)

section \<open>Interleavings\<close>

text \<open>C5. What every request sees. From a new service over a store without sets, after any
  sequence of critical sections of any handlers, the pending set is duplicate-free and within
  the capacity, its merchants are numbered from 1, and every finalized set is non-empty,
  duplicate-free, within the capacity, and carries the CRS that \<open>Crs::setup\<close> derives from all
  its merchants.\<close>

theorem service_sections_safe:
  fixes sv :: "('p, 'x, 'f, 'o, 'd) service" and D :: "'d db_ops" and es :: "('f, 'o) section_event list"
  assumes "service_new B T sk st config = Inr sv" and "st_active_sets st = Map.empty"
  defines "now \<equiv> foldl (section_step B T D) sv es"
  shows "distinct (rg_anonymity_set (sv_registry now)) \<and>
    length (rg_anonymity_set (sv_registry now)) \<le> cf_beneficiary_capacity config \<and>
    (\<forall>i<length (rg_merchants (sv_registry now)). m_merchant_id (rg_merchants (sv_registry now) ! i) = i + 1) \<and>
    (\<forall>d a. st_active_sets (sv_store now) d = Some a \<longrightarrow>
       rg_anonymity_set (ac_registry a) \<noteq> [] \<and> distinct (rg_anonymity_set (ac_registry a)) \<and>
       length (rg_anonymity_set (ac_registry a)) \<le> cf_beneficiary_capacity config \<and>
       rg_crs (ac_registry a) = crs_setup B (rg_merchants (ac_registry a)) (rg_set_size (ac_registry a)))"
proof -
  have start: "service_ok B sv" "sv_config sv = config"
    using assms(1,2) by (auto simp: service_new_def rbind_Inr_iff service_ok_def pending_ok_new)
  have "service_ok B now"
    unfolding now_def by (rule service_runs.run_inv [OF start(1)])
  moreover have "sv_config now = config"
    using service_runs.run_le [OF start(1)] start(2) unfolding now_def by metis
  ultimately show ?thesis
    by (simp add: service_ok_def pending_ok_def finalized_ok_def registry_ok_def beneficiary_count_def)
qed

theorem service_sections_safe_witness:
  "length (rg_anonymity_set (sv_registry (foldl (section_step sample sample_btc failing_db) sample_service
     [BeneficiaryInsert sample_phi outpoint_null, BeneficiaryInsert sample_phi outpoint_null]))) \<le> 4"
  using service_sections_safe [OF sample_service_new, of failing_db
      "[BeneficiaryInsert sample_phi outpoint_null, BeneficiaryInsert sample_phi outpoint_null]"]
  by (simp add: sample_store_def store_new_def config_default_def)

section \<open>Registrations\<close>

text \<open>C30. A beneficiary registration succeeds exactly when the commitment has 33 bytes, the
  transaction id 32, the payment verifies at the configured fee, the pending set has room and
  does not hold the commitment yet; no point is decoded. Success appends the commitment and its
  outpoint and answers the index of the commitment; every error leaves the service as it was.\<close>

theorem register_beneficiary_outcome:
  "let outp = \<lparr>op_txid = rev (bm_funding_txid q), op_vout = bm_funding_vout q\<rparr>;
       r = sv_registry sv;
       accepted = (length (bm_phi q) = 33 \<and> length (bm_funding_txid q) = 32 \<and>
         verify_payment (st_wallet (sv_store sv)) outp (cf_min_sats_per_user (sv_config sv)) = Inr () \<and>
         length (rg_anonymity_set r) < cf_beneficiary_capacity (sv_config sv) \<and>
         bm_phi q \<notin> set (rg_anonymity_set r))
   in case register_beneficiary sv q of
        (sv', Inl e) \<Rightarrow> \<not> accepted \<and> sv' = sv
      | (sv', Inr i) \<Rightarrow> accepted \<and> i = word_of_nat (length (rg_anonymity_set r)) \<and>
          sv' = sv\<lparr>sv_registry := r\<lparr>rg_anonymity_set := rg_anonymity_set r @ [bm_phi q],
                                    rg_outputs := rg_outputs r @ [outp]\<rparr>\<rparr>"
  by (cases "verify_payment (st_wallet (sv_store sv))
        \<lparr>op_txid = rev (bm_funding_txid q), op_vout = bm_funding_vout q\<rparr> (cf_min_sats_per_user (sv_config sv))")
    (auto simp: register_beneficiary_def register_beneficiary_insert_def parse_array_def parse_txid_def
      Let_def ok_or_def try_into_array_def registry_add_beneficiary_def beneficiary_count_def)

text \<open>C38. One payment pays for all. The service does not remember which outputs have paid: with one
  output that verifies, any number of new commitments register, one after the other, until the set is
  full; the pending registry then lists the same outpoint for each.\<close>

theorem payment_reused:
  fixes sv :: "('p, 'x, 'f, 'o, 'd) service" and txid :: bytes and vout :: u32
  defines "outp \<equiv> \<lparr>op_txid = rev txid, op_vout = vout\<rparr>"
  defines "register \<equiv> \<lambda>(sv :: ('p, 'x, 'f, 'o, 'd) service) phi. fst (register_beneficiary sv \<lparr>bm_phi = phi, bm_funding_txid = txid, bm_funding_vout = vout\<rparr>)"
  assumes paid: "verify_payment (st_wallet (sv_store sv)) outp (cf_min_sats_per_user (sv_config sv)) = Inr ()"
    and shape: "length txid = 32" "\<forall>phi\<in>set phis. length phi = 33"
    and new: "distinct (rg_anonymity_set (sv_registry sv) @ phis)"
    and room: "length (rg_anonymity_set (sv_registry sv)) + length phis \<le> cf_beneficiary_capacity (sv_config sv)"
  shows "foldl register sv phis = sv\<lparr>sv_registry := (sv_registry sv)
    \<lparr>rg_anonymity_set := rg_anonymity_set (sv_registry sv) @ phis,
     rg_outputs := rg_outputs (sv_registry sv) @ replicate (length phis) outp\<rparr>\<rparr>"
  using paid shape(2) new room
proof (induction phis arbitrary: sv)
  case Nil
  then show ?case by simp
next
  case (Cons phi phis)
  let ?r = "sv_registry sv"
  let ?sv = "sv\<lparr>sv_registry := ?r\<lparr>rg_anonymity_set := rg_anonymity_set ?r @ [phi], rg_outputs := rg_outputs ?r @ [outp]\<rparr>\<rparr>"
  have "register sv phi = ?sv"
    using Cons.prems shape(1)
    by (simp add: register_def register_beneficiary_def parse_array_def parse_txid_def try_into_array_def Let_def
        outp_def register_beneficiary_insert_def beneficiary_count_def registry_add_beneficiary_def)
  moreover from Cons.prems have "foldl register ?sv phis = ?sv\<lparr>sv_registry := (sv_registry ?sv)
    \<lparr>rg_anonymity_set := rg_anonymity_set (sv_registry ?sv) @ phis,
     rg_outputs := rg_outputs (sv_registry ?sv) @ replicate (length phis) outp\<rparr>\<rparr>"
    by (intro Cons.IH) auto
  ultimately show ?case
    by (simp add: replicate_append_same [symmetric])
qed

text \<open>A node that knows one transaction with one output of 1000 satoshis to the registry.\<close>

definition paying_node :: "(nat, unit) client" where
  "paying_node =
     \<lparr>cl_getrawtransaction = (\<lambda>txid. if txid = replicate 32 1
        then Inr (JObj [(ascii ''vout'', JArr [JObj [(ascii ''value'', JNum 1000),
          (ascii ''scriptPubKey'', JObj [(ascii ''address'', JStr (ascii ''addr''))])]])])
        else Inl ''unknown''),
      cl_from_btc = (\<lambda>v. Inr (word_of_nat v)), cl_parse_mnemonic = (\<lambda>_. Inr ()), cl_create_wallet = Inr,
      cl_sync = Inr, cl_build_tx = (\<lambda>_ _ _. Inl ''no funds''), cl_sign = (\<lambda>_ _. Inl ''no funds''),
      cl_extract_tx = (\<lambda>_. Inl ''no funds''), cl_send = (\<lambda>_. Inl ''no funds'')\<rparr>"

definition paying_service :: "(gf5, bytes, nat, unit, nat) service" where
  "paying_service = sample_service\<lparr>sv_store := sample_store\<lparr>st_wallet := sample_wallet\<lparr>wl_client := Some paying_node\<rparr>\<rparr>\<rparr>"

theorem payment_reused_witness:
  "rg_outputs (sv_registry (foldl (\<lambda>sv phi. fst (register_beneficiary sv
       \<lparr>bm_phi = phi, bm_funding_txid = replicate 32 1, bm_funding_vout = 0\<rparr>)) paying_service
     [replicate 33 2, replicate 33 3, replicate 33 4])) = replicate 3 \<lparr>op_txid = replicate 32 1, op_vout = 0\<rparr>"
proof -
  have "verify_payment (st_wallet (sv_store paying_service)) \<lparr>op_txid = rev (replicate 32 1), op_vout = 0\<rparr>
      (cf_min_sats_per_user (sv_config paying_service)) = Inr ()"
    by (simp add: paying_service_def sample_service_def config_default_def sample_wallet_def verify_payment_def
        paying_node_def as_array_def as_str_def as_f64_def json_index_def ascii_def btc_value_to_sats_def)
  note reused = payment_reused [OF this]
  show ?thesis
    by (subst reused) (simp_all add: paying_service_def sample_service_def config_default_def numeral_3_eq_3)
qed

text \<open>A merchant registration succeeds exactly when the transaction id has 32 bytes, the name
  is new, the payment verifies at the merchant fee, the name has at most 255 bytes and the
  database, if there is one, stores the row; the merchant then gets the next id and is the last
  of the pending registry. Otherwise the pending registry is unchanged.\<close>

theorem register_merchant_outcome:
  "let outp = \<lparr>op_txid = rev (mm_funding_txid q), op_vout = mm_funding_vout q\<rparr>;
       st = sv_store sv;
       accepted = (length (mm_funding_txid q) = 32 \<and> st_merchant_pool st (mm_name q) = None \<and>
         verify_payment (st_wallet st) outp (cf_merchant_registration_fee (sv_config sv)) = Inr () \<and>
         length (mm_name q) \<le> 255 \<and>
         (case st_db st of None \<Rightarrow> True
          | Some conn \<Rightarrow> \<exists>conn'. db_save_merchant D conn (mm_name q) (mm_origin q) (mm_email q) (mm_phone q) = Inr conn'))
   in case register_merchant B D sv q of
        (sv', Inl e) \<Rightarrow> \<not> accepted \<and> sv_registry sv' = sv_registry sv
      | (sv', Inr i) \<Rightarrow> accepted \<and>
          (\<exists>m. merchant_new B (mm_name q) (mm_origin q) = Inr m \<and>
            rg_merchants (sv_registry sv') =
              rg_merchants (sv_registry sv) @ [m\<lparr>m_merchant_id := length (rg_merchants (sv_registry sv)) + 1\<rparr>] \<and>
            i = word_of_nat (length (rg_merchants (sv_registry sv)) + 1) \<and>
            map_option mi_merchant (st_merchant_pool (sv_store sv') (mm_name q)) = Some m)"
proof (cases "length (mm_name q) \<le> 255")
  case True
  then obtain m where "merchant_new B (mm_name q) (mm_origin q) = Inr m"
    using merchant_new_Inr by blast
  then show ?thesis
    by (cases "verify_payment (st_wallet (sv_store sv))
          \<lparr>op_txid = rev (mm_funding_txid q), op_vout = mm_funding_vout q\<rparr> (cf_merchant_registration_fee (sv_config sv))")
      (auto simp: True register_merchant_def register_merchant_store_def register_merchant_registry_def
        store_add_merchant_def parse_array_def parse_txid_def Let_def ok_or_def try_into_array_def
        registry_add_merchant_def simp del: merchant_new_Inr split: option.split sum.split)
next
  case False
  then show ?thesis
    by (cases "verify_payment (st_wallet (sv_store sv))
          \<lparr>op_txid = rev (mm_funding_txid q), op_vout = mm_funding_vout q\<rparr> (cf_merchant_registration_fee (sv_config sv))")
      (auto simp: register_merchant_def register_merchant_store_def
        store_add_merchant_def parse_array_def parse_txid_def Let_def ok_or_def try_into_array_def
        merchant_new_long split: option.split)
qed

section \<open>Sets\<close>

lemma finalize_stores:
  assumes "finalize_set B T D sv set_id = (sv', Inr txid)"
  shows "\<exists>a. st_active_sets (sv_store sv') = (st_active_sets (sv_store sv))(txid \<mapsto> a) \<and>
      ac_finalized a \<and> ac_beneficiary_capacity a = cf_beneficiary_capacity (sv_config sv) \<and>
      rg_anonymity_set (ac_registry a) = rg_anonymity_set (sv_registry sv) \<and>
      rg_anonymity_set (sv_registry sv) \<noteq> [] \<and>
      rg_crs (ac_registry a) = crs_setup B (rg_merchants (sv_registry sv)) (rg_set_size (sv_registry sv)) \<and>
      rg_anonymity_set (sv_registry sv') = rg_anonymity_set (sv_registry sv) \<and>
      rg_merchants (sv_registry sv') = rg_merchants (sv_registry sv)"
proof -
  let ?r = "registry_setup B (sv_registry sv)"
  let ?cap = "cf_beneficiary_capacity (sv_config sv)"
  obtain st r out where tx: "store_create_tx T D (sv_store sv) ?r ?cap (cf_min_sats_per_user (sv_config sv)) = (st, r, out)"
    by (cases "store_create_tx T D (sv_store sv) ?r ?cap (cf_min_sats_per_user (sv_config sv))")
  have len: "length set_id = 32"
    using assms by (auto simp: finalize_set_def parse_array_def try_into_array_def split: if_splits)
  then have sv': "sv' = sv\<lparr>sv_store := st, sv_registry := r\<rparr>" and out: "out = Inr txid"
    using assms by (auto simp: finalize_set_def parse_array_def try_into_array_def tx)
  obtain d where r: "r = ?r\<lparr>rg_set_id := d\<rparr>" and nonempty: "rg_anonymity_set ?r \<noteq> []"
    using tx out by (auto simp: store_create_tx_def Let_def dest!: create_anonymity_set_registry
        split: sum.splits list.splits option.splits)
  have "st_active_sets st = (st_active_sets (sv_store sv))(txid \<mapsto>
      \<lparr>ac_registry = r, ac_beneficiary_capacity = ?cap,
       ac_sats_per_user = cf_min_sats_per_user (sv_config sv), ac_finalized = True, ac_finalization_tx = True\<rparr>)"
    using tx out by (auto simp: store_create_tx_def Let_def split: sum.splits list.splits option.splits)
  then show ?thesis
    using nonempty
    by (intro exI [of _ "\<lparr>ac_registry = r, ac_beneficiary_capacity = ?cap,
       ac_sats_per_user = cf_min_sats_per_user (sv_config sv), ac_finalized = True, ac_finalization_tx = True\<rparr>"])
      (simp add: sv' r registry_setup_def)
qed

lemma finalize_ignores_id:
  "length set_id = 32 \<Longrightarrow> length other = 32 \<Longrightarrow> finalize_set B T D sv other = finalize_set B T D sv set_id"
  by (simp add: finalize_set_def parse_array_def try_into_array_def)

lemma finalize_success_id: "finalize_set B T D sv set_id = (sv', Inr txid) \<Longrightarrow> length set_id = 32"
  by (auto simp: finalize_set_def parse_array_def try_into_array_def split: if_splits)

text \<open>C31. What finalization does. A successful \<open>finalize_set\<close> stores, under the transaction id
  it answers, the whole pending set with the CRS of all its merchants, and touches no other set.
  It neither waits for the capacity to be reached nor clears the pending registry, whose members
  and merchants stay for the next set; the \<open>set_id\<close> of the request plays no part.\<close>

theorem finalize_set_outcome:
  assumes "finalize_set B T D sv set_id = (sv', Inr txid)"
  shows "\<exists>a. st_active_sets (sv_store sv') = (st_active_sets (sv_store sv))(txid \<mapsto> a) \<and>
      ac_finalized a \<and> ac_beneficiary_capacity a = cf_beneficiary_capacity (sv_config sv) \<and>
      rg_anonymity_set (ac_registry a) = rg_anonymity_set (sv_registry sv) \<and>
      rg_anonymity_set (ac_registry a) \<noteq> [] \<and>
      rg_crs (ac_registry a) = crs_setup B (rg_merchants (sv_registry sv)) (rg_set_size (sv_registry sv)) \<and>
      rg_anonymity_set (sv_registry sv') = rg_anonymity_set (sv_registry sv) \<and>
      rg_merchants (sv_registry sv') = rg_merchants (sv_registry sv) \<and>
      finalize_set B T D sv other = (if length other = 32 then (sv', Inr txid)
        else (sv, Inl (InvalidArgument ''set_id must be 32 bytes'')))"
  using finalize_stores [OF assms] finalize_ignores_id [OF finalize_success_id [OF assms], of other B T D sv] assms
  by (auto simp: finalize_set_def [of B T D sv other] parse_array_def ok_or_def try_into_array_def)

definition sample_full :: "(gf5, bytes, nat, unit, nat) service" where
  "sample_full = fst (register_beneficiary_insert sample_service sample_phi outpoint_null)"

lemma sample_full_sel:
  "sv_store sample_full = sample_store" "sv_config sample_full = config_default"
  "rg_anonymity_set (sv_registry sample_full) = [sample_phi]" "rg_merchants (sv_registry sample_full) = []"
  "rg_keypair (sv_registry sample_full) = sample_key 7" "rg_set_size (sv_registry sample_full) = 4"
  by (simp_all add: sample_full_def register_beneficiary_insert_def sample_service_def config_default_def
      beneficiary_count_def registry_add_beneficiary_def Let_def)

lemma sample_finalize:
  "\<exists>sv' txid. finalize_set sample sample_btc failing_db sample_full (replicate 32 0) = (sv', Inr txid)"
  by (simp add: finalize_set_def parse_array_def try_into_array_def store_create_tx_def create_anonymity_set_def
      Let_def merkle_root_singleton registry_setup_def sample_full_sel fund_and_broadcast_def)
    (simp add: sample_btc_def sample_store_def store_new_def sample_wallet_def fund_and_broadcast_def)

theorem finalize_set_outcome_witness:
  "\<exists>sv' txid a. finalize_set sample sample_btc failing_db sample_full (replicate 32 0) = (sv', Inr txid) \<and>
     st_active_sets (sv_store sv') txid = Some a \<and> rg_anonymity_set (ac_registry a) = [sample_phi] \<and>
     rg_anonymity_set (sv_registry sv') = [sample_phi]"
proof -
  obtain sv' txid where "finalize_set sample sample_btc failing_db sample_full (replicate 32 0) = (sv', Inr txid)"
    using sample_finalize by blast
  with finalize_set_outcome [OF this, of "[]"] show ?thesis
    by (auto simp: sample_full_sel)
qed

lemma pad_commitments_shape:
  "raw \<noteq> [] \<Longrightarrow> pad_commitments n raw = raw @ replicate (n - length raw) (last raw)"
  by (simp add: pad_commitments_def push_until_replicate)

text \<open>The published set. For a stored set the answer starts with the commitments in the order
  of registration and repeats the last one up to length \<open>N\<close>; it shows the same members, its
  length is \<open>N\<close> unless more than \<open>N\<close> members were let in, and the count is the true one.\<close>

theorem get_anonymity_set_response:
  assumes "service_ok B sv" and "st_active_sets (sv_store sv) d = Some a" and "length d = 32"
  shows "\<exists>resp. get_anonymity_set B sv d = Inr resp \<and>
    take (length (rg_anonymity_set (ac_registry a))) (sr_commitments resp) = rg_anonymity_set (ac_registry a) \<and>
    set (sr_commitments resp) = set (rg_anonymity_set (ac_registry a)) \<and>
    length (sr_commitments resp) = max (N_of B) (length (rg_anonymity_set (ac_registry a))) \<and>
    sr_finalized resp \<and> sr_count resp = word_of_nat (length (rg_anonymity_set (ac_registry a))) \<and>
    sr_capacity resp = word_of_nat (cf_beneficiary_capacity (sv_config sv))"
proof -
  have ok: "rg_anonymity_set (ac_registry a) \<noteq> []" "ac_finalized a"
      "ac_beneficiary_capacity a = cf_beneficiary_capacity (sv_config sv)"
    using assms by (auto simp: service_ok_def finalized_ok_def)
  then show ?thesis
    using assms(2,3) last_in_set [OF ok(1)]
    by (auto simp: get_anonymity_set_def parse_array_def try_into_array_def store_get_anonymity_set_def
        pad_commitments_shape beneficiary_count_def max_def)
qed

definition sample_finalized :: "(gf5, bytes, nat, unit, nat) service" where
  "sample_finalized = sample_full\<lparr>sv_store := sample_store\<lparr>st_active_sets := [replicate 32 5 \<mapsto>
     \<lparr>ac_registry = registry_setup sample (sv_registry sample_full), ac_beneficiary_capacity = 4,
      ac_sats_per_user = 1000, ac_finalized = True, ac_finalization_tx = True\<rparr>]\<rparr>\<rparr>"

lemma sample_full_ok: "service_ok sample sample_full"
  using service_ok_step [OF sample_service_ok, of sample_btc failing_db "BeneficiaryInsert sample_phi outpoint_null"]
  by (simp add: section_step_def sample_full_def)

lemma sample_finalized_ok: "service_ok sample sample_finalized"
proof -
  have "pending_ok sample 4 (sv_registry sample_full)"
    using sample_full_ok by (simp add: service_ok_def sample_full_sel config_default_def)
  then show ?thesis
    by (simp add: service_ok_def sample_finalized_def sample_full_sel config_default_def finalized_ok_def
        pending_ok_setup) (simp add: registry_setup_def sample_full_sel)
qed

theorem get_anonymity_set_response_witness:
  "\<exists>resp. get_anonymity_set sample sample_finalized (replicate 32 5) = Inr resp \<and>
     set (sr_commitments resp) = {sample_phi} \<and> length (sr_commitments resp) = 4"
  using get_anonymity_set_response [OF sample_finalized_ok, of "replicate 32 5"]
  by (auto simp: sample_finalized_def registry_setup_def sample_full_sel)

lemma crs_served:
  assumes "codec_laws B" and "st_active_sets (sv_store sv) d = Some a" and "length d = 32"
    and "wf_crs (crs_setup B ms n)" and "rg_crs (ac_registry a) = crs_setup B ms n"
  shows "\<exists>bs. get_crs B sv d = Inr bs \<and> crs_from_bytes B bs = Inr (crs_setup B (renumber 0 ms) n)"
proof -
  have "wire_crs (crs_setup B ms n) = crs_setup B (renumber 0 ms) n"
    by (simp add: wire_crs_def crs_setup_def)
  then show ?thesis
    using crs_round_trip_raw [OF assms(1,4), of "[]"] assms(2,3,5)
    by (simp add: get_crs_def parse_array_def try_into_array_def store_get_crs_def)
qed

text \<open>The published reference string. For every stored set, the bytes that \<open>get_crs\<close> answers
  decode, on the client's side, to the CRS of all merchants of the set, with the ids 1, 2, \<dots>,
  provided the merchants' fields fit the wire format.\<close>

theorem get_crs_decodes:
  assumes "codec_laws B" and "service_ok B sv" and "st_active_sets (sv_store sv) d = Some a"
    and "length d = 32" and "wf_crs (rg_crs (ac_registry a))"
  shows "\<exists>bs. get_crs B sv d = Inr bs \<and>
    crs_from_bytes B bs = Inr (crs_setup B (renumber 0 (rg_merchants (ac_registry a))) (rg_set_size (ac_registry a)))"
proof -
  have "rg_crs (ac_registry a) = crs_setup B (rg_merchants (ac_registry a)) (rg_set_size (ac_registry a))"
    using assms(2,3) by (auto simp: service_ok_def finalized_ok_def)
  then show ?thesis
    using crs_served [OF assms(1,3,4)] assms(5) by metis
qed

theorem get_crs_decodes_witness:
  "\<exists>bs. get_crs sample sample_finalized (replicate 32 5) = Inr bs \<and>
     crs_from_bytes sample bs = Inr (crs_setup sample [] 4)"
  using get_crs_decodes [OF sample_codec_laws sample_finalized_ok, of "replicate 32 5"]
  by (simp add: sample_finalized_def registry_setup_def sample_full_sel wf_crs_def)

lemma subscribe_poll_finds:
  "st_active_sets (sv_store (snapshots (i + k))) d \<noteq> None \<Longrightarrow> k < fuel \<Longrightarrow>
     \<exists>j\<ge>i. j \<le> i + k \<and> subscribe_poll fuel snapshots i d = Some j \<and>
       st_active_sets (sv_store (snapshots j)) d \<noteq> None"
proof (induction fuel arbitrary: i k)
  case (Suc fuel)
  show ?case
  proof (cases "st_active_sets (sv_store (snapshots i)) d = None")
    case True
    with Suc.prems have "k \<noteq> 0" by (cases k) auto
    then obtain k' where "k = Suc k'" by (cases k) auto
    with Suc.IH [of "Suc i" k'] Suc.prems True show ?thesis
      by (auto intro: Suc_leD)
  qed auto
qed simp

text \<open>The subscription delivers. If the set is stored at some poll, enough polls find it; no task waits
  for the watch channel, whatever it would show, since a stored set is finalized; and what the task then sends is the answer of \<open>get_anonymity_set\<close> at that later time, or nothing
  when a reset has removed the set in between.\<close>

theorem subscription_delivers:
  assumes "length d = 32" and "st_active_sets (sv_store (snapshots k)) d \<noteq> None" and "k < fuel"
    and "\<And>i. service_ok B (snapshots i)"
  shows "\<exists>i\<le>k. subscribe_set_finalization B fuel snapshots delay watched d =
      Inr (Some (case get_anonymity_set B (snapshots (i + delay)) d of Inl _ \<Rightarrow> None | Inr resp \<Rightarrow> Some resp))"
proof -
  obtain i a where i: "i \<le> k" "subscribe_poll fuel snapshots 0 d = Some i" "st_active_sets (sv_store (snapshots i)) d = Some a"
    using subscribe_poll_finds [of snapshots 0 k d fuel] assms(2,3) by auto
  have final: "ac_finalized a" if "st_active_sets (sv_store (snapshots j)) d = Some a" for a j
    using that assms(4) [of j] by (auto simp: service_ok_def finalized_ok_def)
  then have "subscription_message B (snapshots (i + delay)) d =
      (case get_anonymity_set B (snapshots (i + delay)) d of Inl _ \<Rightarrow> None | Inr resp \<Rightarrow> Some resp)"
    using assms(1)
    by (auto simp: subscription_message_def get_anonymity_set_def parse_array_def try_into_array_def
        store_get_anonymity_set_def Let_def split: option.split)
  with i final [OF i(3)] show ?thesis
    using assms(1)
    by (auto simp: subscribe_set_finalization_def parse_array_def try_into_array_def)
qed

theorem subscription_delivers_witness:
  "\<forall>watched. \<exists>i\<le>(2::nat). subscribe_set_finalization sample 3
      (\<lambda>i. if i < 2 then sample_full else sample_finalized) 0 watched (replicate 32 5) =
    Inr (Some (case get_anonymity_set sample ((\<lambda>i. if i < 2 then sample_full else sample_finalized) (i + 0))
      (replicate 32 5) of Inl _ \<Rightarrow> None | Inr resp \<Rightarrow> Some resp))"
  by (rule allI, rule subscription_delivers) (simp_all add: sample_full_ok sample_finalized_ok, simp add: sample_finalized_def)

section \<open>Partial failures and resets\<close>

text \<open>A database error after the payment. The merchant is in the pool, although the request
  fails; it is not in the pending registry, and every later registration under its name answers
  that the name exists already, so that the paid merchant never enters a reference string.\<close>

theorem database_error_strands_merchant:
  assumes "length (mm_funding_txid q) = 32" and "st_merchant_pool (sv_store sv) (mm_name q) = None"
    and "verify_payment (st_wallet (sv_store sv)) \<lparr>op_txid = rev (mm_funding_txid q), op_vout = mm_funding_vout q\<rparr>
           (cf_merchant_registration_fee (sv_config sv)) = Inr ()"
    and "length (mm_name q) \<le> 255" and "st_db (sv_store sv) = Some conn"
    and "db_save_merchant D conn (mm_name q) (mm_origin q) (mm_email q) (mm_phone q) = Inl e"
  shows "\<exists>sv'. register_merchant B D sv q = (sv', Inl (AlreadyExistsStore (DbError e))) \<and>
    st_merchant_pool (sv_store sv') (mm_name q) \<noteq> None \<and> sv_registry sv' = sv_registry sv \<and>
    (length (mm_funding_txid q') = 32 \<and> mm_name q' = mm_name q \<longrightarrow>
       register_merchant B D sv' q' = (sv', Inl (AlreadyExistsStore (AlreadyRegistered (mm_name q)))))"
proof -
  obtain m where m: "merchant_new B (mm_name q) (mm_origin q) = Inr m"
    using assms(4) merchant_new_Inr by blast
  show ?thesis
    using assms(1,2,3,5,6)
    by (auto simp: m register_merchant_def register_merchant_store_def parse_txid_def parse_array_def
        try_into_array_def store_add_merchant_def Let_def store_status_def simp del: merchant_new_Inr)
qed

definition sample_merchant_message :: merchant_message where
  "sample_merchant_message = \<lparr>mm_name = ascii ''shop'', mm_origin = ascii ''o'', mm_email = [], mm_phone = [],
     mm_funding_txid = replicate 32 0, mm_funding_vout = 0\<rparr>"

lemma sample_merchant_message_sel:
  "length (mm_funding_txid sample_merchant_message) = 32" "mm_name sample_merchant_message = ascii ''shop''"
  by (simp_all add: sample_merchant_message_def)

lemma sample_wallet_pays: "verify_payment sample_wallet outp fee = Inr ()"
  by (simp add: verify_payment_def sample_wallet_def)

lemma sample_store_sel:
  "st_merchant_pool sample_store = Map.empty" "st_wallet sample_store = sample_wallet" "st_db sample_store = None"
  "sv_store sample_service = sample_store"
  by (simp_all add: sample_store_def store_new_def sample_service_def)

theorem database_error_strands_merchant_witness:
  "\<exists>sv'. register_merchant sample failing_db (sample_service\<lparr>sv_store := sample_store\<lparr>st_db := Some 0\<rparr>\<rparr>)
      sample_merchant_message = (sv', Inl (AlreadyExistsStore (DbError ''locked''))) \<and>
    register_merchant sample failing_db sv' sample_merchant_message =
      (sv', Inl (AlreadyExistsStore (AlreadyRegistered (ascii ''shop''))))"
proof -
  let ?sv = "sample_service\<lparr>sv_store := sample_store\<lparr>st_db := Some 0\<rparr>\<rparr>"
  have hyps: "length (mm_funding_txid sample_merchant_message) = 32"
      "st_merchant_pool (sv_store ?sv) (mm_name sample_merchant_message) = None"
      "verify_payment (st_wallet (sv_store ?sv))
         \<lparr>op_txid = rev (mm_funding_txid sample_merchant_message), op_vout = mm_funding_vout sample_merchant_message\<rparr>
         (cf_merchant_registration_fee (sv_config ?sv)) = Inr ()"
      "length (mm_name sample_merchant_message) \<le> 255" "st_db (sv_store ?sv) = Some 0"
      "db_save_merchant failing_db 0 (mm_name sample_merchant_message) (mm_origin sample_merchant_message)
         (mm_email sample_merchant_message) (mm_phone sample_merchant_message) = Inl ''locked''"
    by (simp_all add: sample_merchant_message_sel sample_store_sel sample_wallet_pays failing_db_def)
  show ?thesis
    using database_error_strands_merchant [OF hyps, of sample sample_merchant_message]
    by (auto simp only: sample_merchant_message_sel)
qed

text \<open>C37. A reset between the two sections of a registration. The merchant of the running request
  enters the fresh registry but not the fresh pool, so that the name can be registered again:
  the next reference string lists one name under two ids, which gives both the same
  nullifier.\<close>

theorem reset_race_duplicates_name:
  fixes sv :: "('p, 'x, 'f, 'o, 'd) service" and B :: "('s, 'p) backend" and D :: "'d db_ops"
  assumes "length (mm_funding_txid q) = 32" and "st_merchant_pool (sv_store sv) (mm_name q) = None"
    and "verify_payment (st_wallet (sv_store sv)) \<lparr>op_txid = rev (mm_funding_txid q), op_vout = mm_funding_vout q\<rparr>
           (cf_merchant_registration_fee (sv_config sv)) = Inr ()"
    and "length (mm_name q) \<le> 255" and "st_db (sv_store sv) = None"
    and "bt_secret_key T sk = Some x"
  defines "now \<equiv> foldl (section_step B T D) sv
    [MerchantStore q, ResetStore, ResetRegistry sk, MerchantRegistry q, MerchantStore q, MerchantRegistry q]"
  shows "map m_name (rg_merchants (sv_registry now)) = [mm_name q, mm_name q] \<and>
    map m_merchant_id (rg_merchants (sv_registry now)) = [1, 2]"
proof -
  obtain m where m: "merchant_new B (mm_name q) (mm_origin q) = Inr m" "m_name m = mm_name q"
    using assms(4) by auto
  show ?thesis
    using assms(1-3,5,6)
    by (simp add: now_def section_step_def m(1) m(2) register_merchant_store_def parse_txid_def parse_array_def
        try_into_array_def store_add_merchant_def Let_def reset_store_def reset_registry_def registry_new_def
        register_merchant_registry_def registry_add_merchant_def del: merchant_new_Inr)
qed

theorem reset_race_duplicates_name_witness:
  "map m_merchant_id (rg_merchants (sv_registry (foldl (section_step sample sample_btc failing_db) sample_service
     [MerchantStore sample_merchant_message, ResetStore, ResetRegistry (sample_key 3),
      MerchantRegistry sample_merchant_message, MerchantStore sample_merchant_message,
      MerchantRegistry sample_merchant_message]))) = [1, 2]"
proof -
  have hyps: "length (mm_funding_txid sample_merchant_message) = 32"
      "st_merchant_pool (sv_store sample_service) (mm_name sample_merchant_message) = None"
      "verify_payment (st_wallet (sv_store sample_service))
         \<lparr>op_txid = rev (mm_funding_txid sample_merchant_message), op_vout = mm_funding_vout sample_merchant_message\<rparr>
         (cf_merchant_registration_fee (sv_config sample_service)) = Inr ()"
      "length (mm_name sample_merchant_message) \<le> 255" "st_db (sv_store sample_service) = None"
      "bt_secret_key sample_btc (sample_key 3) = Some (sample_key 3)"
    by (simp_all add: sample_merchant_message_sel sample_store_sel sample_wallet_pays sample_btc_def)
  show ?thesis
    by (rule reset_race_duplicates_name [OF hyps, THEN conjunct2])
qed

text \<open>Among the requests of any run of the store that succeed, no merchant name occurs
  twice.\<close>

theorem pool_names_distinct:
  "distinct (map mq_name (accepted (pool_attempt B D fee) st qs))"
  by (rule pool_book.accepted_keys_distinct)

end
