(* ===== verification/Database_Properties.thy ===== *)
theory Database_Properties
  imports Database Service_Properties
begin

text \<open>
  Properties of the registry's tables: integrity along every run, the round trip of a saved set,
  and what is on disk while the service runs with this database.
\<close>

section \<open>The database of the store\<close>

text \<open>The two statements the store executes; \<open>Txid::to_string\<close> prints the bytes in reverse
  order.\<close>

definition sqlite :: "(bytes \<Rightarrow> str) \<Rightarrow> db db_ops" where
  "sqlite enc =
     \<lparr>db_save_merchant = (\<lambda>d name origin email phone. Inr (save_merchant d name origin email phone)),
      db_mark_set_finalized = (\<lambda>d set_id btc_txid. Inr (mark_set_finalized enc d set_id (Some (enc (rev btc_txid)))))\<rparr>"

lemma sqlite_sel [simp]:
  "db_save_merchant (sqlite enc) d n og em ph = Inr (save_merchant d n og em ph)"
  "db_mark_set_finalized (sqlite enc) d i t = Inr (mark_set_finalized enc d i (Some (enc (rev t))))"
  by (simp_all add: sqlite_def)

text \<open>Nothing of a set and nothing of the wallet is on disk, and every merchant of the pool has a
  row.\<close>

definition only_merchants_saved :: "('p, 'x, 'f, 'o, db) service \<Rightarrow> bool" where
  "only_merchants_saved sv \<longleftrightarrow>
     (case st_db (sv_store sv) of
        None \<Rightarrow> False
      | Some d \<Rightarrow> tb_sets d = [] \<and> tb_set_merchants d = [] \<and> tb_commitments d = [] \<and> tb_wallet d = None \<and>
          dom (st_merchant_pool (sv_store sv)) \<subseteq> mr_name ` set (tb_merchants d))"

lemma store_add_merchant_sqlite:
  assumes "st_db st = Some d"
  shows "(\<exists>e. store_add_merchant B (sqlite enc) st n og em ph outp fee = (st, Inl e)) \<or>
     (\<exists>info. store_add_merchant B (sqlite enc) st n og em ph outp fee =
       (st\<lparr>st_merchant_pool := (st_merchant_pool st)(n \<mapsto> info), st_db := Some (save_merchant d n og em ph)\<rparr>, Inr ()))"
  using assms by (auto simp: store_add_merchant_def Let_def split: sum.split)

lemma save_merchant_tables:
  "tb_sets (save_merchant d n og em ph) = tb_sets d"
  "tb_set_merchants (save_merchant d n og em ph) = tb_set_merchants d"
  "tb_commitments (save_merchant d n og em ph) = tb_commitments d"
  "tb_wallet (save_merchant d n og em ph) = tb_wallet d"
  "mr_name ` set (tb_merchants (save_merchant d n og em ph)) = insert n (mr_name ` set (tb_merchants d))"
  by (simp_all add: save_merchant_def)

lemma mark_set_finalized_unsaved:
  "tb_sets d = [] \<Longrightarrow> mark_set_finalized enc d i t = d"
  by (simp add: mark_set_finalized_def Let_def)

lemma store_create_tx_sqlite:
  assumes "st_db st = Some d" and "tb_sets d = []"
  shows "st_db (fst (store_create_tx T (sqlite enc) st r cap sats)) = Some d"
    and "st_merchant_pool (fst (store_create_tx T (sqlite enc) st r cap sats)) = st_merchant_pool st"
  using assms
  by (auto simp: store_create_tx_def Let_def mark_set_finalized_unsaved split: sum.split list.split)

lemma only_merchants_saved_step:
  assumes "only_merchants_saved sv"
  shows "only_merchants_saved (section_step B T (sqlite enc) sv e)"
proof -
  obtain d where d: "st_db (sv_store sv) = Some d" "tb_sets d = []" "tb_set_merchants d = []" "tb_commitments d = []"
      "tb_wallet d = None" "dom (st_merchant_pool (sv_store sv)) \<subseteq> mr_name ` set (tb_merchants d)"
    using assms by (auto simp: only_merchants_saved_def split: option.splits)
  show ?thesis
  proof (cases e)
    case (MerchantStore q)
    have "only_merchants_saved (sv\<lparr>sv_store := fst (store_add_merchant B (sqlite enc) (sv_store sv) n og em ph outp fee)\<rparr>)"
      for n og em ph outp fee
      using store_add_merchant_sqlite [OF d(1), of B enc n og em ph outp fee] d assms
      by (auto simp: only_merchants_saved_def save_merchant_tables subset_iff)
    then show ?thesis
      using assms
      by (auto simp: section_step_def MerchantStore register_merchant_store_def Let_def split: sum.split prod.split)
        (metis fst_conv)
  next
    case (Finalize i)
    have "only_merchants_saved (sv\<lparr>sv_store := fst (store_create_tx T (sqlite enc) (sv_store sv) r cap sats),
        sv_registry := r'\<rparr>)" for r cap sats r'
      using d by (simp add: only_merchants_saved_def store_create_tx_sqlite)
    then show ?thesis
      using assms
      by (auto simp: section_step_def Finalize finalize_set_def Let_def split: sum.split prod.split)
        (metis fst_conv)
  qed (use assms in \<open>auto simp: section_step_def only_merchants_saved_def register_merchant_registry_def
      register_beneficiary_insert_def reset_store_def reset_registry_def finalize_setup_def
      node_answers_def Let_def
      split: sum.split prod.split option.splits\<close>)
qed

interpretation disk_runs: step_system "section_step B T (sqlite enc)" only_merchants_saved
  for B :: "('s, 'p) backend" and T :: "('k, 'x) btc" and enc
  by unfold_locales (rule only_merchants_saved_step)

section \<open>Saved sets\<close>

lemma word_of_nat_eq_less: "i < 2 ^ 64 \<Longrightarrow> j < 2 ^ 64 \<Longrightarrow> (word_of_nat i :: u64) = word_of_nat j \<longleftrightarrow> i = j"
  by (auto dest!: arg_cong [where f = unat] simp: unat_of_nat)

lemma sint_word_of_nat_small: "j < 2 ^ 63 \<Longrightarrow> sint (word_of_nat j :: u64) = int j"
  by (simp add: signed_of_nat signed_take_bit_int_eq_self_iff)

definition set_rows :: "str \<Rightarrow> nat \<Rightarrow> str list \<Rightarrow> set_merchant_row list" where
  "set_rows i k names =
     map (\<lambda>(j, n). \<lparr>sm_set_id = i, sm_position = word_of_nat j, sm_name = n\<rparr>) (enumerate k names)"

lemma insert_set_merchants_rows:
  assumes "i \<in> st_set_id ` set (tb_sets d)" "set names \<subseteq> mr_name ` set (tb_merchants d)"
    and "\<forall>j. k \<le> j \<and> j < k + length names \<longrightarrow> (i, word_of_nat j) \<notin> sm_key ` set (tb_set_merchants d)"
    and "k + length names \<le> 2 ^ 64"
  shows "insert_set_merchants i k names d =
     (d\<lparr>tb_set_merchants := tb_set_merchants d @ set_rows i k names\<rparr>, Inr ())"
  using assms
proof (induction names arbitrary: k d)
  case Nil
  then show ?case by (simp add: set_rows_def)
next
  case (Cons n names)
  let ?r = "\<lparr>sm_set_id = i, sm_position = word_of_nat k, sm_name = n\<rparr>"
  let ?d = "d\<lparr>tb_set_merchants := tb_set_merchants d @ [?r]\<rparr>"
  have fresh: "sm_key ?r \<notin> sm_key ` set (tb_set_merchants d)"
    using Cons.prems(3) by (auto simp: sm_key_def)
  then have insert: "insert_set_merchant d ?r = Inr ?d"
    using Cons.prems(1,2) by (simp add: insert_set_merchant_def insert_or_ignore_def)
  have "(i, word_of_nat j) \<noteq> sm_key ?r" if "Suc k \<le> j" "j < Suc k + length names" for j
    using that Cons.prems(4) by (simp add: sm_key_def word_of_nat_eq_less)
  then have "insert_set_merchants i (Suc k) names ?d =
      (?d\<lparr>tb_set_merchants := tb_set_merchants ?d @ set_rows i (Suc k) names\<rparr>, Inr ())"
    using Cons.prems by (intro Cons.IH) auto
  with insert show ?case
    by (simp add: set_rows_def)
qed

lemma set_rows_names:
  assumes "length names < 2 ^ 63"
  shows "map sm_name (sort_key (\<lambda>r. sint (sm_position r)) (set_rows i 0 names)) = names"
proof -
  have "map (\<lambda>r. sint (sm_position r)) (set_rows i 0 names) = map int [0..<length names]"
    using assms
    by (intro nth_equalityI) (auto simp: set_rows_def nth_enumerate_eq sint_word_of_nat_small)
  moreover have "sorted (map int [0..<n])" for n
    by (simp add: sorted_iff_nth_mono)
  ultimately have "sort_key (\<lambda>r. sint (sm_position r)) (set_rows i 0 names) = set_rows i 0 names"
    by (metis sort_key_id_if_sorted)
  moreover have "sm_name \<circ> (\<lambda>(j, n). \<lparr>sm_set_id = i, sm_position = word_of_nat j, sm_name = n\<rparr>) = snd"
    by (auto simp: fun_eq_iff)
  ultimately show ?thesis
    by (simp add: set_rows_def)
qed

lemma set_rows_filter:
  "filter (\<lambda>r. sm_set_id r = i) (set_rows j k names) = (if i = j then set_rows j k names else [])"
  by (auto simp: set_rows_def filter_map o_def split_def)

lemma collect_res_cong:
  "(\<And>x. x \<in> set xs \<Longrightarrow> f x = g x) \<Longrightarrow> collect_res f xs = collect_res g xs"
  by (induction xs) auto

lemma collect_res_append:
  "collect_res f (xs @ ys) = rbind (collect_res f xs) (\<lambda>us. rbind (collect_res f ys) (\<lambda>vs. Inr (us @ vs)))"
  by (induction xs) (auto simp: rbind_def split: sum.split)

section \<open>Properties\<close>

text \<open>C35. Integrity of the tables. From an empty file, any sequence of the writing statements keeps
  the primary keys unique and every reference to a set or a merchant resolved. No statement
  removes, moves or overwrites a row: the rows of the merchants, the set members and the
  commitments stay as they are, those of the sets up to the columns that mark them finalized, a
  finalized set stays finalized, and the first wallet mnemonic stays.\<close>

theorem database_integrity:
  "db_ok (foldl (db_step enc) (create_tables None) es) \<and>
   db_grows (foldl (db_step enc) (create_tables None) es)
     (foldl (db_step enc) (create_tables None) (es @ es'))"
proof -
  have "db_ok (create_tables None)"
    by (simp add: db_ok_def create_tables_def)
  then have "db_ok (foldl (db_step enc) (create_tables None) es)"
    by (rule db_runs.run_inv)
  then show ?thesis
    using db_runs.run_le [of "foldl (db_step enc) (create_tables None) es" enc es'] by simp
qed

text \<open>A saved set can be loaded again. Saving a set under a new id, with merchants that have
  rows, succeeds, and loading then yields the sets that could be loaded before and the new one,
  with its capacity, fee and merchant names in their order, not finalized.\<close>

theorem saved_set_loads:
  assumes "hex_laws enc dec" and "db_ok d" and "load_sets dec d = Inr rows"
    and "enc set_id \<notin> st_set_id ` set (tb_sets d)" and "length set_id = 32"
    and "set names \<subseteq> mr_name ` set (tb_merchants d)" and "length names < 2 ^ 63" and "cap < 2 ^ 64"
  shows "\<exists>d'. save_set enc d set_id cap sats names = (d', Inr ()) \<and>
    load_sets dec d' = Inr (rows @ [\<lparr>sw_set_id = set_id, sw_beneficiary_capacity = cap,
      sw_sats_per_user = sats, sw_finalized = False, sw_merchant_names = names\<rparr>])"
proof -
  let ?i = "enc set_id"
  let ?row = "\<lparr>st_set_id = ?i, st_capacity = word_of_nat cap, st_sats = sats, st_final = 0, st_txid = None\<rparr>"
  define d1 where "d1 = d\<lparr>tb_sets := tb_sets d @ [?row]\<rparr>"
  define d' where "d' = d1\<lparr>tb_set_merchants := tb_set_merchants d @ set_rows ?i 0 names\<rparr>"
  have none: "filter (\<lambda>r. sm_set_id r = ?i) (tb_set_merchants d) = []"
    using assms(2,4) by (simp add: db_ok_def filter_empty_conv) metis
  then have "(?i, word_of_nat j) \<notin> sm_key ` set (tb_set_merchants d)" for j
    by (auto simp: sm_key_def filter_empty_conv)
  then have save: "save_set enc d set_id cap sats names = (d', Inr ())"
    using assms(4,6,7) insert_set_merchants_rows [of ?i d1 names 0]
    by (simp add: save_set_def Let_def insert_or_ignore_def d1_def d'_def)
  have "load_set dec d' r = load_set dec d r" if "r \<in> set (tb_sets d)" for r
  proof -
    have "st_set_id r \<noteq> ?i" using that assms(4) by (metis image_eqI)
    then show ?thesis
      by (simp add: load_set_def set_merchant_names_def d'_def d1_def set_rows_filter)
  qed
  then have "collect_res (load_set dec d') (tb_sets d) = Inr rows"
    using assms(3) by (simp add: load_sets_def cong: collect_res_cong)
  moreover have "load_set dec d' ?row = Inr \<lparr>sw_set_id = set_id, sw_beneficiary_capacity = cap,
      sw_sats_per_user = sats, sw_finalized = False, sw_merchant_names = names\<rparr>"
    using assms(1,5,7,8) none
    by (simp add: load_set_def hex_laws_def column_array_def try_into_array_def set_merchant_names_def
        d'_def set_rows_filter set_rows_names unat_of_nat)
  ultimately have "load_sets dec d' = Inr (rows @ [\<lparr>sw_set_id = set_id, sw_beneficiary_capacity = cap,
      sw_sats_per_user = sats, sw_finalized = False, sw_merchant_names = names\<rparr>])"
    by (simp add: load_sets_def d'_def d1_def collect_res_append)
  with save show ?thesis by blast
qed

theorem saved_set_loads_witness:
  "\<exists>d'. save_set sample_hex (save_merchant (create_tables None) [1] [2] [3] [4]) (replicate 32 7) 4 1000 [[1]] = (d', Inr ()) \<and>
    load_sets sample_unhex d' = Inr ([] @ [\<lparr>sw_set_id = replicate 32 7, sw_beneficiary_capacity = 4,
      sw_sats_per_user = 1000, sw_finalized = False, sw_merchant_names = [[1]]\<rparr>])"
  by (rule saved_set_loads [OF sample_hex_laws])
    (simp_all add: create_tables_def save_merchant_def db_ok_def insert_or_ignore_def load_sets_def)

text \<open>What survives a restart. The service calls only two of the writing statements: along
  every run that starts from an empty database, loading the state always yields the merchants
  that are in the pool (and perhaps others) but never a set or a commitment, although the
  module says that the registry can be reconstructed from it.\<close>

theorem restart_loses_sets:
  fixes sv :: "('p, 'x, 'f, 'o, db) service" and B :: "('s, 'p) backend"
  assumes "st_db (sv_store sv) = Some (create_tables None)" and "st_merchant_pool (sv_store sv) = Map.empty"
  shows "\<exists>d. st_db (sv_store (foldl (section_step B T (sqlite enc)) sv es)) = Some d \<and>
    load_state dec d = Inr \<lparr>ds_merchants = tb_merchants d, ds_sets = [], ds_commitments = []\<rparr> \<and>
    dom (st_merchant_pool (sv_store (foldl (section_step B T (sqlite enc)) sv es))) \<subseteq> mr_name ` set (tb_merchants d)"
proof -
  have "only_merchants_saved sv"
    using assms by (simp add: only_merchants_saved_def create_tables_def)
  then have "only_merchants_saved (foldl (section_step B T (sqlite enc)) sv es)"
    by (rule disk_runs.run_inv)
  then show ?thesis
    by (auto simp: only_merchants_saved_def load_state_def load_merchants_def load_sets_def load_commitments_def
        split: option.splits)
qed

definition sample_db_service :: "(gf5, bytes, nat, unit, db) service" where
  "sample_db_service =
     \<lparr>sv_store = store_new sample_wallet (Some (create_tables None)),
      sv_registry = sv_registry sample_service, sv_config = config_default, sv_state = Empty\<rparr>"

theorem restart_loses_sets_witness:
  "\<exists>d. st_db (sv_store (foldl (section_step sample sample_btc (sqlite sample_hex)) sample_db_service
      [MerchantStore sample_merchant_message, BeneficiaryInsert sample_phi outpoint_null, Finalize (replicate 32 0)])) = Some d \<and>
    load_state sample_unhex d = Inr \<lparr>ds_merchants = tb_merchants d, ds_sets = [], ds_commitments = []\<rparr>"
  using restart_loses_sets [of sample_db_service sample sample_btc sample_hex
      "[MerchantStore sample_merchant_message, BeneficiaryInsert sample_phi outpoint_null, Finalize (replicate 32 0)]"
      sample_unhex]
  by (auto simp: sample_db_service_def store_new_def)

text \<open>No section changes the words and the address of the wallet, or whether it has a node.\<close>

definition wallet_keys :: "('p, 'x, 'f, 'o, 'd) service \<Rightarrow> str \<times> str \<times> bytes \<times> bool" where
  "wallet_keys sv = (let w = st_wallet (sv_store sv) in (wl_mnemonic w, wl_address w, wl_xonly w, wl_client w = None))"

lemma wallet_keys_same: "st_wallet (sv_store sv') = st_wallet (sv_store sv) \<Longrightarrow> wallet_keys sv' = wallet_keys sv"
  by (simp add: wallet_keys_def)

lemma section_step_wallet: "wallet_keys (section_step B T D sv e) = wallet_keys sv"
proof (cases e)
  case (MerchantStore q)
  then show ?thesis
    by (auto simp: section_step_def register_merchant_store_def Let_def split: sum.split prod.split
        intro!: wallet_keys_same) (metis fst_conv store_add_merchant_frame(2))
next
  case (Finalize d)
  have "st_wallet (fst (store_create_tx T D (sv_store sv) r cap sats)) = st_wallet (sv_store sv)" for r cap sats
    by (simp add: store_create_tx_def Let_def split: sum.split list.split option.split)
  with Finalize show ?thesis
    by (auto simp: section_step_def finalize_set_def Let_def split: sum.split prod.split intro!: wallet_keys_same)
      (metis fst_conv)
qed (auto simp: section_step_def register_merchant_registry_def register_beneficiary_insert_def reset_store_def
    reset_registry_def finalize_setup_def node_answers_def wallet_keys_def Let_def
    split: sum.split prod.split option.split)

lemma run_wallet: "wallet_keys (foldl (section_step B T D) sv es) = wallet_keys sv"
  by (induction es arbitrary: sv) (simp_all add: section_step_wallet)

text \<open>A stale row. Resetting the service clears the pool but not the table, and
  \<open>INSERT OR IGNORE\<close> keeps the old row: a merchant registered again under the name, with
  another origin, is in the pool with the new origin and on disk with the old one.\<close>

theorem reset_leaves_stale_row:
  fixes sv :: "('p, 'x, 'f, 'o, db) service" and B :: "('s, 'p) backend"
  assumes "length (mm_funding_txid q) = 32" and "length (mm_funding_txid q') = 32"
    and "mm_name q' = mm_name q" and "length (mm_name q) \<le> 255"
    and "\<And>outp fee. verify_payment (st_wallet (sv_store sv)) outp fee = Inr ()"
    and "st_db (sv_store sv) = Some (create_tables None)" and "st_merchant_pool (sv_store sv) = Map.empty"
  shows "\<exists>d info. st_db (sv_store (foldl (section_step B T (sqlite enc)) sv
        [MerchantStore q, ResetStore, MerchantStore q'])) = Some d \<and>
    st_merchant_pool (sv_store (foldl (section_step B T (sqlite enc)) sv
        [MerchantStore q, ResetStore, MerchantStore q'])) (mm_name q) = Some info \<and>
    m_origin (mi_merchant info) = mm_origin q' \<and> map mr_origin (tb_merchants d) = [mm_origin q]"
proof -
  obtain m m' where m: "merchant_new B (mm_name q) (mm_origin q) = Inr m"
      "merchant_new B (mm_name q) (mm_origin q') = Inr m'" "m_origin m' = mm_origin q'"
    using assms(4) by auto
  show ?thesis
    using assms(1-3,5-7) m
    by (simp add: section_step_def register_merchant_store_def parse_txid_def parse_array_def try_into_array_def
        store_add_merchant_def Let_def reset_store_def save_merchant_def insert_or_ignore_def create_tables_def
        del: merchant_new_Inr)
qed

theorem reset_leaves_stale_row_witness:
  "\<exists>d info. st_db (sv_store (foldl (section_step sample sample_btc (sqlite sample_hex)) sample_db_service
        [MerchantStore sample_merchant_message, ResetStore, MerchantStore (sample_merchant_message\<lparr>mm_origin := [9]\<rparr>)])) = Some d \<and>
    st_merchant_pool (sv_store (foldl (section_step sample sample_btc (sqlite sample_hex)) sample_db_service
        [MerchantStore sample_merchant_message, ResetStore, MerchantStore (sample_merchant_message\<lparr>mm_origin := [9]\<rparr>)]))
      (mm_name sample_merchant_message) = Some info \<and>
    m_origin (mi_merchant info) = mm_origin (sample_merchant_message\<lparr>mm_origin := [9]\<rparr>) \<and>
    map mr_origin (tb_merchants d) = [mm_origin sample_merchant_message]"
  by (rule reset_leaves_stale_row)
    (simp_all add: sample_merchant_message_sel sample_db_service_def store_new_def sample_wallet_pays)

end
