(* ===== verification/Soundness.thy ===== *)
theory Soundness
  imports Completeness
begin

text \<open>
  What acceptance by the verifier of \<open>payment_identity.rs\<close> means: the equations of the
  documentation hold, and from enough accepting proofs with one first message and different
  challenges (the hash is replaced, as in the forking lemma) an opening of a member of the
  anonymity set can be computed, or a discrete-logarithm relation between generators.
\<close>

section \<open>Acceptance\<close>

definition active_generators :: "'p crs \<Rightarrow> nat \<Rightarrow> 'p list" where
  "active_generators crs l =
     crs_g crs # map (\<lambda>i. crs_generators crs ! (i - 1)) (other_indices (num_merchants crs) l)
       @ [crs_h_name crs]"

lemma length_active_generators:
  "1 \<le> l \<Longrightarrow> l \<le> num_merchants crs \<Longrightarrow> length (active_generators crs l) = num_merchants crs + 1"
  by (simp add: active_generators_def length_other_indices)

definition shifted_points :: "('s, 'p::ab_group_add) backend \<Rightarrow> 'p crs \<Rightarrow> bytes list \<Rightarrow> nat \<Rightarrow> 's \<Rightarrow> 'p list" where
  "shifted_points B crs xs l s = verifier_shifted_set B (bk_mul B (crs_generators crs ! (l - 1)) s) xs"

lemma length_shifted_points [simp]: "length (shifted_points B crs xs l s) = length xs"
  by (simp add: shifted_points_def)

lemma length_those: "those xs = Some ys \<Longrightarrow> length ys = length xs"
  by (induction xs arbitrary: ys) (auto split: option.splits)

lemma length_decode_points: "decode_points B p = Some (a, b, c, d, e) \<Longrightarrow> length e = bk_M B"
  by (auto simp: decode_points_def split: option.splits dest: length_those)

lemma check_nullifier_iff:
  "check_nullifier B g s nul p \<longleftrightarrow>
     nul = point_to_bytes B (bk_mul B g s) \<and>
     (\<exists>R P. point_from_bytes B (pf_schnorr_r p) = Some R \<and> point_from_bytes B nul = Some P \<and>
        bk_mul B g (scalar_from_bytes B (pf_schnorr_s p)) =
          R + bk_mul B P (schnorr_challenge B g nul R))"
  by (auto simp: check_nullifier_def Let_def split: option.splits)

lemma verify_shape_rejects:
  "\<not> (length xs = N_of B \<and> 1 \<le> l \<and> l \<le> num_merchants crs \<and>
      length (pf_z_responses p) = num_merchants crs + 1) \<Longrightarrow>
   verify_payment_identity_registration_proof B crs xs l set_id pseudonym nul p = Inr False"
  by (simp add: verify_payment_identity_registration_proof_def Let_def)

lemma reject_iff:
  "(if c then Inr False else r) = (Inr True :: failure + bool) \<longleftrightarrow> \<not> c \<and> r = Inr True"
  by simp

lemma verify_iff:
  fixes B :: "('s::field, 'p::ab_group_add) backend"
  shows "wf_generators crs \<Longrightarrow>
   verify_payment_identity_registration_proof B crs xs l set_id pseudonym nul p = Inr True \<longleftrightarrow>
     length xs = N_of B \<and> 1 \<le> l \<and> l \<le> num_merchants crs \<and>
     length (pf_z_responses p) = num_merchants crs + 1 \<and>
     (\<exists>a b c d e. decode_points B p = Some (a, b, c, d, e) \<and>
       (let g = crs_g crs; s = bytes_to_scalar B (pf_nullifier_scalar p);
            ds = shifted_points B crs xs l s;
            x = fiat_shamir_challenge B g pseudonym nul l set_id (pf_name_scalar p) ds a b c d e;
            f = from_fn (bk_M B) (\<lambda>k. scalar_from_bytes B (pf_f p ! k))
        in bk_mul B g (scalar_from_bytes B (pf_z_a p)) =
             a + bk_mul B b x - (\<Sum>k<bk_M B. bk_mul B (bit_generators B ! k) (f ! k)) \<and>
           bk_mul B g (scalar_from_bytes B (pf_z_c p)) =
             bk_mul B c x + d - (\<Sum>k<bk_M B. bk_mul B (bit_generators B ! k) (f ! k * (x - f ! k))) \<and>
           (\<Sum>j<N_of B. bk_mul B (ds ! j) (eval_index_poly (bk_M B) f x j)) =
             (\<Sum>i<num_merchants crs + 1. bk_mul B (active_generators crs l ! i)
                (scalar_from_bytes B (pf_z_responses p ! i))) +
             (\<Sum>k<bk_M B. bk_mul B (e ! k) (x ^ k)) \<and>
           check_nullifier B g s nul p))"
proof -
  assume wf: "wf_generators crs"
  show ?thesis
  proof (cases "length xs = N_of B \<and> 1 \<le> l \<and> l \<le> num_merchants crs \<and>
      length (pf_z_responses p) = num_merchants crs + 1")
    case True
    then have l: "1 \<le> l" "l \<le> num_merchants crs" by auto
    have rhs: "membership_rhs B crs (map (\<lambda>i. crs_generators crs ! (i - 1))
          (other_indices (num_merchants crs) l)) zs x e =
        (\<Sum>i<num_merchants crs + 1. bk_mul B (active_generators crs l ! i) (scalar_from_bytes B (zs ! i))) +
        (\<Sum>k<length e. bk_mul B (e ! k) (x ^ k))" for zs x and e :: "'p list"
      using length_active_generators [OF l]
      by (simp only: membership_rhs_sum active_generators_def [symmetric])
        (simp add: active_generators_def)
    show ?thesis
    proof (cases "decode_points B p")
      case None
      then show ?thesis
        using True by (simp add: verify_payment_identity_registration_proof_def crs_h_wf [OF wf l] Let_def)
    next
      case (Some t)
      obtain a b c d e where t: "t = (a, b, c, d, e)" by (cases t)
      have "length e = bk_M B"
        by (rule length_decode_points [OF Some [unfolded t]])
      then show ?thesis
        using True Some t
        by (simp add: verify_payment_identity_registration_proof_def Let_def crs_h_wf [OF wf l]
            other_gens_wf [OF wf] rhs check_bit_opening_sum membership_lhs_sum shifted_points_def
            reject_iff del: One_nat_def cong: if_cong)
    qed
  next
    case False
    then show ?thesis
      using verify_shape_rejects [of xs B l crs p] by auto
  qed
qed

text \<open>C11. The verifier decides exactly the documented equations. It accepts if and only if the
  set has \<open>N\<close> members, the service exists, there are \<open>L + 1\<close> responses, all points decode,
  check 1 and check 2 hold for the bit commitments, check 3 holds for the shifted set, and the
  public nullifier is the encoding of \<open>s_l\<cdot>g\<close> with a valid Schnorr proof.\<close>

theorem verifier_accepts_iff:
  fixes B :: "('s::field, 'p::ab_group_add) backend"
  shows "wf_generators crs \<Longrightarrow>
   verify_payment_identity_registration_proof B crs xs l set_id pseudonym nul p = Inr True \<longleftrightarrow>
     length xs = N_of B \<and> 1 \<le> l \<and> l \<le> num_merchants crs \<and>
     length (pf_z_responses p) = num_merchants crs + 1 \<and>
     (\<exists>a b c d e. decode_points B p = Some (a, b, c, d, e) \<and>
       (let g = crs_g crs; s = bytes_to_scalar B (pf_nullifier_scalar p);
            ds = shifted_points B crs xs l s;
            x = fiat_shamir_challenge B g pseudonym nul l set_id (pf_name_scalar p) ds a b c d e;
            f = from_fn (bk_M B) (\<lambda>k. scalar_from_bytes B (pf_f p ! k))
        in bk_mul B g (scalar_from_bytes B (pf_z_a p)) =
             a + bk_mul B b x - (\<Sum>k<bk_M B. bk_mul B (bit_generators B ! k) (f ! k)) \<and>
           bk_mul B g (scalar_from_bytes B (pf_z_c p)) =
             bk_mul B c x + d - (\<Sum>k<bk_M B. bk_mul B (bit_generators B ! k) (f ! k * (x - f ! k))) \<and>
           (\<Sum>j<N_of B. bk_mul B (ds ! j) (eval_index_poly (bk_M B) f x j)) =
             (\<Sum>i<num_merchants crs + 1. bk_mul B (active_generators crs l ! i)
                (scalar_from_bytes B (pf_z_responses p ! i))) +
             (\<Sum>k<bk_M B. bk_mul B (e ! k) (x ^ k)) \<and>
           check_nullifier B g s nul p))"
  by (rule verify_iff)

section \<open>Interpolation\<close>

text \<open>Weights that pick the leading coefficient of a polynomial of degree \<open>n\<close> from its
  values at \<open>n + 1\<close> distinct points.\<close>

lemma power_diff_sum_below:
  fixes x y :: "'s::field"
  shows "x ^ k - y ^ k = (x - y) * (\<Sum>a<k. y ^ (k - Suc a) * x ^ a)"
  by (rule power_diff_sumr2)

primrec leading_weight :: "(nat \<Rightarrow> 's::field) \<Rightarrow> nat \<Rightarrow> nat \<Rightarrow> 's" where
  "leading_weight x 0 = (\<lambda>_. 1)"
| "leading_weight x (Suc n) =
     (\<lambda>i. if i \<le> n then leading_weight x n i / (x i - x (Suc n))
          else - (\<Sum>i\<le>n. leading_weight x n i / (x i - x (Suc n))))"

lemma leading_weights:
  fixes x :: "nat \<Rightarrow> 's::field"
  assumes "inj_on x {..n}" "k \<le> n"
  shows "(\<Sum>i\<le>n. leading_weight x n i * x i ^ k) = (if k = n then 1 else 0)"
  using assms
proof (induction n arbitrary: k)
  case 0
  then show ?case by simp
next
  case (Suc n)
  define w where "w = leading_weight x n"
  have "inj_on x {..n}"
    using Suc.prems(1) by (rule inj_on_subset) auto
  then have w: "\<And>k. k \<le> n \<Longrightarrow> (\<Sum>i\<le>n. w i * x i ^ k) = (if k = n then 1 else 0)"
    unfolding w_def by (rule Suc.IH)
  define y where "y = x (Suc n)"
  have neq: "x i - y \<noteq> 0" if "i \<le> n" for i
    using inj_onD [OF Suc.prems(1), of i "Suc n"] that by (auto simp: y_def)
  define v where "v i = (if i \<le> n then w i / (x i - y) else - (\<Sum>i\<le>n. w i / (x i - y)))" for i
  have "(\<Sum>i\<le>Suc n. v i * x i ^ k) = (\<Sum>i\<le>n. w i / (x i - y) * (x i ^ k - y ^ k))"
    by (simp add: v_def y_def right_diff_distrib sum_subtractf sum_distrib_right)
  also have "\<dots> = (\<Sum>i\<le>n. \<Sum>a<k. w i * (y ^ (k - Suc a) * x i ^ a))"
    using neq by (intro sum.cong) (auto simp: power_diff_sum_below sum_distrib_left)
  also have "\<dots> = (\<Sum>a<k. y ^ (k - Suc a) * (\<Sum>i\<le>n. w i * x i ^ a))"
    by (subst sum.swap) (simp add: sum_distrib_left ac_simps)
  also have "\<dots> = (\<Sum>a<k. if a = n then y ^ (k - Suc a) else 0)"
    using Suc.prems(2) by (intro sum.cong) (auto simp: w)
  also have "\<dots> = (if k = Suc n then 1 else 0)"
    using Suc.prems(2) by (auto simp: sum.delta less_Suc_eq)
  finally show ?case
    by (simp add: v_def w_def y_def fun_eq_iff)
qed

lemma quadratic_lead_zero:
  fixes p q r :: "'s::field"
  assumes "\<And>i. i < 3 \<Longrightarrow> p * x i * x i + q * x i + r = 0" and "inj_on x {..<3::nat}"
  shows "p = 0"
proof -
  have d: "x 0 \<noteq> x 1" "x 0 \<noteq> x 2" "x 1 \<noteq> x 2"
    using inj_onD [OF assms(2), of 0 1] inj_onD [OF assms(2), of 0 2] inj_onD [OF assms(2), of 1 2]
    by auto
  have slope: "p * (x 0 + x i) + q = 0" if "i < 3" "x 0 \<noteq> x i" for i
  proof -
    have "(x 0 - x i) * (p * (x 0 + x i) + q) =
        (p * x 0 * x 0 + q * x 0 + r) - (p * x i * x i + q * x i + r)"
      by (simp add: algebra_simps)
    then show ?thesis
      using assms(1) [of 0] assms(1) [of i] that by simp
  qed
  have "p * (x 1 - x 2) = (p * (x 0 + x 1) + q) - (p * (x 0 + x 2) + q)"
    by (simp add: algebra_simps)
  then show ?thesis
    using slope [of 1] slope [of 2] d by simp
qed

section \<open>Openings from several challenges\<close>

text \<open>Coefficients of \<open>g\<close> and of the bit generators, and what makes them a discrete-logarithm
  relation.\<close>

definition is_relation :: "('s::field, 'p::ab_group_add) backend \<Rightarrow> 'p \<Rightarrow> 's \<times> 's list \<Rightarrow> bool" where
  "is_relation B g rel \<longleftrightarrow>
     bk_mul B g (fst rel) + (\<Sum>k<bk_M B. bk_mul B (bit_generators B ! k) (snd rel ! k)) = 0"

definition nontrivial :: "'s::zero \<times> 's list \<Rightarrow> bool" where
  "nontrivial rel \<longleftrightarrow> fst rel \<noteq> 0 \<or> (\<exists>c\<in>set (snd rel). c \<noteq> 0)"

lemma commitment_linear:
  assumes "mul_laws B"
  shows "bit_commitment B g r c + bk_mul B (bit_commitment B g s d) x =
     bit_commitment B g (r + s * x) (\<lambda>k. c k + d k * x)"
  using assms by (simp add: bit_commitment_sum mul_simps mul_sum_right sum.distrib)

lemma commitment_diff:
  assumes "mul_laws B"
  shows "bit_commitment B g r c - bit_commitment B g s d = bit_commitment B g (r - s) (\<lambda>k. c k - d k)"
  using assms by (simp add: bit_commitment_sum mul_simps sum_subtractf)

lemma commitment_scale:
  assumes "mul_laws B"
  shows "bk_mul B (bit_commitment B g r c) x = bit_commitment B g (r * x) (\<lambda>k. c k * x)"
  using assms by (simp add: bit_commitment_sum mul_simps mul_sum_right)

text \<open>Openings of \<open>P + x\<^sub>i\<cdot>Q\<close> at several \<open>x\<^sub>i\<close> lie on the line through the first two, or
  the difference from the line is a relation.\<close>

definition slope :: "(nat \<Rightarrow> 's::field) \<Rightarrow> (nat \<Rightarrow> 's) \<Rightarrow> 's" where
  "slope x r = (r 1 - r 0) / (x 1 - x 0)"

definition off_line :: "(nat \<Rightarrow> 's::field) \<Rightarrow> (nat \<Rightarrow> 's) \<Rightarrow> nat \<Rightarrow> 's" where
  "off_line x r i = r i - (r 0 + slope x r * (x i - x 0))"

definition line_relation :: "nat \<Rightarrow> (nat \<Rightarrow> 's::field) \<Rightarrow> (nat \<Rightarrow> 's) \<Rightarrow> (nat \<Rightarrow> nat \<Rightarrow> 's) \<Rightarrow> nat \<Rightarrow> 's \<times> 's list" where
  "line_relation m x r c i = (off_line x r i, from_fn m (\<lambda>k. off_line x (\<lambda>i. c i k) i))"

lemma line_relation_holds:
  fixes x :: "nat \<Rightarrow> 's::field"
  assumes laws: "mul_laws B"
    and opens: "\<And>i. i < n \<Longrightarrow> bit_commitment B g (r i) (c i) = P + bk_mul B Q (x i)"
    and two: "1 < n" "x 0 \<noteq> x 1" and i: "i < n"
  shows "is_relation B g (line_relation (bk_M B) x r c i)"
proof -
  have n0: "0 < n" using two(1) by simp
  define u where "u = inverse (x 1 - x 0)"
  have slope: "slope x r' = (r' 1 - r' 0) * u" for r'
    by (simp add: slope_def u_def divide_inverse)
  have "bk_mul B Q (x 1 - x 0) = bit_commitment B g (r 1 - r 0) (\<lambda>k. c 1 k - c 0 k)"
    using opens [OF two(1)] opens [OF n0]
    by (simp add: commitment_diff [OF laws, symmetric] mul_diff_left [OF laws])
  then have "Q = bk_mul B (bit_commitment B g (r 1 - r 0) (\<lambda>k. c 1 k - c 0 k)) u"
    unfolding u_def by (rule mul_cancel [OF laws]) (use two(2) in simp)
  then have Q: "Q = bit_commitment B g (slope x r) (\<lambda>k. slope x (\<lambda>i. c i k))"
    by (simp add: commitment_scale [OF laws] slope)
  have "bit_commitment B g (r i) (c i) = bit_commitment B g (r 0) (c 0) + bk_mul B Q (x i - x 0)"
    using opens [OF i] opens [OF n0] by (simp add: mul_diff_left [OF laws])
  also have "\<dots> = bit_commitment B g (r 0 + slope x r * (x i - x 0))
      (\<lambda>k. c 0 k + slope x (\<lambda>i. c i k) * (x i - x 0))"
    unfolding Q by (rule commitment_linear [OF laws])
  finally have "bit_commitment B g (off_line x r i) (\<lambda>k. off_line x (\<lambda>i. c i k) i) = 0"
    by (simp add: off_line_def commitment_diff [OF laws, symmetric])
  then show ?thesis
    by (simp add: is_relation_def line_relation_def bit_commitment_sum)
qed

lemma on_line:
  fixes x :: "nat \<Rightarrow> 's::field"
  assumes "\<not> nontrivial (line_relation m x r c i)" "k < m"
  shows "c i k = slope x (\<lambda>i. c i k) * x i + (c 0 k - slope x (\<lambda>i. c i k) * x 0)"
proof -
  have "off_line x (\<lambda>i. c i k) i = 0"
    using assms by (force simp: nontrivial_def line_relation_def from_fn_def)
  then show ?thesis
    by (simp add: off_line_def algebra_simps)
qed

section \<open>Special soundness of the membership proof\<close>

definition index_of_bits :: "nat \<Rightarrow> (nat \<Rightarrow> 's::field) \<Rightarrow> nat" where
  "index_of_bits m b = horner_sum of_bool 2 (map (\<lambda>k. b k = 1) [0..<m])"

lemma index_of_bits_less: "index_of_bits m b < 2 ^ m"
  using horner_sum_of_bool_2_less [of "map (\<lambda>k. b k = 1) [0..<m]"] by (simp add: index_of_bits_def)

lemma index_bits_index_of_bits:
  assumes "\<And>k. k < m \<Longrightarrow> b k = 0 \<or> b k = 1"
  shows "index_bits m (index_of_bits m b) = from_fn m b"
  unfolding index_bits_def
  using assms
  by (intro from_fn_cong)
    (auto simp: index_bit_iff index_of_bits_def bit_horner_sum_bit_iff)

text \<open>The equations of checks 1 to 3, for one first message, at \<open>M + 1\<close> distinct challenges
  determine an index and an opening of the shifted commitment at it, if the bit responses are on
  their lines.\<close>

lemma extracted_opening:
  fixes B :: "('s::field, 'p::ab_group_add) backend" and x :: "nat \<Rightarrow> 's" and f :: "nat \<Rightarrow> 's list"
  assumes laws: "mul_laws B" and m: "2 \<le> bk_M B"
    and x: "inj_on x {..bk_M B}"
    and lines: "\<And>i. i \<le> bk_M B \<Longrightarrow> \<not> nontrivial (line_relation (bk_M B) x za (\<lambda>i k. f i ! k) i)"
      "\<And>i. i \<le> bk_M B \<Longrightarrow> \<not> nontrivial (line_relation (bk_M B) x zc (\<lambda>i k. f i ! k * (x i - f i ! k)) i)"
    and check3: "\<And>i. i \<le> bk_M B \<Longrightarrow>
       (\<Sum>j<N_of B. bk_mul B (ds ! j) (eval_index_poly (bk_M B) (f i) (x i) j)) =
       (\<Sum>n<K. bk_mul B (gens n) (z i n)) + (\<Sum>k<bk_M B. bk_mul B (e ! k) (x i ^ k))"
  defines "j \<equiv> index_of_bits (bk_M B) (\<lambda>k. slope x (\<lambda>i. f i ! k))"
  shows "j < N_of B \<and>
    ds ! j = (\<Sum>n<K. bk_mul B (gens n) (\<Sum>i\<le>bk_M B. z i n * leading_weight x (bk_M B) i))"
proof -
  let ?M = "bk_M B"
  define b where "b k = slope x (\<lambda>i. f i ! k)" for k
  define a where "a k = f 0 ! k - b k * x 0" for k
  define c where "c k = slope x (\<lambda>i. f i ! k * (x i - f i ! k))" for k
  define d where "d k = f 0 ! k * (x 0 - f 0 ! k) - c k * x 0" for k
  have ab: "f i ! k = b k * x i + a k" if "i \<le> ?M" "k < ?M" for i k
    using on_line [OF lines(1) [OF that(1)] that(2)] by (simp add: b_def a_def)
  have dc: "f i ! k * (x i - f i ! k) = c k * x i + d k" if "i \<le> ?M" "k < ?M" for i k
    using on_line [OF lines(2) [OF that(1)] that(2)] by (simp add: c_def d_def)
  have bits: "b k = 0 \<or> b k = 1" if "k < ?M" for k
  proof -
    have "b k * (1 - b k) = 0"
    proof (rule quadratic_lead_zero [of _ x "a k * (1 - 2 * b k) - c k" "- a k * a k - d k"])
      show "inj_on x {..<3}"
        using x by (rule inj_on_subset) (use m in auto)
      fix i :: nat
      assume "i < 3"
      then have "i \<le> ?M" using m by simp
      with dc [OF this that] ab [OF this that] show
        "b k * (1 - b k) * x i * x i + (a k * (1 - 2 * b k) - c k) * x i + (- a k * a k - d k) = 0"
        by (simp add: algebra_simps)
    qed
    then show ?thesis by simp
  qed
  have j_b: "j = index_of_bits ?M b"
    by (simp add: j_def b_def [abs_def])
  have j: "j < N_of B"
    by (simp add: j_b index_of_bits_less N_of_pow)
  define p where "p j' = index_poly ?M (index_bits ?M j) (from_fn ?M a) j'" for j'
  have "f i ! k = index_bits ?M j ! k * x i + from_fn ?M a ! k" if "i \<le> ?M" "k < ?M" for i k
    using ab that index_bits_index_of_bits [of ?M b] bits by (simp add: j_b)
  then have eval: "eval_index_poly ?M (f i) (x i) j' = (\<Sum>k<?M. p j' ! k * x i ^ k) + p j' ! ?M * x i ^ ?M"
    if "i \<le> ?M" for i j'
    using that eval_index_poly_eq [of ?M "f i" "index_bits ?M j" "x i" "from_fn ?M a" j']
    by (simp add: p_def poly_val_split)
  have lead: "p j' ! ?M = (if j' = j then 1 else 0)" if "j' < N_of B" for j'
    using that j by (simp add: p_def index_poly_lead_delta N_of_pow)
  define q where "q k = e ! k - (\<Sum>j'<N_of B. bk_mul B (ds ! j') (p j' ! k))" for k
  have key: "bk_mul B (ds ! j) (x i ^ ?M) =
      (\<Sum>n<K. bk_mul B (gens n) (z i n)) + (\<Sum>k<?M. bk_mul B (q k) (x i ^ k))" if "i \<le> ?M" for i
  proof -
    have "(\<Sum>j'<N_of B. bk_mul B (ds ! j') (p j' ! ?M * x i ^ ?M)) =
        (\<Sum>j'<N_of B. if j' = j then bk_mul B (ds ! j) (x i ^ ?M) else 0)"
      using laws by (intro sum.cong) (auto simp: lead mul_simps)
    then have "(\<Sum>j'<N_of B. bk_mul B (ds ! j') (eval_index_poly ?M (f i) (x i) j')) =
        (\<Sum>k<?M. bk_mul B (\<Sum>j'<N_of B. bk_mul B (ds ! j') (p j' ! k)) (x i ^ k)) + bk_mul B (ds ! j) (x i ^ ?M)"
      using that laws j
      by (simp add: eval mul_simps sum.distrib mul_sum_left mul_sum_right sum.swap [of _ "{..<?M}"])
    with check3 [OF that] show ?thesis
      using laws by (simp add: q_def mul_simps sum_subtractf algebra_simps)
  qed
  define v where "v = leading_weight x ?M"
  have v: "\<And>k. k \<le> ?M \<Longrightarrow> (\<Sum>i\<le>?M. v i * x i ^ k) = (if k = ?M then 1 else 0)"
    unfolding v_def by (rule leading_weights [OF x])
  have "ds ! j = (\<Sum>i\<le>?M. bk_mul B (bk_mul B (ds ! j) (x i ^ ?M)) (v i))"
    using v [of ?M] laws by (simp add: mul_simps mul_sum_left [OF laws, symmetric] mult.commute)
  also have "\<dots> = (\<Sum>n<K. bk_mul B (gens n) (\<Sum>i\<le>?M. z i n * v i)) +
      (\<Sum>k<?M. bk_mul B (q k) (\<Sum>i\<le>?M. v i * x i ^ k))"
    using laws key
    by (simp add: mul_simps sum.distrib mul_sum_left mul_sum_right mult.commute
        sum.swap [of _ "{..?M}"])
  also have "(\<Sum>k<?M. bk_mul B (q k) (\<Sum>i\<le>?M. v i * x i ^ k)) = 0"
    using laws v by (simp add: mul_simps)
  finally show ?thesis
    using j by (simp add: v_def)
qed

text \<open>The extractor: the first relation among the differences from the lines, and the opening. It
  computes with the scalars of the proofs and the challenges only.\<close>

definition za_scalar :: "('s::field, 'p) backend \<Rightarrow> (nat \<Rightarrow> pid_proof) \<Rightarrow> nat \<Rightarrow> 's" where
  "za_scalar B p i = scalar_from_bytes B (pf_z_a (p i))"

definition zc_scalar :: "('s::field, 'p) backend \<Rightarrow> (nat \<Rightarrow> pid_proof) \<Rightarrow> nat \<Rightarrow> 's" where
  "zc_scalar B p i = scalar_from_bytes B (pf_z_c (p i))"

definition f_scalar :: "('s::field, 'p) backend \<Rightarrow> (nat \<Rightarrow> pid_proof) \<Rightarrow> nat \<Rightarrow> nat \<Rightarrow> 's" where
  "f_scalar B p i k = scalar_from_bytes B (pf_f (p i) ! k)"

definition extract_relation ::
    "('s::field, 'p) backend \<Rightarrow> (nat \<Rightarrow> 's) \<Rightarrow> (nat \<Rightarrow> pid_proof) \<Rightarrow> ('s \<times> 's list) option" where
  "extract_relation B x p =
     find nontrivial
       (map (line_relation (bk_M B) x (za_scalar B p) (f_scalar B p)) [0..<bk_M B + 1] @
        map (line_relation (bk_M B) x (zc_scalar B p) (\<lambda>i k. f_scalar B p i k * (x i - f_scalar B p i k)))
          [0..<bk_M B + 1])"

lemma extract_relation_Some:
  assumes "extract_relation B x p = Some rel"
  shows "nontrivial rel \<and> (\<exists>i\<le>bk_M B.
     rel = line_relation (bk_M B) x (za_scalar B p) (f_scalar B p) i \<or>
     rel = line_relation (bk_M B) x (zc_scalar B p) (\<lambda>i k. f_scalar B p i k * (x i - f_scalar B p i k)) i)"
proof -
  from find_SomeD [OF assms [unfolded extract_relation_def]]
  show ?thesis
    unfolding set_append set_map set_upt by (auto simp: less_Suc_eq_le simp del: upt_Suc)
qed

lemma extract_relation_None:
  assumes "extract_relation B x p = None" "i \<le> bk_M B"
  shows "\<not> nontrivial (line_relation (bk_M B) x (za_scalar B p) (f_scalar B p) i)"
    and "\<not> nontrivial (line_relation (bk_M B) x (zc_scalar B p)
      (\<lambda>i k. f_scalar B p i k * (x i - f_scalar B p i k)) i)"
  using assms(2)
  by (intro find_NoneD [OF assms(1) [unfolded extract_relation_def]];
      simp add: less_Suc_eq_le del: upt_Suc)+

definition extract_opening ::
    "('s::field, 'p) backend \<Rightarrow> nat \<Rightarrow> (nat \<Rightarrow> 's) \<Rightarrow> (nat \<Rightarrow> pid_proof) \<Rightarrow> nat \<times> 's list" where
  "extract_opening B n x p =
     (index_of_bits (bk_M B) (\<lambda>k. slope x (\<lambda>i. f_scalar B p i k)),
      from_fn n (\<lambda>r. \<Sum>i\<le>bk_M B. scalar_from_bytes B (pf_z_responses (p i) ! r) * leading_weight x (bk_M B) i))"

text \<open>Replacing the hash function, as the forking lemma does, changes the challenges and nothing
  else.\<close>

lemma with_hash_basics:
  "bit_generators (B\<lparr>bk_sha256 := h\<rparr>) = bit_generators B"
  "N_of (B\<lparr>bk_sha256 := h\<rparr>) = N_of B"
  "bytes_to_scalar (B\<lparr>bk_sha256 := h\<rparr>) = bytes_to_scalar B"
  "scalar_from_bytes (B\<lparr>bk_sha256 := h\<rparr>) = scalar_from_bytes B"
  "point_to_bytes (B\<lparr>bk_sha256 := h\<rparr>) = point_to_bytes B"
  "point_from_bytes (B\<lparr>bk_sha256 := h\<rparr>) = point_from_bytes B"
  "random_scalar (B\<lparr>bk_sha256 := h\<rparr>) = random_scalar B"
  by (simp_all add: fun_eq_iff bit_generators_def N_of_def bytes_to_scalar_def scalar_from_bytes_def
      point_to_bytes_def point_from_bytes_def random_scalar_def)

lemma with_hash_laws:
  "mul_laws (B\<lparr>bk_sha256 := h\<rparr>) \<longleftrightarrow> mul_laws B"
  "codec_laws (B\<lparr>bk_sha256 := h\<rparr>) \<longleftrightarrow> codec_laws B"
  unfolding mul_laws_def codec_laws_def by simp_all

lemma with_hash_simps:
  "decode_points (B\<lparr>bk_sha256 := h\<rparr>) p = decode_points B p"
  "verifier_shifted_set (B\<lparr>bk_sha256 := h\<rparr>) shift xs = verifier_shifted_set B shift xs"
  "shifted_points (B\<lparr>bk_sha256 := h\<rparr>) crs xs l s = shifted_points B crs xs l s"
  "bit_commitment (B\<lparr>bk_sha256 := h\<rparr>) g r c = bit_commitment B g r c"
  "draw_coins (B\<lparr>bk_sha256 := h\<rparr>) rng n = draw_coins B rng n"
  "decomposition_points (B\<lparr>bk_sha256 := h\<rparr>) rho gs bits a ds = decomposition_points B rho gs bits a ds"
  "commit_master_identity (B\<lparr>bk_sha256 := h\<rparr>) crs nuls k nm = commit_master_identity B crs nuls k nm"
  by (simp_all add: with_hash_basics decode_points_def verifier_shifted_set_def shifted_points_def
      bit_commitment_def draw_coins_def decomposition_points_def commit_master_identity_def
      cong: option.case_cong)

definition first_message :: "pid_proof \<Rightarrow> bytes \<times> bytes \<times> bytes \<times> bytes \<times> bytes list \<times> bytes" where
  "first_message p = (pf_a p, pf_b p, pf_c p, pf_d p, pf_e_poly p, pf_nullifier_scalar p)"

lemma first_message_decode: "first_message p = first_message q \<Longrightarrow> decode_points B p = decode_points B q"
  by (simp add: first_message_def decode_points_def cong: option.case_cong)

text \<open>One accepting proof in the form the extractor uses.\<close>

lemma accepted_equations:
  fixes B :: "('s::field, 'p::ab_group_add) backend"
  assumes "wf_generators crs"
    and "verify_payment_identity_registration_proof B crs xs l set_id pseudonym nul p = Inr True"
    and dec: "decode_points B p = Some (a, b, c, d, e)"
  defines "x \<equiv> transcript_challenge B crs xs l set_id pseudonym nul p"
    and "f \<equiv> from_fn (bk_M B) (\<lambda>k. scalar_from_bytes B (pf_f p ! k))"
  shows "bit_commitment B (crs_g crs) (scalar_from_bytes B (pf_z_a p)) (\<lambda>k. f ! k) = a + bk_mul B b x"
    and "bit_commitment B (crs_g crs) (scalar_from_bytes B (pf_z_c p)) (\<lambda>k. f ! k * (x - f ! k)) =
      d + bk_mul B c x"
    and "(\<Sum>j<N_of B. bk_mul B (shifted_points B crs xs l (bytes_to_scalar B (pf_nullifier_scalar p)) ! j)
        (eval_index_poly (bk_M B) f x j)) =
      (\<Sum>i<num_merchants crs + 1. bk_mul B (active_generators crs l ! i)
        (scalar_from_bytes B (pf_z_responses p ! i))) + (\<Sum>k<bk_M B. bk_mul B (e ! k) (x ^ k))"
  using verify_iff [OF assms(1), of B xs l set_id pseudonym nul p] assms(2) dec
  by (simp_all add: bit_commitment_sum x_def f_def transcript_challenge_def shifted_points_def Let_def
      algebra_simps)

text \<open>C2. Special soundness. Take \<open>M + 1\<close> accepted proofs with the same first message and
  the same revealed scalar \<open>s\<close>, obtained with different hash functions so that their
  challenges differ. The extractor, which sees the scalars of the proofs and the challenges only,
  outputs either coefficients, not all zero, of a discrete-logarithm relation between \<open>g\<close> and the bit
  generators, or an index \<open>j\<close> and an opening of the member \<open>j\<close>, shifted by \<open>s\<close> at the service, over
  \<open>g\<close>, the generators of the other services and \<open>h_name\<close>.\<close>

theorem membership_special_soundness:
  fixes B :: "('s::field, 'p::ab_group_add) backend"
  assumes laws: "mul_laws B" and m: "2 \<le> bk_M B" and wf: "wf_generators crs"
    and accepted: "\<forall>i\<le>bk_M B. verify_payment_identity_registration_proof (B\<lparr>bk_sha256 := h i\<rparr>) crs xs l
      set_id pseudonym nul (p i) = Inr True"
    and same: "\<forall>i\<le>bk_M B. first_message (p i) = first_message (p 0)"
    and x: "\<forall>i. x i = transcript_challenge (B\<lparr>bk_sha256 := h i\<rparr>) crs xs l set_id pseudonym nul (p i)"
    and distinct: "inj_on x {..bk_M B}"
  shows "case extract_relation B x p of
      Some (r, cs) \<Rightarrow>
        (r \<noteq> 0 \<or> (\<exists>c\<in>set cs. c \<noteq> 0)) \<and> length cs = bk_M B \<and>
        bk_mul B (crs_g crs) r + (\<Sum>k<bk_M B. bk_mul B (bit_generators B ! k) (cs ! k)) = 0
    | None \<Rightarrow>
        (case extract_opening B (num_merchants crs + 1) x p of (j, ws) \<Rightarrow>
           j < N_of B \<and> length ws = num_merchants crs + 1 \<and>
           shifted_points B crs xs l (bytes_to_scalar B (pf_nullifier_scalar (p 0))) ! j =
             (\<Sum>i<num_merchants crs + 1. bk_mul B (active_generators crs l ! i) (ws ! i)))"
proof -
  obtain a b c d e where "decode_points B (p 0) = Some (a, b, c, d, e)"
    using iffD1 [OF verify_iff [OF wf] accepted [rule_format, OF le0]]
    unfolding with_hash_simps with_hash_basics by blast
  then have dec: "decode_points (B\<lparr>bk_sha256 := h i\<rparr>) (p i) = Some (a, b, c, d, e)" if "i \<le> bk_M B" for i
    by (simp only: with_hash_simps with_hash_basics first_message_decode [OF same [rule_format, OF that]])
  have s: "pf_nullifier_scalar (p i) = pf_nullifier_scalar (p 0)" if "i \<le> bk_M B" for i
    using same [rule_format, OF that] by (simp add: first_message_def)
  define f where "f i = from_fn (bk_M B) (f_scalar B p i)" for i
  have eqs:
    "bit_commitment B (crs_g crs) (za_scalar B p i) (f_scalar B p i) = a + bk_mul B b (x i)"
    "bit_commitment B (crs_g crs) (zc_scalar B p i) (\<lambda>k. f_scalar B p i k * (x i - f_scalar B p i k)) =
      d + bk_mul B c (x i)"
    "(\<Sum>j<N_of B. bk_mul B (shifted_points B crs xs l (bytes_to_scalar B (pf_nullifier_scalar (p 0))) ! j)
        (eval_index_poly (bk_M B) (f i) (x i) j)) =
      (\<Sum>n<num_merchants crs + 1. bk_mul B (active_generators crs l ! n)
        (scalar_from_bytes B (pf_z_responses (p i) ! n))) + (\<Sum>k<bk_M B. bk_mul B (e ! k) (x i ^ k))"
    if "i \<le> bk_M B" for i
    using accepted_equations [OF wf accepted [rule_format, OF that] dec [OF that]]
    unfolding with_hash_simps with_hash_basics s [OF that] x [rule_format, symmetric]
    by (simp_all add: f_def f_scalar_def [abs_def] za_scalar_def zc_scalar_def bit_commitment_sum)
  have x01: "x 0 \<noteq> x 1" "1 < Suc (bk_M B)"
    using inj_onD [OF distinct, of 0 1] m by auto
  note holds = line_relation_holds [OF laws _ x01(2,1), where g = "crs_g crs"]
  show ?thesis
  proof (cases "extract_relation B x p")
    case (Some rel)
    then obtain i where i: "i \<le> bk_M B" and rel: "nontrivial rel"
      "rel = line_relation (bk_M B) x (za_scalar B p) (f_scalar B p) i \<or>
       rel = line_relation (bk_M B) x (zc_scalar B p) (\<lambda>i k. f_scalar B p i k * (x i - f_scalar B p i k)) i"
      using extract_relation_Some by blast
    have "is_relation B (crs_g crs) (line_relation (bk_M B) x (za_scalar B p) (f_scalar B p) i)"
      by (rule holds [where P = a and Q = b]) (use i eqs(1) in auto)
    moreover have "is_relation B (crs_g crs) (line_relation (bk_M B) x (zc_scalar B p)
        (\<lambda>i k. f_scalar B p i k * (x i - f_scalar B p i k)) i)"
      by (rule holds [where P = d and Q = c]) (use i eqs(2) in auto)
    ultimately have "is_relation B (crs_g crs) rel" "length (snd rel) = bk_M B"
      using rel(2) by (auto simp: line_relation_def)
    then show ?thesis
      using Some rel(1) by (cases rel) (simp add: is_relation_def nontrivial_def)
  next
    case None
    note trivial = extract_relation_None [OF this]
    have lines: "\<not> nontrivial (line_relation (bk_M B) x (za_scalar B p) (\<lambda>i k. f i ! k) i)"
      "\<not> nontrivial (line_relation (bk_M B) x (zc_scalar B p) (\<lambda>i k. f i ! k * (x i - f i ! k)) i)"
      if "i \<le> bk_M B" for i
      using trivial [OF that] by (simp_all add: f_def line_relation_def off_line_def slope_def cong: from_fn_cong)
    have "index_of_bits (bk_M B) (\<lambda>k. slope x (\<lambda>i. f i ! k)) =
        index_of_bits (bk_M B) (\<lambda>k. slope x (\<lambda>i. f_scalar B p i k))"
      by (auto simp: index_of_bits_def f_def intro!: arg_cong [where f = "horner_sum of_bool 2"])
    with extracted_opening [OF laws m distinct lines eqs(3)] None show ?thesis
      by (simp add: extract_opening_def)
  qed
qed

definition sample_hash :: "nat \<Rightarrow> (gf5, gf5) backend" where
  "sample_hash i = sample\<lparr>bk_sha256 := \<lambda>_. sample_key i\<rparr>"

definition sample_message :: "nat \<Rightarrow> pid_proof" where
  "sample_message i = honest_message (sample_hash i) sample_key sample_crs sample_set 2 1 (sample_key 9)
     (sample_key 2) sample_nullifiers [7] (point_to_bytes sample (bk_mul sample (crs_g sample_crs)
       (bytes_to_scalar sample (sample_nullifiers ! 0)))) sample_name_scalar"

lemma sample_hash_laws: "mul_laws (sample_hash i)" "codec_laws (sample_hash i)"
  using sample_mul_laws sample_codec_laws by (simp_all only: sample_hash_def with_hash_laws)

lemma sample_message_accepted:
  "verify_payment_identity_registration_proof (sample_hash i) sample_crs sample_set 1 (sample_key 9) [7]
     (point_to_bytes sample (bk_mul sample (crs_g sample_crs)
       (bytes_to_scalar sample (sample_nullifiers ! 0)))) (sample_message i) = Inr True"
proof -
  have "commit_master_identity (sample_hash i) sample_crs sample_nullifiers (sample_key 2) sample_name_scalar
      = Inr (sample_set ! 2)" "all_decode (sample_hash i) sample_set"
    using sample_commit sample_set_decodes
    by (simp_all add: sample_hash_def with_hash_simps with_hash_basics all_decode_def)
  then show ?thesis
    unfolding sample_message_def
    by (intro honest_message_accepted [OF sample_hash_laws sample_wf_generators])
      (simp_all add: sample_hash_def with_hash_basics)
qed

lemma first_message_with_hash:
  "first_message (honest_message (B\<lparr>bk_sha256 := h\<rparr>) rng crs xs j l set_id k nuls ps nul n) =
   first_message (honest_message B rng crs xs j l set_id k nuls ps nul n)"
  by (simp add: first_message_def honest_message_def prover_message_def Let_def with_hash_simps
      with_hash_basics)

lemma sample_challenge:
  "transcript_challenge (sample_hash i) sample_crs sample_set 1 (sample_key 9) [7]
     (point_to_bytes sample (bk_mul sample (crs_g sample_crs)
       (bytes_to_scalar sample (sample_nullifiers ! 0)))) (sample_message i) = gf5_of (be_val (sample_key i))"
  using iffD1 [OF verify_iff [OF sample_wf_generators] sample_message_accepted [of i]]
  by (auto simp: transcript_challenge_def Let_def fiat_shamir_challenge_def bytes_to_scalar_def
      sample_hash_def sample_def)

lemma sample_challenges_distinct: "inj_on (\<lambda>i. gf5_of (be_val (sample_key i))) {..2}"
proof -
  have "{..2::nat} = {0, 1, 2}" by auto
  then show ?thesis
    by (simp add: sample_key_def be_val_zeros be_val_Cons gf5_of_def)
qed

theorem membership_special_soundness_witness:
  "case extract_relation sample (\<lambda>i. gf5_of (be_val (sample_key i))) sample_message of
      Some (r, cs) \<Rightarrow>
        (r \<noteq> 0 \<or> (\<exists>c\<in>set cs. c \<noteq> 0)) \<and> length cs = bk_M sample \<and>
        bk_mul sample (crs_g sample_crs) r + (\<Sum>k<bk_M sample. bk_mul sample (bit_generators sample ! k) (cs ! k)) = 0
    | None \<Rightarrow>
        (case extract_opening sample (num_merchants sample_crs + 1) (\<lambda>i. gf5_of (be_val (sample_key i))) sample_message of
          (j, ws) \<Rightarrow>
           j < N_of sample \<and> length ws = num_merchants sample_crs + 1 \<and>
           shifted_points sample sample_crs sample_set 1
             (bytes_to_scalar sample (pf_nullifier_scalar (sample_message 0))) ! j =
             (\<Sum>i<num_merchants sample_crs + 1. bk_mul sample (active_generators sample_crs 1 ! i) (ws ! i)))"
proof (rule membership_special_soundness [where h = "\<lambda>i _. sample_key i"])
  show "\<forall>i\<le>bk_M sample. verify_payment_identity_registration_proof (sample\<lparr>bk_sha256 := \<lambda>_. sample_key i\<rparr>)
      sample_crs sample_set 1 (sample_key 9) [7] (point_to_bytes sample (bk_mul sample (crs_g sample_crs)
       (bytes_to_scalar sample (sample_nullifiers ! 0)))) (sample_message i) = Inr True"
    using sample_message_accepted by (simp add: sample_hash_def)
  show "\<forall>i\<le>bk_M sample. first_message (sample_message i) = first_message (sample_message 0)"
    by (simp add: sample_message_def sample_hash_def first_message_with_hash)
  show "\<forall>i. gf5_of (be_val (sample_key i)) = transcript_challenge (sample\<lparr>bk_sha256 := \<lambda>_. sample_key i\<rparr>)
      sample_crs sample_set 1 (sample_key 9) [7] (point_to_bytes sample (bk_mul sample (crs_g sample_crs)
       (bytes_to_scalar sample (sample_nullifiers ! 0)))) (sample_message i)"
    by (simp add: sample_challenge [unfolded One_nat_def] sample_hash_def [symmetric])
  show "inj_on (\<lambda>i. gf5_of (be_val (sample_key i))) {..bk_M sample}"
    using sample_challenges_distinct by simp
qed (simp_all add: sample_proof_hyps)

theorem verifier_accepts_iff_witness:
  "length (pf_z_responses (sample_message 0)) = 3 \<and>
   (\<exists>t. decode_points (sample_hash 0) (sample_message 0) = Some t)"
  using iffD1 [OF verifier_accepts_iff [OF sample_wf_generators] sample_message_accepted [of 0]]
  by auto

end
