(* ===== verification/Credential.thy ===== *)
theory Credential
  imports Sample_World
begin

text \<open>
  \<open>src/src/core/credential.rs\<close>: the master credential \<open>(\<Phi>, sk, r, k)\<close>, its nullifiers,
  and the recomputation of \<open>\<Phi>\<close> from the stored secrets.
\<close>

record credential =
  mc_phi :: bytes
  mc_sk :: bytes
  mc_r :: bytes
  mc_k :: bytes
  mc_friendly_name :: str

definition expect :: "string \<Rightarrow> failure + 'a \<Rightarrow> failure + 'a" where
  "expect msg r = (case r of Inl _ \<Rightarrow> Inl (Panic msg) | Inr x \<Rightarrow> Inr x)"

lemma expect_simps [simp]: "expect msg (Inl e) = Inl (Panic msg)" "expect msg (Inr x) = Inr x"
  by (simp_all add: expect_def)

lemma expect_Inr_iff [simp]: "expect msg r = Inr x \<longleftrightarrow> r = Inr x"
  by (simp add: expect_def split: sum.splits)

definition credential_create ::
    "('s, 'p::ab_group_add) backend \<Rightarrow> 'p crs \<Rightarrow> bytes \<Rightarrow> bytes \<Rightarrow> bytes \<Rightarrow> str \<Rightarrow> failure + credential" where
  "credential_create B crs sk r k friendly_name =
     (let names = crs_names crs;
          nullifiers = derive_all_nullifiers B sk names;
          name_scalar = to_scalar_bytes B friendly_name in
      rbind (expect ''nullifier count matches CRS users''
               (commit_master_identity B crs nullifiers k name_scalar)) (\<lambda>phi.
      Inr \<lparr>mc_phi = phi, mc_sk = sk, mc_r = r, mc_k = k, mc_friendly_name = friendly_name\<rparr>))"

definition nullifier_scalar :: "('s, 'p) backend \<Rightarrow> credential \<Rightarrow> 'p crs \<Rightarrow> nat \<Rightarrow> failure + bytes" where
  "nullifier_scalar B c crs l =
     (if 1 \<le> l \<and> l \<le> num_merchants crs
      then Inr (derive_nullifier B (mc_sk c) (m_name (crs_merchants crs ! (l - 1))))
      else Inl (Panic ''provider index out of range''))"

definition all_nullifier_scalars :: "('s, 'p) backend \<Rightarrow> credential \<Rightarrow> 'p crs \<Rightarrow> bytes list" where
  "all_nullifier_scalars B c crs = derive_all_nullifiers B (mc_sk c) (crs_names crs)"

definition public_nullifier :: "('s, 'p) backend \<Rightarrow> credential \<Rightarrow> 'p crs \<Rightarrow> nat \<Rightarrow> failure + bytes" where
  "public_nullifier B c crs l =
     (if 1 \<le> l \<and> l \<le> num_merchants crs
      then Inr (derive_public_nullifier B (mc_sk c) (m_name (crs_merchants crs ! (l - 1))) (crs_g crs))
      else Inl (Panic ''provider index out of range''))"

definition derive_child_randomness :: "('s, 'p) backend \<Rightarrow> bytes \<Rightarrow> str \<Rightarrow> bytes" where
  "derive_child_randomness B real_randomness name =
     bk_hkdf B (bk_sha256 B name) real_randomness (ascii ''CRS-ASC-child-randomness'')"

definition create_with_name ::
    "('s, 'p::ab_group_add) backend \<Rightarrow> 'p crs \<Rightarrow> bytes \<Rightarrow> bytes \<Rightarrow> str \<Rightarrow> bytes \<Rightarrow> str \<Rightarrow> failure + credential" where
  "create_with_name B crs sk real_randomness name k friendly_name =
     (let r = derive_child_randomness B real_randomness name
      in credential_create B crs sk r k friendly_name)"

definition recompute_phi :: "('s, 'p::ab_group_add) backend \<Rightarrow> credential \<Rightarrow> 'p crs \<Rightarrow> failure + bytes" where
  "recompute_phi B c crs =
     (let names = crs_names crs;
          nullifiers = derive_all_nullifiers B (mc_sk c) names;
          name_scalar = to_scalar_bytes B (mc_friendly_name c) in
      expect ''nullifier count matches CRS users''
        (commit_master_identity B crs nullifiers (mc_k c) name_scalar))"

section \<open>Lemmas\<close>

text \<open>The opening of \<open>\<Phi>\<close> that a credential stands for.\<close>

definition credential_point :: "('s, 'p::ab_group_add) backend \<Rightarrow> 'p crs \<Rightarrow> credential \<Rightarrow> 'p" where
  "credential_point B crs c =
     master_point B crs (bytes_to_scalar B (mc_k c))
       (\<lambda>i. bytes_to_scalar B (all_nullifier_scalars B c crs ! i))
       (bytes_to_scalar B (to_scalar_bytes B (mc_friendly_name c)))"

lemma length_all_nullifier_scalars [simp]:
  "length (all_nullifier_scalars B c crs) = num_merchants crs"
  by (simp add: all_nullifier_scalars_def)

lemma nth_crs_names: "i < num_merchants crs \<Longrightarrow> crs_names crs ! i = m_name (crs_merchants crs ! i)"
  by (simp add: crs_names_def num_merchants_def)

lemma commit_all_nullifiers:
  "length (crs_generators crs) = num_merchants crs \<Longrightarrow>
   commit_master_identity B crs (all_nullifier_scalars B c crs) (mc_k c)
     (to_scalar_bytes B (mc_friendly_name c)) = Inr (point_to_bytes B (credential_point B crs c))"
  by (simp add: commit_master_identity_point credential_point_def)

lemma credential_create_wf:
  "length (crs_generators crs) = num_merchants crs \<Longrightarrow>
   credential_create B crs sk r k fname = Inr c \<longleftrightarrow>
     mc_sk c = sk \<and> mc_r c = r \<and> mc_k c = k \<and> mc_friendly_name c = fname \<and>
     mc_phi c = point_to_bytes B (credential_point B crs c)"
  by (cases c) (auto simp: credential_create_def Let_def commit_master_identity_point
      credential_point_def all_nullifier_scalars_def)

lemma recompute_phi_wf:
  "length (crs_generators crs) = num_merchants crs \<Longrightarrow>
   recompute_phi B c crs = Inr (point_to_bytes B (credential_point B crs c))"
  using commit_all_nullifiers [of crs B c] by (simp add: recompute_phi_def all_nullifier_scalars_def)

lemma public_nullifier_scalar:
  assumes "1 \<le> l" "l \<le> num_merchants crs"
  shows "public_nullifier B c crs l = Inr (point_to_bytes B
     (bk_mul B (crs_g crs) (bytes_to_scalar B (all_nullifier_scalars B c crs ! (l - 1)))))"
  using assms
  by (simp add: public_nullifier_def derive_public_nullifier_point all_nullifier_scalars_def nth_crs_names)

section \<open>Properties\<close>

text \<open>The secrets suffice: from \<open>(sk, r, k)\<close>, the friendly name and the CRS, the stored
  \<open>\<Phi>\<close> is recomputed, whichever of the two constructors made the credential. For a CRS with as
  many generators as merchants creation never panics.\<close>

theorem recompute_phi_create:
  "length (crs_generators crs) = num_merchants crs \<Longrightarrow>
     \<exists>c. create_with_name B crs sk rand name k fname = Inr c
       \<and> mc_r c = derive_child_randomness B rand name
       \<and> recompute_phi B c crs = Inr (mc_phi c)"
  by (intro exI [of _ "\<lparr>mc_phi = point_to_bytes B (credential_point B crs
        \<lparr>mc_phi = [], mc_sk = sk, mc_r = [], mc_k = k, mc_friendly_name = fname\<rparr>), mc_sk = sk,
        mc_r = derive_child_randomness B rand name, mc_k = k, mc_friendly_name = fname\<rparr>"])
    (simp add: create_with_name_def credential_create_wf recompute_phi_wf credential_point_def
      all_nullifier_scalars_def)

theorem recompute_phi_create_witness:
  "\<exists>c. create_with_name sample sample_crs (sample_key 1) (sample_key 2) (ascii ''n'') (sample_key 3)
          (ascii ''alice'') = Inr c
     \<and> mc_r c = derive_child_randomness sample (sample_key 2) (ascii ''n'')
     \<and> recompute_phi sample c sample_crs = Inr (mc_phi c)"
  by (rule recompute_phi_create) simp

text \<open>A public nullifier identifies the nullifier scalar: two users have the same public
  nullifier at two services (or at one) exactly when the scalars derived by HKDF are equal, so
  that the Sybil check never confuses different scalars and never misses equal ones.\<close>

theorem public_nullifier_eq_iff:
  assumes "mul_laws B" "codec_laws B" "crs_g crs \<noteq> 0"
    and "1 \<le> l" "l \<le> num_merchants crs" "1 \<le> l'" "l' \<le> num_merchants crs"
  shows "public_nullifier B c crs l = public_nullifier B c' crs l' \<longleftrightarrow>
     bytes_to_scalar B (all_nullifier_scalars B c crs ! (l - 1)) =
     bytes_to_scalar B (all_nullifier_scalars B c' crs ! (l' - 1))"
  using assms by (simp add: public_nullifier_scalar point_to_bytes_inj mul_eq_iff del: One_nat_def)

definition sample_credential :: "nat \<Rightarrow> credential" where
  "sample_credential i =
     \<lparr>mc_phi = sample_phi, mc_sk = sample_key i, mc_r = sample_key 3, mc_k = sample_key 2,
      mc_friendly_name = ascii ''alice''\<rparr>"

theorem public_nullifier_eq_iff_witness:
  "public_nullifier sample (sample_credential 1) sample_crs 1 =
     public_nullifier sample (sample_credential 2) sample_crs 2 \<longleftrightarrow>
   bytes_to_scalar sample (all_nullifier_scalars sample (sample_credential 1) sample_crs ! (1 - 1)) =
     bytes_to_scalar sample (all_nullifier_scalars sample (sample_credential 2) sample_crs ! (2 - 1))"
  by (rule public_nullifier_eq_iff) (simp_all add: sample_laws)

end
