(* ===== verification/Request.thy ===== *)
theory Request
  imports Credential
begin

text \<open>
  \<open>src/src/core/request.rs\<close>: the child secret key and the pseudonym of a service, and the
  Schnorr proof that a payment request carries. The secp256k1 and bitcoin crates behind
  \<open>pseudonym_to_address\<close> are its parameters.
\<close>

record payment_request_proof =
  rq_r :: bytes
  rq_s :: bytes

record payment_request =
  rq_amount :: u64
  rq_pseudonym :: bytes
  rq_proof :: payment_request_proof

definition derive_payment_request_secret_key :: "('s, 'p) backend \<Rightarrow> bytes \<Rightarrow> str \<Rightarrow> bytes" where
  "derive_payment_request_secret_key B child_randomness name =
     bk_hkdf B name child_randomness (ascii ''CRS-ASC-child-secret-key'')"

definition derive_payment_request_pseudonym :: "('s, 'p) backend \<Rightarrow> bytes \<Rightarrow> str \<Rightarrow> 'p \<Rightarrow> bytes" where
  "derive_payment_request_pseudonym B child_randomness name g =
     (let csk = derive_payment_request_secret_key B child_randomness name;
          scalar = bytes_to_scalar B csk;
          point = bk_mul B g scalar
      in bk_to_bytes B point)"

definition pseudonym_to_address ::
    "(bytes \<Rightarrow> 'e + 'pk) \<Rightarrow> ('pk \<Rightarrow> 'xonly) \<Rightarrow> ('xonly \<Rightarrow> 'net \<Rightarrow> 'addr) \<Rightarrow> bytes \<Rightarrow> 'net \<Rightarrow> 'e + 'addr" where
  "pseudonym_to_address from_slice x_only_public_key p2tr pseudonym network =
     rbind (from_slice pseudonym) (\<lambda>pk. Inr (p2tr (x_only_public_key pk) network))"

definition payment_request_challenge :: "('s, 'p) backend \<Rightarrow> 'p \<Rightarrow> bytes \<Rightarrow> 'p \<Rightarrow> 's" where
  "payment_request_challenge B g pseudonym r_point =
     bytes_to_scalar B (bk_sha256 B
       (ascii ''CRS-ASC-schnorr-child-auth'' @ point_to_bytes B g @ pseudonym @ point_to_bytes B r_point))"

definition prove_payment_request ::
    "('s::field, 'p) backend \<Rightarrow> rng \<Rightarrow> bytes \<Rightarrow> str \<Rightarrow> 'p \<Rightarrow> payment_request_proof" where
  "prove_payment_request B rng child_randomness name g =
     (let csk = derive_payment_request_secret_key B child_randomness name;
          csk_scalar = bytes_to_scalar B csk;
          pseudonym = point_to_bytes B (bk_mul B g csk_scalar);
          t = random_scalar B rng 0;
          r_point = bk_mul B g t;
          e = payment_request_challenge B g pseudonym r_point;
          s = t + e * csk_scalar
      in \<lparr>rq_r = point_to_bytes B r_point, rq_s = bk_repr B s\<rparr>)"

definition verify_payment_request ::
    "('s, 'p::ab_group_add) backend \<Rightarrow> 'p \<Rightarrow> bytes \<Rightarrow> payment_request_proof \<Rightarrow> bool" where
  "verify_payment_request B g pseudonym proof =
     (case point_from_bytes B (rq_r proof) of
        None \<Rightarrow> False
      | Some r_point \<Rightarrow>
          (case point_from_bytes B pseudonym of
             None \<Rightarrow> False
           | Some phi \<Rightarrow>
               (let e = payment_request_challenge B g pseudonym r_point;
                    s = bytes_to_scalar B (rq_s proof);
                    lhs = bk_mul B g s;
                    rhs = r_point + bk_mul B phi e
                in lhs = rhs)))"

definition create_payment_request ::
    "('s::field, 'p) backend \<Rightarrow> rng \<Rightarrow> bytes \<Rightarrow> str \<Rightarrow> 'p \<Rightarrow> u64 \<Rightarrow> payment_request" where
  "create_payment_request B rng child_randomness name g amount =
     (let pseudonym = derive_payment_request_pseudonym B child_randomness name g;
          proof = prove_payment_request B rng child_randomness name g
      in \<lparr>rq_amount = amount, rq_pseudonym = pseudonym, rq_proof = proof\<rparr>)"

lemma verify_payment_request_iff:
  "verify_payment_request B g ps p \<longleftrightarrow>
     (\<exists>R P. point_from_bytes B (rq_r p) = Some R \<and> point_from_bytes B ps = Some P \<and>
        bk_mul B g (bytes_to_scalar B (rq_s p)) = R + bk_mul B P (payment_request_challenge B g ps R))"
  by (auto simp: verify_payment_request_def Let_def split: option.splits)

lemma honest_request_verifies:
  assumes "mul_laws B" "codec_laws B"
  shows "verify_payment_request B g (rq_pseudonym (create_payment_request B rng r name g amount))
     (rq_proof (create_payment_request B rng r name g amount))"
proof -
  define P where "P = bk_mul B g (bytes_to_scalar B (derive_payment_request_secret_key B r name))"
  have "rq_pseudonym (create_payment_request B rng r name g amount) = point_to_bytes B P"
    by (simp add: create_payment_request_def Let_def derive_payment_request_pseudonym_def
        point_to_bytes_def P_def)
  then show ?thesis
    using assms(1,2)
    by (simp add: verify_payment_request_iff create_payment_request_def Let_def
        prove_payment_request_def bytes_to_scalar_def [of B "bk_repr _ _"] P_def mul_simps mult.commute)
qed

text \<open>Completeness of payment requests: the request that the holder of the child
  randomness creates verifies under its pseudonym, for every amount and every nonce.\<close>

theorem payment_request_complete:
  assumes "mul_laws B" "codec_laws B"
  shows "verify_payment_request B g (rq_pseudonym (create_payment_request B rng r name g amount))
     (rq_proof (create_payment_request B rng r name g amount))"
  by (rule honest_request_verifies [OF assms])

theorem payment_request_complete_witness:
  "verify_payment_request sample (crs_g sample_crs)
     (rq_pseudonym (create_payment_request sample sample_key (sample_key 5) (ascii ''a'') (crs_g sample_crs) 100))
     (rq_proof (create_payment_request sample sample_key (sample_key 5) (ascii ''a'') (crs_g sample_crs) 100))"
  by (rule payment_request_complete) (simp_all add: sample_laws)

text \<open>C33. Special soundness of payment requests: two accepted proofs for one pseudonym with the
  same nonce commitment and different challenges (two hash functions) determine the secret key,
  the discrete logarithm of the pseudonym, by the quotient of the differences.\<close>

theorem payment_request_special_soundness:
  fixes B :: "('s::field, 'p::ab_group_add) backend"
  assumes laws: "mul_laws B"
    and p: "verify_payment_request (B\<lparr>bk_sha256 := h\<rparr>) g ps \<lparr>rq_r = r, rq_s = s\<rparr>"
    and p': "verify_payment_request (B\<lparr>bk_sha256 := h'\<rparr>) g ps \<lparr>rq_r = r, rq_s = s'\<rparr>"
    and e: "e = payment_request_challenge (B\<lparr>bk_sha256 := h\<rparr>) g ps (the (point_from_bytes B r))"
    and e': "e' = payment_request_challenge (B\<lparr>bk_sha256 := h'\<rparr>) g ps (the (point_from_bytes B r))"
    and neq: "e \<noteq> e'"
  shows "point_from_bytes B ps = Some (bk_mul B g
     ((bytes_to_scalar B s - bytes_to_scalar B s') / (e - e')))"
proof -
  have basic: "point_from_bytes (B\<lparr>bk_sha256 := k\<rparr>) = point_from_bytes B"
    "bytes_to_scalar (B\<lparr>bk_sha256 := k\<rparr>) = bytes_to_scalar B" for k
    by (simp_all add: fun_eq_iff point_from_bytes_def bytes_to_scalar_def)
  obtain R P where R: "point_from_bytes B r = Some R" and P: "point_from_bytes B ps = Some P"
    and eq: "bk_mul B g (bytes_to_scalar B s) = R + bk_mul B P e"
    "bk_mul B g (bytes_to_scalar B s') = R + bk_mul B P e'"
    using p p' by (auto simp: verify_payment_request_iff basic e e')
  have "bk_mul B P (e - e') = bk_mul B g (bytes_to_scalar B s - bytes_to_scalar B s')"
    by (simp add: mul_diff_left [OF laws] eq)
  then have "P = bk_mul B (bk_mul B g (bytes_to_scalar B s - bytes_to_scalar B s')) (inverse (e - e'))"
    by (rule mul_cancel [OF laws]) (use neq in simp)
  then show ?thesis
    by (simp add: P mul_mul [OF laws] divide_inverse)
qed

text \<open>Two runs on the sample backend with one nonce, under hash functions that give the
  challenges 0 and 1.\<close>

definition sample_run :: "nat \<Rightarrow> payment_request_proof" where
  "sample_run i = prove_payment_request (sample\<lparr>bk_sha256 := \<lambda>_. sample_key i\<rparr>) (\<lambda>_. sample_key 3)
     (sample_key 5) (ascii ''a'') 1"

definition sample_pseudonym :: bytes where
  "sample_pseudonym = point_to_bytes sample
     (bk_mul sample 1 (bytes_to_scalar sample
        (derive_payment_request_secret_key sample (sample_key 5) (ascii ''a''))))"

lemma sample_reduce_key: "i < 5 \<Longrightarrow> bk_reduce sample (sample_key i) = gf5_of i"
  by (simp add: sample_def sample_key_def be_val_zeros be_val_Cons unat_of_nat)

lemma sample_run_accepted:
  "verify_payment_request (sample\<lparr>bk_sha256 := \<lambda>_. sample_key i\<rparr>) 1 sample_pseudonym (sample_run i)"
  using sample_mul_laws sample_codec_laws
  by (simp add: verify_payment_request_iff sample_run_def sample_pseudonym_def prove_payment_request_def
      Let_def point_to_bytes_def point_from_bytes_def bytes_to_scalar_def random_scalar_def
      derive_payment_request_secret_key_def payment_request_challenge_def mul_simps mult.commute)

theorem payment_request_special_soundness_witness:
  "point_from_bytes sample sample_pseudonym = Some (bk_mul sample 1
     ((bytes_to_scalar sample (rq_s (sample_run 0)) - bytes_to_scalar sample (rq_s (sample_run 1)))
        / (gf5_of 0 - gf5_of 1)))"
proof (rule payment_request_special_soundness [where h = "\<lambda>_. sample_key 0" and h' = "\<lambda>_. sample_key 1"])
  have r: "rq_r (sample_run i) = rq_r (sample_run 0)" for i
    by (simp add: sample_run_def prove_payment_request_def Let_def point_to_bytes_def random_scalar_def
        bytes_to_scalar_def)
  show "verify_payment_request (sample\<lparr>bk_sha256 := \<lambda>_. sample_key 0\<rparr>) 1 sample_pseudonym
      \<lparr>rq_r = rq_r (sample_run 0), rq_s = rq_s (sample_run 0)\<rparr>"
    using sample_run_accepted [of 0] by (cases "sample_run 0") simp
  show "verify_payment_request (sample\<lparr>bk_sha256 := \<lambda>_. sample_key 1\<rparr>) 1 sample_pseudonym
      \<lparr>rq_r = rq_r (sample_run 0), rq_s = rq_s (sample_run 1)\<rparr>"
    using sample_run_accepted [of 1] r [of 1] by (cases "sample_run 1") simp
qed (simp_all add: sample_mul_laws payment_request_challenge_def bytes_to_scalar_def sample_reduce_key,
     simp_all add: gf5_of_def)

end
