(* ===== verification/Merchant.thy ===== *)
theory Merchant
  imports Soundness Request
begin

text \<open>
  \<open>src/src/core/merchant.rs\<close>: a merchant receives payment identity registrations. The record
  \<open>merchant\<close> and \<open>merchant_new\<close> are in theory Crs, which carries merchants. The book of
  registrations is an instance of \<open>registration_book\<close>, its runs one of \<open>growing_system\<close>.
\<close>

definition receive_payment_registration ::
    "('s::field, 'p::ab_group_add) backend \<Rightarrow> 'p crs \<Rightarrow> bytes list \<Rightarrow> merchant \<Rightarrow> pid_registration \<Rightarrow>
      failure + (merchant \<times> bytes)" where
  "receive_payment_registration B crs anonymity_set m registration =
     (if m_registered m (pr_pseudonym registration) \<noteq> None
      then Inl (Err ''pseudonym already registered'')
      else
        rbind (verify_payment_identity_registration B crs anonymity_set registration) (\<lambda>valid.
        if \<not> valid then Inl (Err ''payment identity registration proof is invalid'')
        else
          (let pseudonym = pr_pseudonym registration
           in Inr (m\<lparr>m_registered := (m_registered m)(pseudonym \<mapsto> registration)\<rparr>, pseudonym))))"

definition merchant_attempt ::
    "('s::field, 'p::ab_group_add) backend \<Rightarrow> 'p crs \<Rightarrow> bytes list \<Rightarrow> merchant \<Rightarrow> pid_registration \<Rightarrow>
      failure + merchant" where
  "merchant_attempt B crs xs m reg =
     rbind (receive_payment_registration B crs xs m reg) (\<lambda>(m', _). Inr m')"

lemma receive_Inr_iff:
  "receive_payment_registration B crs xs m reg = Inr (m', ps) \<longleftrightarrow>
     m_registered m (pr_pseudonym reg) = None \<and>
     verify_payment_identity_registration B crs xs reg = Inr True \<and>
     m' = m\<lparr>m_registered := (m_registered m)(pr_pseudonym reg \<mapsto> reg)\<rparr> \<and> ps = pr_pseudonym reg"
  by (auto simp: receive_payment_registration_def rbind_Inr_iff Let_def split: if_splits)

lemma merchant_attempt_iff:
  "merchant_attempt B crs xs m reg = Inr m' \<longleftrightarrow>
     m_registered m (pr_pseudonym reg) = None \<and>
     verify_payment_identity_registration B crs xs reg = Inr True \<and>
     m' = m\<lparr>m_registered := (m_registered m)(pr_pseudonym reg \<mapsto> reg)\<rparr>"
  by (auto simp: merchant_attempt_def rbind_Inr_iff receive_Inr_iff)

interpretation merchant_book: registration_book m_registered "merchant_attempt B crs xs" pr_pseudonym "\<lambda>r. r"
  for B :: "('s::field, 'p::ab_group_add) backend" and crs xs
  by unfold_locales (simp_all add: merchant_attempt_iff)

text \<open>Whatever reference string and set each registration comes with, the book holds verified
  registrations under their own pseudonyms, and it only grows.\<close>

definition merchant_step ::
    "('s::field, 'p::ab_group_add) backend \<Rightarrow> merchant \<Rightarrow> 'p crs \<times> bytes list \<times> pid_registration \<Rightarrow> merchant" where
  "merchant_step B m e = (case e of (crs, xs, reg) \<Rightarrow> after_attempt (merchant_attempt B crs xs) m reg)"

definition merchant_ok :: "('s::field, 'p::ab_group_add) backend \<Rightarrow> merchant \<Rightarrow> bool" where
  "merchant_ok B m \<longleftrightarrow>
     (\<forall>ps reg. m_registered m ps = Some reg \<longrightarrow>
        pr_pseudonym reg = ps \<and>
        (\<exists>(crs :: 'p crs) xs. verify_payment_identity_registration B crs xs reg = Inr True))"

interpretation merchant_runs: growing_system "merchant_step B" "merchant_ok B"
    "\<lambda>m m'. m_registered m \<subseteq>\<^sub>m m_registered m' \<and> m_name m' = m_name m"
  for B :: "('s::field, 'p::ab_group_add) backend"
proof
  fix m :: merchant and e :: "'p crs \<times> bytes list \<times> pid_registration"
  obtain crs xs reg where e: "e = (crs, xs, reg)" by (cases e)
  show "merchant_ok B (merchant_step B m e)" if "merchant_ok B m"
    using that
    by (auto simp: merchant_ok_def merchant_step_def e after_attempt_def merchant_attempt_iff
        split: sum.splits if_splits)
  show "m_registered m \<subseteq>\<^sub>m m_registered (merchant_step B m e) \<and> m_name (merchant_step B m e) = m_name m"
    by (auto simp: merchant_step_def e after_attempt_def merchant_attempt_iff map_le_def
        split: sum.splits)
qed (auto intro: map_le_trans)

section \<open>Honest registrations\<close>

definition honest_registration ::
    "('s::field, 'p::ab_group_add) backend \<Rightarrow> rng \<Rightarrow> 'p crs \<Rightarrow> bytes list \<Rightarrow> nat \<Rightarrow> nat \<Rightarrow> bytes \<Rightarrow>
      bytes \<Rightarrow> bytes list \<Rightarrow> bytes \<Rightarrow> str \<Rightarrow> pid_registration" where
  "honest_registration B rng crs xs index l set_id blinding nullifiers pseudonym fname =
     (let nul = point_to_bytes B (bk_mul B (crs_g crs) (bytes_to_scalar B (nullifiers ! (l - 1)))) in
      \<lparr>pr_pseudonym = pseudonym, pr_public_nullifier = nul, pr_set_id = set_id, pr_service_index = l,
       pr_friendly_name = fname,
       pr_proof = honest_message B rng crs xs index l set_id blinding nullifiers pseudonym nul
                    (to_scalar_bytes B fname)\<rparr>)"

lemma honest_registration_sel [simp]:
  "pr_pseudonym (honest_registration B rng crs xs j l d k nuls ps n) = ps"
  "pr_set_id (honest_registration B rng crs xs j l d k nuls ps n) = d"
  "pr_service_index (honest_registration B rng crs xs j l d k nuls ps n) = l"
  "pr_public_nullifier (honest_registration B rng crs xs j l d k nuls ps n) =
     point_to_bytes B (bk_mul B (crs_g crs) (bytes_to_scalar B (nuls ! (l - 1))))"
  "pr_friendly_name (honest_registration B rng crs xs j l d k nuls ps n) = n"
  "pf_name_scalar (pr_proof (honest_registration B rng crs xs j l d k nuls ps n)) = to_scalar_bytes B n"
  by (simp_all add: honest_registration_def Let_def honest_message_def prover_message_sel)

lemma honest_registration_verifies:
  fixes B :: "('s::field, 'p::ab_group_add) backend"
  assumes "mul_laws B" "codec_laws B" "wf_generators crs"
    and "length xs = N_of B" "all_decode B xs" "index < N_of B" "1 \<le> l" "l \<le> num_merchants crs"
    and "commit_master_identity B crs nullifiers blinding (to_scalar_bytes B fname) = Inr (xs ! index)"
  shows "verify_payment_identity_registration B crs xs
     (honest_registration B rng crs xs index l set_id blinding nullifiers pseudonym fname) = Inr True"
  using honest_message_accepted [OF assms refl]
  by (simp add: verify_payment_identity_registration_def honest_registration_def Let_def)

definition sample_registration :: "bytes \<Rightarrow> pid_registration" where
  "sample_registration ps = honest_registration sample sample_key sample_crs sample_set 2 1 (sample_key 9)
     (sample_key 2) sample_nullifiers ps (ascii ''alice'')"

lemma sample_registration_verifies:
  "verify_payment_identity_registration sample sample_crs sample_set (sample_registration ps) = Inr True"
  unfolding sample_registration_def
  by (rule honest_registration_verifies)
    (simp_all add: sample_proof_hyps [unfolded sample_name_scalar_def])

section \<open>Properties\<close>

text \<open>A merchant registers a pseudonym once: after an accepted registration, whatever
  registrations arrive in between, a second registration under the same pseudonym is rejected,
  and the accepted registrations of any sequence have pairwise different pseudonyms.\<close>

theorem merchant_registers_pseudonym_once:
  fixes B :: "('s::field, 'p::ab_group_add) backend"
  assumes "merchant_attempt B crs xs m reg = Inr m'" and "pr_pseudonym reg' = pr_pseudonym reg"
  shows "(\<exists>e. merchant_attempt B crs xs (foldl (after_attempt (merchant_attempt B crs xs)) m' regs) reg' = Inl e)
     \<and> distinct (map pr_pseudonym (accepted (merchant_attempt B crs xs) m' regs))"
  using merchant_book.replay_rejected [OF assms] merchant_book.accepted_keys_distinct by blast

text \<open>C24. Every registration a merchant ever stores was verified and is stored under its own
  pseudonym, along every sequence of registrations that starts from a new merchant, and no
  stored registration is lost or replaced.\<close>

theorem merchant_book_sound:
  fixes B :: "('s::field, 'p::ab_group_add) backend"
  assumes "merchant_new B name origin = Inr m"
  shows "merchant_ok B (foldl (merchant_step B) m es) \<and>
     m_registered (foldl (merchant_step B) m es)
       \<subseteq>\<^sub>m m_registered (foldl (merchant_step B) (foldl (merchant_step B) m es) es')"
proof -
  have "merchant_ok B m"
    using assms by (auto simp: merchant_ok_def)
  then show ?thesis
    using merchant_runs.run_inv merchant_runs.run_le by blast
qed

theorem merchant_registers_pseudonym_once_witness:
  "(\<exists>e. merchant_attempt sample sample_crs sample_set
        (foldl (after_attempt (merchant_attempt sample sample_crs sample_set))
          (sample_merchant ''a'' 1\<lparr>m_registered := [[7] \<mapsto> sample_registration [7]]\<rparr>) [sample_registration [8]])
        (sample_registration [7]) = Inl e)
   \<and> distinct (map pr_pseudonym (accepted (merchant_attempt sample sample_crs sample_set)
       (sample_merchant ''a'' 1\<lparr>m_registered := [[7] \<mapsto> sample_registration [7]]\<rparr>) [sample_registration [8]]))"
  by (rule merchant_registers_pseudonym_once [of _ _ _ "sample_merchant ''a'' 1" "sample_registration [7]"])
    (simp_all add: merchant_attempt_iff sample_registration_verifies,
     simp_all add: sample_registration_def sample_merchant_def)

theorem merchant_book_sound_witness:
  "\<exists>m. merchant_new sample (ascii ''shop'') (ascii ''o'') = Inr m \<and>
     merchant_ok sample (foldl (merchant_step sample) m [(sample_crs, sample_set, sample_registration [7])]) \<and>
     m_registered (foldl (merchant_step sample) m [(sample_crs, sample_set, sample_registration [7])])
       \<subseteq>\<^sub>m m_registered (foldl (merchant_step sample)
              (foldl (merchant_step sample) m [(sample_crs, sample_set, sample_registration [7])]) [])"
proof -
  obtain m where m: "merchant_new sample (ascii ''shop'') (ascii ''o'') = Inr m"
    by (simp add: ascii_def)
  show ?thesis
    using m merchant_book_sound [OF m] by blast
qed

text \<open>C23. A merchant does not enforce the nullifier. One member of the set, with one public
  nullifier, gets registered at the same merchant under any two different pseudonyms: the
  merchant only looks the pseudonym up, although the protocol promises one registration per
  identity and the verifier state of \<open>verifier.rs\<close> enforces it.\<close>

theorem merchant_accepts_nullifier_twice:
  fixes B :: "('s::field, 'p::ab_group_add) backend"
  assumes "mul_laws B" "codec_laws B" "wf_generators crs"
    and "length xs = N_of B" "all_decode B xs" "index < N_of B" "1 \<le> l" "l \<le> num_merchants crs"
    and "commit_master_identity B crs nullifiers blinding (to_scalar_bytes B fname) = Inr (xs ! index)"
    and fresh: "ps \<noteq> ps'" "m_registered m ps = None" "m_registered m ps' = None"
  shows "\<exists>r r' m' m''.
     receive_payment_registration B crs xs m r = Inr (m', ps) \<and>
     receive_payment_registration B crs xs m' r' = Inr (m'', ps') \<and>
     pr_public_nullifier r = pr_public_nullifier r' \<and> pr_set_id r = pr_set_id r'"
proof -
  define r where "r p = honest_registration B (\<lambda>_. []) crs xs index l [] blinding nullifiers p fname" for p
  have "verify_payment_identity_registration B crs xs (r p) = Inr True" for p
    unfolding r_def by (rule honest_registration_verifies) (use assms in simp_all)
  then have
    "receive_payment_registration B crs xs m (r ps) = Inr (m\<lparr>m_registered := (m_registered m)(ps \<mapsto> r ps)\<rparr>, ps)"
    "receive_payment_registration B crs xs (m\<lparr>m_registered := (m_registered m)(ps \<mapsto> r ps)\<rparr>) (r ps') =
      Inr (m\<lparr>m_registered := (m_registered m)(ps \<mapsto> r ps, ps' \<mapsto> r ps')\<rparr>, ps')"
    using fresh by (simp_all add: receive_Inr_iff r_def)
  then show ?thesis
    by (intro exI conjI) (assumption, assumption, simp_all add: r_def)
qed

theorem merchant_accepts_nullifier_twice_witness:
  "\<exists>r r' m' m''.
     receive_payment_registration sample sample_crs sample_set (sample_merchant ''a'' 1) r = Inr (m', [7]) \<and>
     receive_payment_registration sample sample_crs sample_set m' r' = Inr (m'', [8]) \<and>
     pr_public_nullifier r = pr_public_nullifier r' \<and> pr_set_id r = pr_set_id r'"
  by (rule merchant_accepts_nullifier_twice [of _ _ _ 2 1 sample_nullifiers "sample_key 2" "ascii ''alice''"])
    (simp_all add: sample_proof_hyps [unfolded sample_name_scalar_def], simp_all add: sample_merchant_def)

end
