(* ===== verification/Verifier.thy ===== *)
theory Verifier
  imports Merchant
begin

text \<open>
  \<open>src/src/core/verifier.rs\<close>: the verifier state of Phase 4, with its cache of anonymity
  sets, its nullifier and pseudonym sets and its registration table. The two freshness checks
  are two instances of \<open>registration_book\<close>; the consistency of the tables is the invariant
  of a \<open>growing_system\<close> whose events are the two operations that change the state.
\<close>

datatype verification_error =
    SetNotFound bytes
  | ProofInvalid
  | NullifierAlreadyUsed
  | PseudonymAlreadyUsed
  | NameMismatch

text \<open>A verification either reports an error or panics (in \<open>Crs::h\<close>).\<close>

datatype verifier_failure = Rejected verification_error | Panicked failure

record registration_result =
  rr_pseudonym :: bytes
  rr_public_nullifier :: bytes
  rr_friendly_name :: str

record verifier_state =
  vs_user_index :: nat
  vs_set_cache :: "bytes \<rightharpoonup> bytes list"
  vs_nullifiers :: "bytes set"
  vs_pseudonyms :: "bytes set"
  vs_registrations :: "bytes \<rightharpoonup> registration_result"

definition verifier_new :: "nat \<Rightarrow> verifier_state" where
  "verifier_new user_index =
     \<lparr>vs_user_index = user_index, vs_set_cache = Map.empty, vs_nullifiers = {}, vs_pseudonyms = {},
      vs_registrations = Map.empty\<rparr>"

definition cache_set :: "verifier_state \<Rightarrow> bytes \<Rightarrow> bytes list \<Rightarrow> verifier_state" where
  "cache_set v set_id commitments = v\<lparr>vs_set_cache := (vs_set_cache v)(set_id \<mapsto> commitments)\<rparr>"

definition get_cached_set :: "verifier_state \<Rightarrow> bytes \<Rightarrow> bytes list option" where
  "get_cached_set v set_id = vs_set_cache v set_id"

definition has_nullifier :: "verifier_state \<Rightarrow> bytes \<Rightarrow> bool" where
  "has_nullifier v nul \<longleftrightarrow> nul \<in> vs_nullifiers v"

definition has_pseudonym :: "verifier_state \<Rightarrow> bytes \<Rightarrow> bool" where
  "has_pseudonym v ps \<longleftrightarrow> ps \<in> vs_pseudonyms v"

definition registered_count :: "verifier_state \<Rightarrow> nat" where
  "registered_count v = card (vs_pseudonyms v)"

definition lookup_by_pseudonym :: "verifier_state \<Rightarrow> bytes \<Rightarrow> registration_result option" where
  "lookup_by_pseudonym v ps = vs_registrations v ps"

definition check_freshness :: "verifier_state \<Rightarrow> bytes \<Rightarrow> bytes \<Rightarrow> verification_error + unit" where
  "check_freshness v pseudonym nul =
     (if nul \<in> vs_nullifiers v then Inl NullifierAlreadyUsed
      else if pseudonym \<in> vs_pseudonyms v then Inl PseudonymAlreadyUsed
      else Inr ())"

text \<open>The arguments of one call: \<open>(\<phi>, nul, \<pi>, set_id, friendly_name)\<close>.\<close>

record submission =
  sb_pseudonym :: bytes
  sb_nullifier :: bytes
  sb_proof :: pid_proof
  sb_set_id :: bytes
  sb_friendly_name :: str

definition verify_and_register ::
    "('s::field, 'p::ab_group_add) backend \<Rightarrow> 'p crs \<Rightarrow> verifier_state \<Rightarrow> submission \<Rightarrow>
      verifier_failure + (verifier_state \<times> registration_result)" where
  "verify_and_register B crs v s =
     (case vs_set_cache v (sb_set_id s) of
        None \<Rightarrow> Inl (Rejected (SetNotFound (sb_set_id s)))
      | Some anonymity_set \<Rightarrow>
         (case verify_payment_identity_registration_proof B crs anonymity_set (vs_user_index v)
                 (sb_set_id s) (sb_pseudonym s) (sb_nullifier s) (sb_proof s) of
            Inl e \<Rightarrow> Inl (Panicked e)
          | Inr valid \<Rightarrow>
              if \<not> valid then Inl (Rejected ProofInvalid)
              else if \<not> verify_name_revelation B (pf_name_scalar (sb_proof s)) (sb_friendly_name s)
              then Inl (Rejected NameMismatch)
              else (case check_freshness v (sb_pseudonym s) (sb_nullifier s) of
                      Inl e \<Rightarrow> Inl (Rejected e)
                    | Inr _ \<Rightarrow>
                        (let result = \<lparr>rr_pseudonym = sb_pseudonym s,
                               rr_public_nullifier = sb_nullifier s,
                               rr_friendly_name = sb_friendly_name s\<rparr> in
                         Inr (v\<lparr>vs_nullifiers := insert (sb_nullifier s) (vs_nullifiers v),
                                vs_pseudonyms := insert (sb_pseudonym s) (vs_pseudonyms v),
                                vs_registrations := (vs_registrations v)(sb_pseudonym s \<mapsto> result)\<rparr>,
                              result)))))"

section \<open>Outcomes\<close>

definition submission_result :: "submission \<Rightarrow> registration_result" where
  "submission_result s = \<lparr>rr_pseudonym = sb_pseudonym s, rr_public_nullifier = sb_nullifier s,
     rr_friendly_name = sb_friendly_name s\<rparr>"

definition submission_valid ::
    "('s::field, 'p::ab_group_add) backend \<Rightarrow> 'p crs \<Rightarrow> verifier_state \<Rightarrow> submission \<Rightarrow> bool" where
  "submission_valid B crs v s \<longleftrightarrow>
     (\<exists>xs. vs_set_cache v (sb_set_id s) = Some xs \<and>
        verify_payment_identity_registration_proof B crs xs (vs_user_index v) (sb_set_id s)
          (sb_pseudonym s) (sb_nullifier s) (sb_proof s) = Inr True) \<and>
     verify_name_revelation B (pf_name_scalar (sb_proof s)) (sb_friendly_name s)"

definition record_submission :: "verifier_state \<Rightarrow> submission \<Rightarrow> verifier_state" where
  "record_submission v s =
     v\<lparr>vs_nullifiers := insert (sb_nullifier s) (vs_nullifiers v),
       vs_pseudonyms := insert (sb_pseudonym s) (vs_pseudonyms v),
       vs_registrations := (vs_registrations v)(sb_pseudonym s \<mapsto> submission_result s)\<rparr>"

lemma verify_and_register_Inr:
  "verify_and_register B crs v s = Inr (v', r) \<longleftrightarrow>
     submission_valid B crs v s \<and> sb_nullifier s \<notin> vs_nullifiers v \<and> sb_pseudonym s \<notin> vs_pseudonyms v \<and>
     v' = record_submission v s \<and> r = submission_result s"
  by (auto simp: verify_and_register_def submission_valid_def record_submission_def submission_result_def
      check_freshness_def Let_def split: option.splits sum.splits if_splits)

definition verifier_attempt ::
    "('s::field, 'p::ab_group_add) backend \<Rightarrow> 'p crs \<Rightarrow> verifier_state \<Rightarrow> submission \<Rightarrow>
      verifier_failure + verifier_state" where
  "verifier_attempt B crs v s = rbind (verify_and_register B crs v s) (\<lambda>(v', _). Inr v')"

lemma verifier_attempt_iff:
  "verifier_attempt B crs v s = Inr v' \<longleftrightarrow>
     submission_valid B crs v s \<and> sb_nullifier s \<notin> vs_nullifiers v \<and> sb_pseudonym s \<notin> vs_pseudonyms v \<and>
     v' = record_submission v s"
  by (auto simp: verifier_attempt_def rbind_Inr_iff verify_and_register_Inr)

definition member_entry :: "'a set \<Rightarrow> 'a \<Rightarrow> unit option" where
  "member_entry A x = (if x \<in> A then Some () else None)"

lemma member_entry_insert: "member_entry (insert x A) = (member_entry A)(x \<mapsto> ())"
  by (auto simp: member_entry_def)

lemma member_entry_None [simp]: "member_entry A x = None \<longleftrightarrow> x \<notin> A"
  by (simp add: member_entry_def)

interpretation nullifier_book: registration_book "\<lambda>v. member_entry (vs_nullifiers v)"
    "verifier_attempt B crs" sb_nullifier "\<lambda>_. ()"
  for B :: "('s::field, 'p::ab_group_add) backend" and crs
  by unfold_locales (simp_all add: verifier_attempt_iff record_submission_def member_entry_insert)

interpretation pseudonym_book: registration_book "\<lambda>v. member_entry (vs_pseudonyms v)"
    "verifier_attempt B crs" sb_pseudonym "\<lambda>_. ()"
  for B :: "('s::field, 'p::ab_group_add) backend" and crs
  by unfold_locales (simp_all add: verifier_attempt_iff record_submission_def member_entry_insert)

section \<open>The tables\<close>

datatype verifier_event = CacheSet bytes "bytes list" | Register submission

definition verifier_step ::
    "('s::field, 'p::ab_group_add) backend \<Rightarrow> 'p crs \<Rightarrow> verifier_state \<Rightarrow> verifier_event \<Rightarrow> verifier_state" where
  "verifier_step B crs v e =
     (case e of
        CacheSet set_id xs \<Rightarrow> cache_set v set_id xs
      | Register s \<Rightarrow> after_attempt (verifier_attempt B crs) v s)"

text \<open>The table has exactly the registered pseudonyms, each entry is stored under its own
  pseudonym, and nullifiers and pseudonyms are in bijection through it; each entry was verified
  with a proof that reveals the hash of its name.\<close>

definition verifier_ok ::
    "('s::field, 'p::ab_group_add) backend \<Rightarrow> 'p crs \<Rightarrow> verifier_state \<Rightarrow> bool" where
  "verifier_ok B crs v \<longleftrightarrow>
     finite (vs_pseudonyms v) \<and>
     dom (vs_registrations v) = vs_pseudonyms v \<and>
     rr_public_nullifier ` ran (vs_registrations v) = vs_nullifiers v \<and>
     (\<forall>ps r. vs_registrations v ps = Some r \<longrightarrow> rr_pseudonym r = ps) \<and>
     (\<forall>ps ps' r r'. vs_registrations v ps = Some r \<longrightarrow> vs_registrations v ps' = Some r' \<longrightarrow>
        rr_public_nullifier r = rr_public_nullifier r' \<longrightarrow> ps = ps') \<and>
     (\<forall>ps r. vs_registrations v ps = Some r \<longrightarrow>
        (\<exists>xs set_id p. verify_payment_identity_registration_proof B crs xs (vs_user_index v) set_id
            ps (rr_public_nullifier r) p = Inr True \<and>
          verify_name_revelation B (pf_name_scalar p) (rr_friendly_name r)))"

lemma verifier_okD:
  assumes "verifier_ok B crs v"
  shows "dom (vs_registrations v) = vs_pseudonyms v"
    and "vs_registrations v ps = Some r \<Longrightarrow> rr_public_nullifier r \<in> vs_nullifiers v"
    and "n \<in> vs_nullifiers v \<Longrightarrow> \<exists>ps r. vs_registrations v ps = Some r \<and> rr_public_nullifier r = n"
    and "vs_registrations v ps = Some r \<Longrightarrow> vs_registrations v ps' = Some r' \<Longrightarrow>
      rr_public_nullifier r = rr_public_nullifier r' \<Longrightarrow> ps = ps'"
proof -
  have image: "rr_public_nullifier ` ran (vs_registrations v) = vs_nullifiers v"
    and inj: "\<forall>ps ps' r r'. vs_registrations v ps = Some r \<longrightarrow> vs_registrations v ps' = Some r' \<longrightarrow>
        rr_public_nullifier r = rr_public_nullifier r' \<longrightarrow> ps = ps'"
    and dom: "dom (vs_registrations v) = vs_pseudonyms v"
    using assms unfolding verifier_ok_def by blast+
  show "dom (vs_registrations v) = vs_pseudonyms v" by (rule dom)
  show "vs_registrations v ps = Some r \<Longrightarrow> rr_public_nullifier r \<in> vs_nullifiers v"
    unfolding image [symmetric] by (blast intro: ranI)
  show "n \<in> vs_nullifiers v \<Longrightarrow> \<exists>ps r. vs_registrations v ps = Some r \<and> rr_public_nullifier r = n"
    unfolding image [symmetric] by (auto simp: ran_def)
  show "vs_registrations v ps = Some r \<Longrightarrow> vs_registrations v ps' = Some r' \<Longrightarrow>
      rr_public_nullifier r = rr_public_nullifier r' \<Longrightarrow> ps = ps'"
    using inj by blast
qed

lemma verifier_ok_new: "verifier_ok B crs (verifier_new i)"
  by (simp add: verifier_ok_def verifier_new_def)

lemma verifier_ok_cache: "verifier_ok B crs v \<Longrightarrow> verifier_ok B crs (cache_set v d xs)"
  by (simp add: verifier_ok_def cache_set_def)

lemma ran_upd_fresh: "m k = None \<Longrightarrow> ran (m(k \<mapsto> v)) = insert v (ran m)"
  by (rule ran_map_upd)

lemma verifier_ok_record:
  assumes ok: "verifier_ok B crs v" and valid: "submission_valid B crs v s"
    and fresh: "sb_nullifier s \<notin> vs_nullifiers v" "sb_pseudonym s \<notin> vs_pseudonyms v"
  shows "verifier_ok B crs (record_submission v s)"
proof -
  have "vs_registrations v (sb_pseudonym s) = None"
    using verifier_okD(1) [OF ok] fresh by auto
  moreover have "rr_public_nullifier r \<noteq> sb_nullifier s" if "vs_registrations v ps = Some r" for ps r
    using verifier_okD(2) [OF ok that] fresh by auto
  moreover have "\<exists>xs set_id p. verify_payment_identity_registration_proof B crs xs (vs_user_index v) set_id
      (sb_pseudonym s) (sb_nullifier s) p = Inr True \<and>
      verify_name_revelation B (pf_name_scalar p) (sb_friendly_name s)"
    using valid by (auto simp: submission_valid_def)
  ultimately show ?thesis
    using ok
    by (simp add: verifier_ok_def record_submission_def ran_upd_fresh submission_result_def) metis
qed

lemma verifier_ok_step: "verifier_ok B crs v \<Longrightarrow> verifier_ok B crs (verifier_step B crs v e)"
  by (cases e) (auto simp: verifier_step_def verifier_ok_cache after_attempt_def verifier_attempt_iff
      verifier_ok_record split: sum.splits)

lemma verifier_step_grows:
  "verifier_ok B crs v \<Longrightarrow>
   vs_registrations v \<subseteq>\<^sub>m vs_registrations (verifier_step B crs v e) \<and>
   vs_nullifiers v \<subseteq> vs_nullifiers (verifier_step B crs v e) \<and>
   vs_user_index (verifier_step B crs v e) = vs_user_index v"
  by (cases e) (auto simp: verifier_step_def cache_set_def after_attempt_def verifier_attempt_iff
      record_submission_def map_le_def verifier_ok_def split: sum.splits)

interpretation verifier_runs: growing_system "verifier_step B crs" "verifier_ok B crs"
    "\<lambda>v v'. vs_registrations v \<subseteq>\<^sub>m vs_registrations v' \<and> vs_nullifiers v \<subseteq> vs_nullifiers v' \<and>
       vs_user_index v' = vs_user_index v"
  for B :: "('s::field, 'p::ab_group_add) backend" and crs
  by unfold_locales (auto simp: verifier_ok_step verifier_step_grows intro: map_le_trans)

lemma registered_count_nullifiers:
  assumes "verifier_ok B crs v"
  shows "registered_count v = card (vs_nullifiers v)"
proof -
  define nul where "nul ps = rr_public_nullifier (the (vs_registrations v ps))" for ps
  have some: "\<exists>r. vs_registrations v ps = Some r" if "ps \<in> vs_pseudonyms v" for ps
    using verifier_okD(1) [OF assms] that by blast
  have inj: "inj_on nul (vs_pseudonyms v)"
  proof (rule inj_onI)
    fix ps ps'
    assume "ps \<in> vs_pseudonyms v" "ps' \<in> vs_pseudonyms v" "nul ps = nul ps'"
    with some [of ps] some [of ps'] show "ps = ps'"
      by (auto simp: nul_def intro: verifier_okD(4) [OF assms])
  qed
  have "vs_nullifiers v = nul ` vs_pseudonyms v"
  proof
    show "vs_nullifiers v \<subseteq> nul ` vs_pseudonyms v"
    proof
      fix n
      assume "n \<in> vs_nullifiers v"
      then obtain ps r where "vs_registrations v ps = Some r" "rr_public_nullifier r = n"
        using verifier_okD(3) [OF assms] by blast
      then show "n \<in> nul ` vs_pseudonyms v"
        using verifier_okD(1) [OF assms] by (intro image_eqI [of _ _ ps]) (auto simp: nul_def)
    qed
    show "nul ` vs_pseudonyms v \<subseteq> vs_nullifiers v"
      using some verifier_okD(2) [OF assms] by (auto simp: nul_def)
  qed
  then show ?thesis
    using card_image [OF inj] by (simp add: registered_count_def)
qed

section \<open>Properties\<close>

lemma used_nullifier_rejected:
  "submission_valid B crs v s \<Longrightarrow> sb_nullifier s \<in> vs_nullifiers v \<Longrightarrow>
   verify_and_register B crs v s = Inl (Rejected NullifierAlreadyUsed)"
  by (auto simp: submission_valid_def verify_and_register_def check_freshness_def)

lemma used_pseudonym_rejected:
  "submission_valid B crs v s \<Longrightarrow> sb_nullifier s \<notin> vs_nullifiers v \<Longrightarrow> sb_pseudonym s \<in> vs_pseudonyms v \<Longrightarrow>
   verify_and_register B crs v s = Inl (Rejected PseudonymAlreadyUsed)"
  by (auto simp: submission_valid_def verify_and_register_def check_freshness_def)

lemma verify_and_register_attempt:
  "verify_and_register B crs v s = Inr (v', r) \<Longrightarrow> verifier_attempt B crs v s = Inr v'"
  by (simp add: verifier_attempt_def)

lemma attempt_is_step: "verifier_attempt B crs v s = Inr v' \<Longrightarrow> v' = verifier_step B crs v (Register s)"
  by (simp add: verifier_step_def after_attempt_def)

definition sample_submission :: "bytes \<Rightarrow> submission" where
  "sample_submission ps = (let r = sample_registration ps in
     \<lparr>sb_pseudonym = ps, sb_nullifier = pr_public_nullifier r, sb_proof = pr_proof r,
      sb_set_id = sample_key 9, sb_friendly_name = ascii ''alice''\<rparr>)"

definition sample_verifier :: verifier_state where
  "sample_verifier = cache_set (verifier_new 1) (sample_key 9) sample_set"

lemma sample_submission_sel [simp]:
  "sb_pseudonym (sample_submission ps) = ps" "sb_set_id (sample_submission ps) = sample_key 9"
  "sb_friendly_name (sample_submission ps) = ascii ''alice''"
  "sb_nullifier (sample_submission ps) = pr_public_nullifier (sample_registration [])"
  by (simp_all add: sample_submission_def Let_def sample_registration_def)

lemma sample_verifier_sel [simp]:
  "vs_set_cache sample_verifier (sample_key 9) = Some sample_set" "vs_user_index sample_verifier = 1"
  "vs_nullifiers sample_verifier = {}" "vs_pseudonyms sample_verifier = {}"
  by (simp_all add: sample_verifier_def cache_set_def verifier_new_def)

lemma sample_submission_verifies:
  "verify_payment_identity_registration_proof sample sample_crs sample_set 1 (sample_key 9) ps
     (sb_nullifier (sample_submission ps)) (sb_proof (sample_submission ps)) = Inr True"
  using sample_registration_verifies [of ps]
  by (simp add: verify_payment_identity_registration_def sample_submission_def Let_def sample_registration_def)

lemma sample_submission_valid: "submission_valid sample sample_crs sample_verifier (sample_submission ps)"
  using sample_submission_verifies [of ps]
  by (simp add: submission_valid_def verify_name_revelation_def)
    (simp add: sample_submission_def Let_def sample_registration_def to_scalar_bytes_def)

text \<open>C9. Sybil resistance of the verifier. Once a submission is registered, then after any
  further cached sets and submissions, a submission with the same nullifier (under any
  pseudonym, set and proof) is not registered, and if it is valid the error is
  \<open>NullifierAlreadyUsed\<close>; the registered entry is still found under its pseudonym.\<close>

theorem verifier_registers_nullifier_once:
  fixes B :: "('s::field, 'p::ab_group_add) backend"
  assumes "verify_and_register B crs (foldl (verifier_step B crs) (verifier_new i) es) s = Inr (v', r)"
    and "sb_nullifier s' = sb_nullifier s"
    and later: "v'' = foldl (verifier_step B crs) v' es'"
  shows "lookup_by_pseudonym v'' (sb_pseudonym s) = Some r \<and>
     (\<exists>e. verify_and_register B crs v'' s' = Inl e) \<and>
     (submission_valid B crs v'' s' \<longrightarrow>
        verify_and_register B crs v'' s' = Inl (Rejected NullifierAlreadyUsed))"
proof -
  define v where "v = foldl (verifier_step B crs) (verifier_new i) es"
  have ok: "verifier_ok B crs v"
    unfolding v_def by (rule verifier_runs.run_inv [OF verifier_ok_new])
  have v': "v' = record_submission v s" "r = submission_result s"
    using assms(1) by (simp_all add: verify_and_register_Inr v_def)
  have "v' = verifier_step B crs v (Register s)"
    using assms(1) by (intro attempt_is_step verify_and_register_attempt) (simp add: v_def)
  then have "verifier_ok B crs v'"
    by (simp add: verifier_ok_step ok)
  from verifier_runs.run_le [OF this, of es']
  have "sb_nullifier s \<in> vs_nullifiers v''" "vs_registrations v'' (sb_pseudonym s) = Some r"
    by (auto simp: later v' record_submission_def map_le_def dom_def)
  then show ?thesis
    using assms(2)
    by (cases "verify_and_register B crs v'' s'")
      (auto simp: lookup_by_pseudonym_def used_nullifier_rejected verify_and_register_Inr)
qed

lemma sample_verifier_run: "foldl (verifier_step sample sample_crs) (verifier_new 1) [CacheSet (sample_key 9) sample_set] = sample_verifier"
  by (simp add: verifier_step_def sample_verifier_def)

theorem verifier_registers_nullifier_once_witness:
  "\<exists>v' r. verify_and_register sample sample_crs
        (foldl (verifier_step sample sample_crs) (verifier_new 1) [CacheSet (sample_key 9) sample_set])
        (sample_submission [7]) = Inr (v', r) \<and>
      (submission_valid sample sample_crs (foldl (verifier_step sample sample_crs) v' []) (sample_submission [8]) \<longrightarrow>
       verify_and_register sample sample_crs (foldl (verifier_step sample sample_crs) v' []) (sample_submission [8])
         = Inl (Rejected NullifierAlreadyUsed))"
proof -
  have run: "verify_and_register sample sample_crs
      (foldl (verifier_step sample sample_crs) (verifier_new 1) [CacheSet (sample_key 9) sample_set])
      (sample_submission [7]) =
      Inr (record_submission sample_verifier (sample_submission [7]), submission_result (sample_submission [7]))"
    unfolding sample_verifier_run by (simp add: verify_and_register_Inr sample_submission_valid)
  have "sb_nullifier (sample_submission [8]) = sb_nullifier (sample_submission [7])"
    by simp
  from verifier_registers_nullifier_once [OF run this refl, of "[]"] show ?thesis
    unfolding run by blast
qed

text \<open>C10. The three tables of the verifier agree along every run from a new verifier: the
  registration table has exactly the registered pseudonyms, each entry is stored under its own
  pseudonym, nullifiers and pseudonyms are in bijection, the reported count is the number of
  nullifiers, and every entry was verified with a proof that reveals the hash of its name.\<close>

theorem verifier_tables_consistent:
  fixes B :: "('s::field, 'p::ab_group_add) backend"
  shows "verifier_ok B crs (foldl (verifier_step B crs) (verifier_new i) es) \<and>
     registered_count (foldl (verifier_step B crs) (verifier_new i) es) =
       card (vs_nullifiers (foldl (verifier_step B crs) (verifier_new i) es))"
proof -
  have "verifier_ok B crs (foldl (verifier_step B crs) (verifier_new i) es)"
    by (rule verifier_runs.run_inv [OF verifier_ok_new])
  then show ?thesis
    using registered_count_nullifiers by blast
qed

section \<open>The ledger\<close>

text \<open>What a verifier is for: a ledger that pairs nullifiers with pseudonyms, one to one, and enters
  a pair when its submission is valid and both are new.\<close>

definition ledger_register :: "bool \<Rightarrow> bytes \<Rightarrow> bytes \<Rightarrow> (bytes \<times> bytes) set \<Rightarrow> (bytes \<times> bytes) set option" where
  "ledger_register valid nul pseudonym L =
     (if valid \<and> nul \<notin> fst ` L \<and> pseudonym \<notin> snd ` L then Some (insert (nul, pseudonym) L) else None)"

definition ledger_of :: "verifier_state \<Rightarrow> (bytes \<times> bytes) set" where
  "ledger_of v = {(rr_public_nullifier r, ps) |ps r. vs_registrations v ps = Some r}"

lemma ledger_of_mem: "(n, ps) \<in> ledger_of v \<longleftrightarrow> (\<exists>r. vs_registrations v ps = Some r \<and> rr_public_nullifier r = n)"
  by (auto simp: ledger_of_def)

lemma ledger_of_domains:
  assumes "verifier_ok B crs v"
  shows "fst ` ledger_of v = vs_nullifiers v" and "snd ` ledger_of v = vs_pseudonyms v"
proof -
  have "n \<in> fst ` ledger_of v \<longleftrightarrow> (\<exists>ps r. vs_registrations v ps = Some r \<and> rr_public_nullifier r = n)" for n
    by (simp add: fst_eq_Domain Domain_iff ledger_of_mem)
  moreover have "(\<exists>ps r. vs_registrations v ps = Some r \<and> rr_public_nullifier r = n) \<longleftrightarrow> n \<in> vs_nullifiers v" for n
    by (auto intro: verifier_okD(2) [OF assms] dest: verifier_okD(3) [OF assms])
  ultimately show "fst ` ledger_of v = vs_nullifiers v"
    by (simp add: set_eq_iff)
  have "ps \<in> snd ` ledger_of v \<longleftrightarrow> (\<exists>r. vs_registrations v ps = Some r)" for ps
    by (simp add: snd_eq_Range Range_iff ledger_of_mem)
  then show "snd ` ledger_of v = vs_pseudonyms v"
    unfolding verifier_okD(1) [OF assms, symmetric] by (simp add: set_eq_iff domIff)
qed

lemma ledger_of_record:
  assumes "verifier_ok B crs v" "sb_pseudonym s \<notin> vs_pseudonyms v"
  shows "ledger_of (record_submission v s) = insert (sb_nullifier s, sb_pseudonym s) (ledger_of v)"
proof -
  have new: "vs_registrations v (sb_pseudonym s) = None"
    using verifier_okD(1) [OF assms(1)] assms(2) by auto
  show ?thesis
  proof (rule set_eqI)
    fix e :: "bytes \<times> bytes"
    obtain n ps where "e = (n, ps)" by (cases e)
    then show "e \<in> ledger_of (record_submission v s) \<longleftrightarrow> e \<in> insert (sb_nullifier s, sb_pseudonym s) (ledger_of v)"
      using new by (cases "ps = sb_pseudonym s")
        (auto simp: ledger_of_mem record_submission_def submission_result_def)
  qed
qed

text \<open>C15. The verifier implements the ledger. In every state that a run from a new verifier reaches,
  \<open>verify_and_register\<close> does to the table of registrations what the ledger does to its pairs, and
  fails exactly when the ledger refuses; the pairing is one to one.\<close>

theorem verifier_refines_ledger:
  fixes B :: "('s::field, 'p::ab_group_add) backend"
  shows "let v = foldl (verifier_step B crs) (verifier_new i) es;
        ledger = ledger_register (submission_valid B crs v s) (sb_nullifier s) (sb_pseudonym s) (ledger_of v)
    in (case verify_and_register B crs v s of Inl _ \<Rightarrow> ledger = None | Inr (v', _) \<Rightarrow> ledger = Some (ledger_of v')) \<and>
      inj_on fst (ledger_of v) \<and> inj_on snd (ledger_of v)"
proof -
  define v where "v = foldl (verifier_step B crs) (verifier_new i) es"
  have ok: "verifier_ok B crs v"
    unfolding v_def by (rule verifier_runs.run_inv [OF verifier_ok_new])
  have "inj_on fst (ledger_of v)" "inj_on snd (ledger_of v)"
    using verifier_okD(4) [OF ok] by (auto simp: inj_on_def ledger_of_def)
  moreover have "case verify_and_register B crs v s of
      Inl _ \<Rightarrow> ledger_register (submission_valid B crs v s) (sb_nullifier s) (sb_pseudonym s) (ledger_of v) = None
    | Inr (v', _) \<Rightarrow> ledger_register (submission_valid B crs v s) (sb_nullifier s) (sb_pseudonym s) (ledger_of v) =
        Some (ledger_of v')"
  proof (cases "verify_and_register B crs v s")
    case (Inl e)
    then have "\<not> (submission_valid B crs v s \<and> sb_nullifier s \<notin> vs_nullifiers v \<and> sb_pseudonym s \<notin> vs_pseudonyms v)"
      using verify_and_register_Inr [of B crs v s] by force
    with Inl show ?thesis
      by (auto simp: ledger_register_def ledger_of_domains [OF ok])
  next
    case (Inr vr)
    obtain v' r where vr: "vr = (v', r)" by (cases vr)
    with Inr have "submission_valid B crs v s" "sb_nullifier s \<notin> vs_nullifiers v" "sb_pseudonym s \<notin> vs_pseudonyms v"
        "v' = record_submission v s"
      by (simp_all add: verify_and_register_Inr)
    then show ?thesis
      by (simp add: Inr vr ledger_register_def ledger_of_domains [OF ok] ledger_of_record [OF ok])
  qed
  ultimately show ?thesis
    by (simp add: v_def [symmetric] Let_def)
qed

end
