(* ===== verification/Beneficiary.thy ===== *)
theory Beneficiary
  imports Verifier
begin

text \<open>
  \<open>src/src/core/beneficiary.rs\<close>: a member of an anonymity set through the phases, and the
  composition of the phases with the merchant and the verifier. \<open>OsRng\<close> is the stream
  \<open>rng\<close>: creation draws \<open>sk\<close>, \<open>r\<close> and \<open>k\<close> in this order.
\<close>

record beneficiary =
  bn_credential :: credential
  bn_set_id :: "bytes option"
  bn_index :: "nat option"
  bn_anonymity_set :: "bytes list option"
  bn_registrations :: "nat \<rightharpoonup> pid_registration"

definition beneficiary_new ::
    "('s, 'p::ab_group_add) backend \<Rightarrow> rng \<Rightarrow> 'p crs \<Rightarrow> str \<Rightarrow> failure + beneficiary" where
  "beneficiary_new B rng crs friendly_name =
     (let sk = rng 0; r = rng 1; k = rng 2 in
      rbind (friendly_name_new friendly_name) (\<lambda>fname.
      rbind (credential_create B crs sk r k fname) (\<lambda>credential.
      Inr \<lparr>bn_credential = credential, bn_set_id = None, bn_index = None, bn_anonymity_set = None,
           bn_registrations = Map.empty\<rparr>)))"

fun position :: "('a \<Rightarrow> bool) \<Rightarrow> 'a list \<Rightarrow> nat option" where
  "position P [] = None"
| "position P (x # xs) = (if P x then Some 0 else map_option Suc (position P xs))"

definition beneficiary_register ::
    "beneficiary \<Rightarrow> bytes \<Rightarrow> bytes list \<Rightarrow> failure + beneficiary" where
  "beneficiary_register b set_id anonymity_set =
     rbind (ok_or (position (\<lambda>c. c = mc_phi (bn_credential b)) anonymity_set)
              (Err ''master identity not found in anonymity set'')) (\<lambda>index.
     Inr (b\<lparr>bn_set_id := Some set_id, bn_index := Some index, bn_anonymity_set := Some anonymity_set\<rparr>))"

definition beneficiary_set_size :: "beneficiary \<Rightarrow> nat option" where
  "beneficiary_set_size b = map_option length (bn_anonymity_set b)"

definition create_payment_registration ::
    "('s::field, 'p::ab_group_add) backend \<Rightarrow> rng \<Rightarrow> beneficiary \<Rightarrow> 'p crs \<Rightarrow> nat \<Rightarrow>
      failure + (beneficiary \<times> pid_registration)" where
  "create_payment_registration B rng b crs merchant_id =
     rbind (ok_or (bn_anonymity_set b) (Err ''not yet registered (no anonymity set)'')) (\<lambda>anonymity_set.
     rbind (ok_or (bn_index b) (Err ''not yet registered (no index)'')) (\<lambda>index.
     rbind (ok_or (bn_set_id b) (Err ''not yet registered (no set_id)'')) (\<lambda>set_id.
     if merchant_id < 1 \<or> num_merchants crs < merchant_id
     then Inl (Err ''merchant_id out of range'')
     else
       (let name = m_name (crs_merchants crs ! (merchant_id - 1));
            pseudonym = derive_payment_request_pseudonym B (mc_r (bn_credential b)) name (crs_g crs) in
        rbind (public_nullifier B (bn_credential b) crs merchant_id) (\<lambda>pub_nul.
        let all_nullifiers = all_nullifier_scalars B (bn_credential b) crs;
            name_scalar = to_scalar_bytes B (mc_friendly_name (bn_credential b)) in
        rbind (prove_payment_identity_registration B rng crs anonymity_set index merchant_id set_id
                 (mc_k (bn_credential b)) all_nullifiers pseudonym pub_nul name_scalar) (\<lambda>proof.
        let registration = \<lparr>pr_pseudonym = pseudonym, pr_public_nullifier = pub_nul,
              pr_set_id = set_id, pr_service_index = merchant_id,
              pr_friendly_name = mc_friendly_name (bn_credential b), pr_proof = proof\<rparr> in
        Inr (b\<lparr>bn_registrations := (bn_registrations b)(merchant_id \<mapsto> registration)\<rparr>, registration)))))))"

section \<open>Lemmas\<close>

lemma position_Some:
  "position P xs = Some i \<longleftrightarrow> i < length xs \<and> P (xs ! i) \<and> (\<forall>j<i. \<not> P (xs ! j))"
proof (induction xs arbitrary: i)
  case Nil
  then show ?case by simp
next
  case (Cons x xs)
  show ?case
    by (cases i) (auto simp: Cons.IH All_less_Suc2)
qed

lemma position_None: "position P xs = None \<longleftrightarrow> (\<forall>x\<in>set xs. \<not> P x)"
  by (induction xs) auto

lemma beneficiary_register_Inr:
  "beneficiary_register b d xs = Inr b' \<longleftrightarrow>
     (\<exists>i. i < length xs \<and> xs ! i = mc_phi (bn_credential b) \<and>
        (\<forall>j<i. xs ! j \<noteq> mc_phi (bn_credential b)) \<and>
        b' = b\<lparr>bn_set_id := Some d, bn_index := Some i, bn_anonymity_set := Some xs\<rparr>)"
  by (auto simp: beneficiary_register_def rbind_Inr_iff position_Some)

lemma beneficiary_new_Inr:
  "wf_generators crs \<Longrightarrow> beneficiary_new B rng crs fname = Inr b \<longleftrightarrow>
     length fname \<le> 255 \<and>
     (\<exists>c. credential_create B crs (rng 0) (rng 1) (rng 2) fname = Inr c \<and>
        b = \<lparr>bn_credential = c, bn_set_id = None, bn_index = None, bn_anonymity_set = None,
             bn_registrations = Map.empty\<rparr>)"
  by (auto simp: beneficiary_new_def rbind_Inr_iff Let_def)

lemma beneficiary_new_total:
  assumes "wf_generators crs" "length fname \<le> 255"
  obtains b where "beneficiary_new B rng crs fname = Inr b"
proof -
  obtain c where "credential_create B crs (rng 0) (rng 1) (rng 2) fname = Inr c"
    using assms(1)
    by (simp add: credential_create_def Let_def commit_master_identity_point wf_generators_def)
  moreover have "friendly_name_new fname = Inr fname"
    using assms(2) by simp
  ultimately show ?thesis
    using that by (simp add: beneficiary_new_def Let_def del: friendly_name_new_Inr)
qed

lemma beneficiary_new_credential:
  assumes wf: "wf_generators crs" and new: "beneficiary_new B rng crs fname = Inr b"
  shows "mc_phi (bn_credential b) = point_to_bytes B (credential_point B crs (bn_credential b)) \<and>
     mc_friendly_name (bn_credential b) = fname"
proof -
  obtain c where "credential_create B crs (rng 0) (rng 1) (rng 2) fname = Inr c" "bn_credential b = c"
    using new by (auto simp: beneficiary_new_Inr [OF wf])
  with wf show ?thesis
    by (simp add: credential_create_wf wf_generators_def)
qed

text \<open>What the beneficiary sends is the honest registration for its index.\<close>

lemma create_registration_honest:
  fixes B :: "('s::field, 'p::ab_group_add) backend" and rng :: rng
  assumes wf: "wf_generators crs"
    and set: "bn_anonymity_set b = Some xs" "bn_index b = Some i" "bn_set_id b = Some d"
      "length xs = N_of B" "all_decode B xs" "i < N_of B"
    and l: "1 \<le> l" "l \<le> num_merchants crs"
  defines "r \<equiv> honest_registration B rng crs xs i l d (mc_k (bn_credential b))
    (all_nullifier_scalars B (bn_credential b) crs)
    (derive_payment_request_pseudonym B (mc_r (bn_credential b)) (m_name (crs_merchants crs ! (l - 1))) (crs_g crs))
    (mc_friendly_name (bn_credential b))"
  shows "create_payment_registration B rng b crs l =
     Inr (b\<lparr>bn_registrations := (bn_registrations b)(l \<mapsto> r)\<rparr>, r)"
  using set l
  by (simp add: create_payment_registration_def Let_def public_nullifier_scalar [OF l]
      prove_honest_message [OF wf set(4,5,6) l] r_def honest_registration_def del: One_nat_def)

text \<open>The honest phases: joining the set and creating a registration that verifies.\<close>

lemma honest_phases:
  fixes B :: "('s::field, 'p::ab_group_add) backend"
  assumes laws: "mul_laws B" "codec_laws B" and wf: "wf_generators crs"
    and new: "beneficiary_new B rng crs fname = Inr b"
    and set: "length xs = N_of B" "all_decode B xs" "mc_phi (bn_credential b) \<in> set xs"
    and l: "1 \<le> l" "l \<le> num_merchants crs"
  shows "\<exists>b' b'' reg. beneficiary_register b set_id xs = Inr b' \<and>
     create_payment_registration B rng' b' crs l = Inr (b'', reg) \<and>
     verify_payment_identity_registration B crs xs reg = Inr True \<and>
     pf_name_scalar (pr_proof reg) = to_scalar_bytes B fname \<and> pr_friendly_name reg = fname \<and>
     pr_set_id reg = set_id \<and> pr_service_index reg = l"
proof -
  let ?c = "bn_credential b"
  have gens: "length (crs_generators crs) = num_merchants crs"
    using wf by (simp add: wf_generators_def)
  have c: "mc_phi ?c = point_to_bytes B (credential_point B crs ?c)" "mc_friendly_name ?c = fname"
    using beneficiary_new_credential [OF wf new] by simp_all
  obtain i where i: "position (\<lambda>c. c = mc_phi ?c) xs = Some i"
    using set(3) position_None [of "\<lambda>c. c = mc_phi ?c" xs]
    by (cases "position (\<lambda>c. c = mc_phi ?c) xs") auto
  then have at: "i < N_of B" "xs ! i = mc_phi ?c"
    using set(1) by (auto simp: position_Some)
  define b' where "b' = b\<lparr>bn_set_id := Some set_id, bn_index := Some i, bn_anonymity_set := Some xs\<rparr>"
  define ps where "ps = derive_payment_request_pseudonym B (mc_r ?c) (m_name (crs_merchants crs ! (l - 1))) (crs_g crs)"
  define reg where "reg = honest_registration B rng' crs xs i l set_id (mc_k ?c)
    (all_nullifier_scalars B ?c crs) ps fname"
  have register: "beneficiary_register b set_id xs = Inr b'"
    using i by (simp add: beneficiary_register_def b'_def)
  have create: "create_payment_registration B rng' b' crs l =
      Inr (b'\<lparr>bn_registrations := (bn_registrations b')(l \<mapsto> reg)\<rparr>, reg)"
    using create_registration_honest [OF wf _ _ _ set(1,2) at(1) l, where b = b' and rng = rng' and d = set_id] c(2)
    by (simp add: b'_def reg_def ps_def del: One_nat_def)
  have "verify_payment_identity_registration B crs xs reg = Inr True"
    unfolding reg_def
    by (rule honest_registration_verifies [OF laws wf set(1,2) at(1) l])
      (use commit_all_nullifiers [OF gens, of B ?c] c at in simp)
  then show ?thesis
    using register create by (auto simp: reg_def)
qed

section \<open>Properties\<close>

text \<open>Joining a set: \<open>register\<close> succeeds exactly when the set contains the member's
  commitment, records the first position that holds it, and leaves the credential and the
  registrations as they were; otherwise it returns its error.\<close>

theorem beneficiary_register_outcome:
  "(case beneficiary_register b d xs of
      Inl e \<Rightarrow> e = Err ''master identity not found in anonymity set'' \<and> mc_phi (bn_credential b) \<notin> set xs
    | Inr b' \<Rightarrow> \<exists>i. bn_index b' = Some i \<and> i < length xs \<and> xs ! i = mc_phi (bn_credential b) \<and>
        (\<forall>j<i. xs ! j \<noteq> mc_phi (bn_credential b)) \<and> bn_set_id b' = Some d \<and>
        beneficiary_set_size b' = Some (length xs) \<and> bn_anonymity_set b' = Some xs \<and>
        bn_credential b' = bn_credential b \<and> bn_registrations b' = bn_registrations b)"
proof (cases "position (\<lambda>c. c = mc_phi (bn_credential b)) xs")
  case None
  then have "mc_phi (bn_credential b) \<notin> set xs"
    by (auto simp: position_None)
  with None show ?thesis
    by (simp add: beneficiary_register_def)
next
  case (Some i)
  then have "i < length xs \<and> xs ! i = mc_phi (bn_credential b) \<and> (\<forall>j<i. xs ! j \<noteq> mc_phi (bn_credential b))"
    by (simp add: position_Some)
  with Some show ?thesis
    by (simp add: beneficiary_register_def beneficiary_set_size_def)
qed

text \<open>The phases compose. A new beneficiary whose commitment is in a full, decodable
  anonymity set registers, creates a registration for any merchant of the CRS, the merchant
  stores it if the pseudonym is new to it, the revealed friendly name matches the proof, and a
  fresh verifier for that service that cached the set registers it too.\<close>

theorem protocol_phases_complete:
  fixes B :: "('s::field, 'p::ab_group_add) backend"
  assumes laws: "mul_laws B" "codec_laws B" and wf: "wf_generators crs"
    and new: "beneficiary_new B rng crs fname = Inr b"
    and set: "length xs = N_of B" "all_decode B xs" "mc_phi (bn_credential b) \<in> set xs"
    and l: "1 \<le> l" "l \<le> num_merchants crs"
    and fresh: "m_registered m = Map.empty"
  shows "\<exists>b' b'' reg m' v'.
     beneficiary_register b set_id xs = Inr b' \<and>
     create_payment_registration B rng' b' crs l = Inr (b'', reg) \<and>
     receive_payment_registration B crs xs m reg = Inr (m', pr_pseudonym reg) \<and>
     m_registered m' (pr_pseudonym reg) = Some reg \<and>
     verify_name_revelation B (pf_name_scalar (pr_proof reg)) fname \<and>
     verify_and_register B crs (cache_set (verifier_new l) set_id xs)
       \<lparr>sb_pseudonym = pr_pseudonym reg, sb_nullifier = pr_public_nullifier reg, sb_proof = pr_proof reg,
        sb_set_id = set_id, sb_friendly_name = pr_friendly_name reg\<rparr> =
       Inr (v', \<lparr>rr_pseudonym = pr_pseudonym reg, rr_public_nullifier = pr_public_nullifier reg,
              rr_friendly_name = fname\<rparr>)"
proof -
  obtain b' b'' reg where phases: "beneficiary_register b set_id xs = Inr b'"
      "create_payment_registration B rng' b' crs l = Inr (b'', reg)"
    and verified: "verify_payment_identity_registration B crs xs reg = Inr True"
    and reg: "pf_name_scalar (pr_proof reg) = to_scalar_bytes B fname" "pr_friendly_name reg = fname"
      "pr_set_id reg = set_id" "pr_service_index reg = l"
    using honest_phases [OF laws wf new set l] by blast
  have receive: "receive_payment_registration B crs xs m reg =
      Inr (m\<lparr>m_registered := [pr_pseudonym reg \<mapsto> reg]\<rparr>, pr_pseudonym reg)"
    using verified fresh by (simp add: receive_Inr_iff)
  have name: "verify_name_revelation B (pf_name_scalar (pr_proof reg)) fname"
    by (simp add: verify_name_revelation_def reg to_scalar_bytes_def)
  define s where "s = \<lparr>sb_pseudonym = pr_pseudonym reg, sb_nullifier = pr_public_nullifier reg,
    sb_proof = pr_proof reg, sb_set_id = set_id, sb_friendly_name = pr_friendly_name reg\<rparr>"
  have "submission_valid B crs (cache_set (verifier_new l) set_id xs) s"
    using verified name
    by (simp add: submission_valid_def s_def cache_set_def verifier_new_def
        verify_payment_identity_registration_def reg)
  then have "verify_and_register B crs (cache_set (verifier_new l) set_id xs) s =
      Inr (record_submission (cache_set (verifier_new l) set_id xs) s, submission_result s)"
    by (simp add: verify_and_register_Inr cache_set_def verifier_new_def)
  then have "verify_and_register B crs (cache_set (verifier_new l) set_id xs) s =
      Inr (record_submission (cache_set (verifier_new l) set_id xs) s,
        \<lparr>rr_pseudonym = pr_pseudonym reg, rr_public_nullifier = pr_public_nullifier reg, rr_friendly_name = fname\<rparr>)"
    by (simp add: submission_result_def s_def reg(2))
  then show ?thesis
    using phases receive name unfolding s_def by auto
qed

definition sample_rng :: rng where
  "sample_rng i = sample_key (i + 1)"

definition sample_beneficiary :: beneficiary where
  "sample_beneficiary = (case beneficiary_new sample sample_rng sample_crs (ascii ''alice'') of Inr b \<Rightarrow> b)"

lemma sample_beneficiary_new:
  "beneficiary_new sample sample_rng sample_crs (ascii ''alice'') = Inr sample_beneficiary"
  by (simp add: sample_beneficiary_def beneficiary_new_def credential_create_def Let_def
      commit_master_identity_point friendly_name_new_def friendly_name_try_new_def NAME_MAX_LEN_def)

lemma sample_beneficiary_phi:
  "mc_phi (bn_credential sample_beneficiary) =
     point_to_bytes sample (credential_point sample sample_crs (bn_credential sample_beneficiary))"
  using beneficiary_new_credential [OF sample_wf_generators sample_beneficiary_new] by simp

theorem protocol_phases_complete_witness:
  "\<exists>b' b'' reg m' v'.
     beneficiary_register sample_beneficiary (sample_key 9)
       (replicate 4 (mc_phi (bn_credential sample_beneficiary))) = Inr b' \<and>
     create_payment_registration sample sample_rng b' sample_crs 2 = Inr (b'', reg) \<and>
     receive_payment_registration sample sample_crs
       (replicate 4 (mc_phi (bn_credential sample_beneficiary))) (sample_merchant ''b'' 2) reg
       = Inr (m', pr_pseudonym reg) \<and>
     m_registered m' (pr_pseudonym reg) = Some reg \<and>
     verify_name_revelation sample (pf_name_scalar (pr_proof reg)) (ascii ''alice'') \<and>
     verify_and_register sample sample_crs (cache_set (verifier_new 2) (sample_key 9)
         (replicate 4 (mc_phi (bn_credential sample_beneficiary))))
       \<lparr>sb_pseudonym = pr_pseudonym reg, sb_nullifier = pr_public_nullifier reg, sb_proof = pr_proof reg,
        sb_set_id = sample_key 9, sb_friendly_name = pr_friendly_name reg\<rparr> =
       Inr (v', \<lparr>rr_pseudonym = pr_pseudonym reg, rr_public_nullifier = pr_public_nullifier reg,
              rr_friendly_name = ascii ''alice''\<rparr>)"
  by (rule protocol_phases_complete [OF sample_mul_laws sample_codec_laws sample_wf_generators
        sample_beneficiary_new])
    (simp_all add: all_decode_def list_all_iff sample_merchant_def, simp add: sample_beneficiary_phi sample_codec_laws)

end
