(* ===== verification/Client.thy ===== *)
theory Client
  imports Service_Properties Beneficiary "HOL-Library.Multiset"
begin

text \<open>
  \<open>src/src/client.rs\<close>: the calls of the registry's clients and the state a merchant keeps on its
  side. The connection is the argument \<open>call\<close> of each function: it takes the request and the
  state of the other side and returns the new state and the status or the response; the
  properties put the service's handlers there.
\<close>

section \<open>The merchant's state\<close>

record 'p merchant_state =
  ms_merchant :: merchant
  ms_crs :: "'p crs option"
  ms_anonymity_set :: "bytes list option"

text \<open>\<open>sort_by_key\<close> is stable, as \<open>sort_key\<close> is.\<close>

definition build_crs :: "('s, 'p) backend \<Rightarrow> 'p merchant_state list \<Rightarrow> nat \<Rightarrow> 'p crs" where
  "build_crs B states set_size =
     (let sorted = sort_key (\<lambda>s. m_merchant_id (ms_merchant s)) states;
          merchants = map ms_merchant sorted
      in crs_setup B merchants set_size)"

definition attach_set :: "'p merchant_state \<Rightarrow> 'p crs \<Rightarrow> bytes list \<Rightarrow> 'p merchant_state" where
  "attach_set s crs anonymity_set = s\<lparr>ms_crs := Some crs, ms_anonymity_set := Some anonymity_set\<rparr>"

definition state_receive_payment_registration ::
    "('s::field, 'p::ab_group_add) backend \<Rightarrow> 'p merchant_state \<Rightarrow> pid_registration \<Rightarrow>
      failure + 'p merchant_state \<times> bytes" where
  "state_receive_payment_registration B s registration =
     rbind (ok_or (ms_crs s) (Err ''CRS not attached; call attach_set first'')) (\<lambda>crs.
     rbind (ok_or (ms_anonymity_set s) (Err ''anonymity set not attached; call attach_set first'')) (\<lambda>anonymity_set.
     rbind (receive_payment_registration B crs anonymity_set (ms_merchant s) registration) (\<lambda>(m, pseudonym).
     Inr (s\<lparr>ms_merchant := m\<rparr>, pseudonym))))"

definition payment_address ::
    "(bytes \<Rightarrow> 'e + 'pk) \<Rightarrow> ('pk \<Rightarrow> 'xonly) \<Rightarrow> ('xonly \<Rightarrow> 'net \<Rightarrow> 'addr) \<Rightarrow> bytes \<Rightarrow> 'net \<Rightarrow> 'e + 'addr" where
  "payment_address from_slice x_only_public_key p2tr pseudonym network =
     pseudonym_to_address from_slice x_only_public_key p2tr pseudonym network"

section \<open>The calls\<close>

datatype 'e client_error =
    Remote 'e
  | InternalStatus failure
  | Unavailable string
  | DataLoss nat
  | ClientPanic failure

definition client_get_fees :: "('sv \<Rightarrow> 'sv \<times> ('e + u64 \<times> u64)) \<Rightarrow> 'sv \<Rightarrow> 'sv \<times> ('e client_error + u64 \<times> u64)" where
  "client_get_fees call sv = apsnd (map_err Remote) (call sv)"

definition client_get_registry_address ::
    "(bytes \<Rightarrow> 'sv \<Rightarrow> 'sv \<times> ('e + str \<times> bytes)) \<Rightarrow> bytes \<Rightarrow> 'sv \<Rightarrow> 'sv \<times> ('e client_error + str \<times> bytes)" where
  "client_get_registry_address call set_id sv = apsnd (map_err Remote) (call set_id sv)"

text \<open>The merchant is rebuilt locally from the name and the origin, and gets the id the server
  answered, a \<open>u32\<close>.\<close>

definition client_register_merchant ::
    "('s, 'p) backend \<Rightarrow> (merchant_message \<Rightarrow> 'sv \<Rightarrow> 'sv \<times> ('e + u32)) \<Rightarrow>
      str \<Rightarrow> str \<Rightarrow> str \<Rightarrow> str \<Rightarrow> bytes \<Rightarrow> u32 \<Rightarrow> 'sv \<Rightarrow> 'sv \<times> ('e client_error + 'p merchant_state)" where
  "client_register_merchant B call name origin email phone funding_txid funding_vout sv =
     (case call \<lparr>mm_name = name, mm_origin = origin, mm_email = email, mm_phone = phone,
                 mm_funding_txid = funding_txid, mm_funding_vout = funding_vout\<rparr> sv of
        (sv', Inl e) \<Rightarrow> (sv', Inl (Remote e))
      | (sv', Inr merchant_id) \<Rightarrow>
         (sv', rbind (map_err ClientPanic (merchant_new B name origin)) (\<lambda>merchant.
           Inr \<lparr>ms_merchant = merchant\<lparr>m_merchant_id := unat merchant_id\<rparr>, ms_crs = None,
                ms_anonymity_set = None\<rparr>)))"

definition client_get_merchants ::
    "('sv \<Rightarrow> 'sv \<times> ('e + merchant_entry list)) \<Rightarrow> 'sv \<Rightarrow> 'sv \<times> ('e client_error + merchant_entry list)" where
  "client_get_merchants call sv = apsnd (map_err Remote) (call sv)"

definition client_register_beneficiary ::
    "(beneficiary_message \<Rightarrow> 'sv \<Rightarrow> 'sv \<times> ('e + u32)) \<Rightarrow> bytes \<Rightarrow> bytes \<Rightarrow> u32 \<Rightarrow> 'sv \<Rightarrow>
      'sv \<times> ('e client_error + u32)" where
  "client_register_beneficiary call phi funding_txid funding_vout sv =
     apsnd (map_err Remote) (call \<lparr>bm_phi = phi, bm_funding_txid = funding_txid, bm_funding_vout = funding_vout\<rparr> sv)"

text \<open>The request carries 32 zero bytes as a placeholder.\<close>

definition client_finalize_set ::
    "(bytes \<Rightarrow> 'sv \<Rightarrow> 'sv \<times> ('e + bytes)) \<Rightarrow> 'sv \<Rightarrow> 'sv \<times> ('e client_error + bytes)" where
  "client_finalize_set call sv = apsnd (map_err Remote) (call (replicate 32 0) sv)"

definition client_get_crs ::
    "('s, 'p) backend \<Rightarrow> (bytes \<Rightarrow> 'sv \<Rightarrow> 'sv \<times> ('e + bytes)) \<Rightarrow> bytes \<Rightarrow> 'sv \<Rightarrow> 'sv \<times> ('e client_error + 'p crs)" where
  "client_get_crs B call set_id sv =
     (case call set_id sv of (sv', answer) \<Rightarrow>
        (sv', rbind (map_err Remote answer) (\<lambda>crs_bytes.
           map_err InternalStatus (crs_from_bytes B crs_bytes))))"

text \<open>The first message of the stream, \<open>None\<close> when it closes without one; then the conversion of
  each commitment, the first failing index being reported.\<close>

fun commitments_of :: "nat \<Rightarrow> bytes list \<Rightarrow> 'e client_error + bytes list" where
  "commitments_of i [] = Inr []"
| "commitments_of i (b # bs) =
     rbind (ok_or (try_into_array 33 b) (DataLoss i)) (\<lambda>arr.
     rbind (commitments_of (i + 1) bs) (\<lambda>rest. Inr (arr # rest)))"

definition client_wait_for_finalization ::
    "(bytes \<Rightarrow> 'sv \<Rightarrow> 'sv \<times> ('e + set_response option)) \<Rightarrow> bytes \<Rightarrow> 'sv \<Rightarrow> 'sv \<times> ('e client_error + bytes list)" where
  "client_wait_for_finalization call set_id sv =
     (case call set_id sv of (sv', answer) \<Rightarrow>
        (sv', rbind (map_err Remote answer) (\<lambda>message.
              rbind (ok_or message (Unavailable ''finalization stream closed without data'')) (\<lambda>anon_res.
              commitments_of 0 (sr_commitments anon_res)))))"

section \<open>The service at the other end\<close>

text \<open>Queries leave the service as it is. The subscription is answered once the set is stored.\<close>

definition query :: "('sv \<Rightarrow> 'r) \<Rightarrow> 'sv \<Rightarrow> 'sv \<times> 'r" where
  "query f sv = (sv, f sv)"

definition call_get_crs :: "('s, 'p) backend \<Rightarrow> bytes \<Rightarrow> ('p, 'x, 'f, 'o, 'd) service \<Rightarrow>
    ('p, 'x, 'f, 'o, 'd) service \<times> (status + bytes)" where
  "call_get_crs B set_id = query (\<lambda>sv. get_crs B sv set_id)"

definition call_register_merchant :: "('s, 'p) backend \<Rightarrow> 'd db_ops \<Rightarrow> merchant_message \<Rightarrow>
    ('p, 'x, 'f, 'o, 'd) service \<Rightarrow> ('p, 'x, 'f, 'o, 'd) service \<times> (status + u32)" where
  "call_register_merchant B D q sv = register_merchant B D sv q"

definition call_register_beneficiary :: "beneficiary_message \<Rightarrow>
    ('p, 'x, 'f, 'o, 'd) service \<Rightarrow> ('p, 'x, 'f, 'o, 'd) service \<times> (status + u32)" where
  "call_register_beneficiary q sv = register_beneficiary sv q"

definition call_finalize_set :: "('s, 'p) backend \<Rightarrow> ('k, 'x) btc \<Rightarrow> 'd db_ops \<Rightarrow> bytes \<Rightarrow>
    ('p, 'x, 'f, 'o, 'd) service \<Rightarrow> ('p, 'x, 'f, 'o, 'd) service \<times> (status + bytes)" where
  "call_finalize_set B T D set_id sv = finalize_set B T D sv set_id"

text \<open>The first poll of the subscription in the state \<open>sv\<close>; when it finds the set, the task sends
  what the same state holds.\<close>

definition call_subscribe :: "('s, 'p) backend \<Rightarrow> bytes \<Rightarrow> ('p, 'x, 'f, 'o, 'd) service \<Rightarrow>
    ('p, 'x, 'f, 'o, 'd) service \<times> (status + set_response option)" where
  "call_subscribe B set_id sv =
     (sv, rbind (subscribe_set_finalization B 1 (\<lambda>_. sv) 0 (\<lambda>_. None) set_id)
            (\<lambda>r. Inr (case r of None \<Rightarrow> None | Some message \<Rightarrow> message)))"

section \<open>Lemmas\<close>

lemma commitments_of_arrays: "\<forall>b\<in>set bs. length b = 33 \<Longrightarrow> commitments_of i bs = Inr bs"
  by (induction i bs rule: commitments_of.induct) (auto simp: ok_or_def try_into_array_def)

lemma commitments_of_Inr: "commitments_of i bs = Inr cs \<longleftrightarrow> cs = bs \<and> (\<forall>b\<in>set bs. length b = 33)"
  by (induction i bs arbitrary: cs rule: commitments_of.induct) (auto simp: rbind_Inr_iff)

text \<open>What the subscriber of a finalized set gets: the members, and the last one repeated up to \<open>N\<close>.\<close>

lemma finalized_set_served:
  fixes B :: "('s::field, 'p::ab_group_add) backend" and sv :: "('p, 'x, 'f, 'o, 'd) service"
  assumes final: "finalize_set B T D sv (replicate 32 0) = (sv', Inr txid)" and id: "length txid = 32"
    and arrays: "\<forall>c\<in>set (rg_anonymity_set (sv_registry sv)). length c = 33"
  defines "raw \<equiv> rg_anonymity_set (sv_registry sv)"
  shows "client_wait_for_finalization (call_subscribe B) txid sv' =
      (sv', Inr (raw @ replicate (N_of B - length raw) (last raw)))"
    and "raw \<noteq> []"
proof -
  obtain a where a: "st_active_sets (sv_store sv') txid = Some a" "rg_anonymity_set (ac_registry a) = raw"
      "ac_finalized a" and nonempty: "raw \<noteq> []"
    using finalize_stores [OF final] by (auto simp: raw_def)
  show "raw \<noteq> []" by (rule nonempty)
  let ?xs = "raw @ replicate (N_of B - length raw) (last raw)"
  have "commitments_of 0 ?xs = (Inr ?xs :: status client_error + bytes list)"
    using arrays nonempty by (intro commitments_of_arrays) (auto simp: raw_def)
  then show "client_wait_for_finalization (call_subscribe B) txid sv' = (sv', Inr ?xs)"
    using a nonempty id
    by (simp add: client_wait_for_finalization_def call_subscribe_def subscribe_set_finalization_def parse_array_def
        try_into_array_def subscription_message_def Let_def pad_commitments_shape)
qed

text \<open>Two lists with the same elements, sorted by keys that tell the elements apart, are equal.\<close>

lemma sorted_keys_unique:
  assumes "mset xs = mset ys" "sorted (map f xs)" "sorted (map f ys)" "distinct (map f ys)"
  shows "xs = ys"
proof -
  have "mset (map f xs) = mset (map f ys)"
    using assms(1) by simp
  then have "map f xs = map f ys"
    using properties_for_sort [of "map f xs" "map f ys"] sorted_sort_id [of "map f ys"] assms(2,3) by simp
  moreover have "set xs = set ys"
    using assms(1) by (rule mset_eq_setD)
  then have "inj_on f (set xs \<union> set ys)"
    using assms(4) by (simp add: distinct_map)
  ultimately show ?thesis
    using inj_on_map_eq_map by blast
qed

section \<open>Properties\<close>

text \<open>C32. Merchants can rebuild the reference string without asking for it. Whatever order the
  states of the registered merchants are listed in, \<open>build_crs\<close> gives the CRS that the registry
  derives, as long as the states are those of exactly the registry's merchants.\<close>

theorem build_crs_agrees:
  assumes "registry_ok B r" and "mset (map ms_merchant states) = mset (rg_merchants r)"
  shows "build_crs B states (rg_set_size r) = rg_crs (registry_setup B r)"
proof -
  define xs where "xs = map ms_merchant (sort_key (\<lambda>s. m_merchant_id (ms_merchant s)) states)"
  have ids: "map m_merchant_id (rg_merchants r) = map Suc [0..<length (rg_merchants r)]"
    using assms(1) by (intro nth_equalityI) (simp_all add: registry_ok_def)
  have "mset xs = mset (rg_merchants r)"
    using assms(2) by (simp add: xs_def)
  moreover have "sorted (map m_merchant_id xs)"
    unfolding xs_def using sorted_sort_key [of "\<lambda>s. m_merchant_id (ms_merchant s)" states] by (simp add: o_def)
  moreover have "sorted (map m_merchant_id (rg_merchants r))" "distinct (map m_merchant_id (rg_merchants r))"
    by (simp_all add: ids distinct_map sorted_iff_nth_mono)
  ultimately have "xs = rg_merchants r"
    by (rule sorted_keys_unique)
  then show ?thesis
    by (simp add: build_crs_def Let_def xs_def registry_setup_def)
qed

definition sample_state :: "merchant \<Rightarrow> gf5 merchant_state" where
  "sample_state m = \<lparr>ms_merchant = m, ms_crs = None, ms_anonymity_set = None\<rparr>"

definition sample_registry :: "(gf5, bytes) registry" where
  "sample_registry = \<lparr>rg_crs = crs_setup sample [] 4,
     rg_merchants = [sample_merchant ''a'' 1, sample_merchant ''b'' 2], rg_set_size = 4,
     rg_anonymity_set = [], rg_set_id = [], rg_keypair = [], rg_amount = 0, rg_outputs = []\<rparr>"

lemma sample_registry_ok: "registry_ok sample sample_registry"
  by (auto simp: registry_ok_def sample_registry_def sample_merchant_def less_Suc_eq intro: exI [of _ "[]"])

theorem build_crs_agrees_witness:
  "build_crs sample [sample_state (sample_merchant ''b'' 2), sample_state (sample_merchant ''a'' 1)]
     (rg_set_size sample_registry) = rg_crs (registry_setup sample sample_registry)"
  by (rule build_crs_agrees [OF sample_registry_ok]) (simp add: sample_state_def sample_registry_def)

text \<open>Waiting for the finalization gives a usable set exactly when the stream delivers a message
  all of whose commitments have 33 bytes; the result is the commitments of the message.\<close>

theorem wait_for_finalization_outcome:
  "snd (client_wait_for_finalization call set_id sv) = Inr cs \<longleftrightarrow>
     (\<exists>resp. snd (call set_id sv) = Inr (Some resp) \<and> cs = sr_commitments resp \<and> (\<forall>c\<in>set cs. length c = 33))"
  by (auto simp: client_wait_for_finalization_def rbind_Inr_iff commitments_of_Inr split: prod.split)

text \<open>The client's merchant is the registry's. After a successful registration through the
  client, the state holds the very merchant record, with its id, that the registry appended,
  while the number of merchants stays below \<open>2\<^sup>3\<^sup>2\<close>.\<close>

theorem client_merchant_matches_registry:
  assumes "client_register_merchant B (call_register_merchant B D) name origin email phone txid vout sv =
      (sv', Inr s)"
    and "length (rg_merchants (sv_registry sv)) + 1 < 2 ^ 32"
  shows "rg_merchants (sv_registry sv') = rg_merchants (sv_registry sv) @ [ms_merchant s] \<and>
    m_name (ms_merchant s) = name \<and> m_origin (ms_merchant s) = origin \<and>
    m_registered (ms_merchant s) = Map.empty \<and> ms_crs s = None \<and> ms_anonymity_set s = None"
proof -
  have "(unat (word_of_nat (Suc n) :: u32)) = Suc n" if "Suc n < 2 ^ 32" for n
    using that by (simp add: unat_of_nat del: of_nat_Suc)
  then show ?thesis
    using assms
    by (auto simp: client_register_merchant_def call_register_merchant_def register_merchant_def
        register_merchant_registry_def registry_add_merchant_def register_merchant_store_def Let_def
        map_err_def rbind_Inr_iff split: prod.splits sum.splits)
qed

theorem client_merchant_matches_registry_witness:
  "\<exists>sv' s. client_register_merchant sample (call_register_merchant sample failing_db) (ascii ''shop'') (ascii ''o'') [] []
       (replicate 32 0) 0 sample_service = (sv', Inr s :: (status client_error + gf5 merchant_state)) \<and>
     rg_merchants (sv_registry sv') = rg_merchants (sv_registry sample_service) @ [ms_merchant s]"
proof -
  obtain m where m: "merchant_new sample (ascii ''shop'') (ascii ''o'') = Inr m"
    by (simp add: ascii_def)
  have "length (rg_merchants (sv_registry sample_service)) + 1 < 2 ^ 32"
    by (simp add: sample_service_def)
  moreover obtain sv' s where "client_register_merchant sample (call_register_merchant sample failing_db) (ascii ''shop'')
      (ascii ''o'') [] [] (replicate 32 0) 0 sample_service = (sv', Inr s :: (status client_error + gf5 merchant_state))"
    using m sample_wallet_pays
    by (simp add: client_register_merchant_def call_register_merchant_def register_merchant_def
        register_merchant_store_def register_merchant_registry_def parse_txid_def parse_array_def try_into_array_def
        store_add_merchant_def sample_store_sel Let_def registry_add_merchant_def del: merchant_new_Inr)
  ultimately show ?thesis
    using client_merchant_matches_registry by blast
qed

end
