(* ===== verification/Std_Text.thy ===== *)
theory Std_Text
  imports Types
begin

text \<open>
  What the command-line helpers under \<open>src/src/bin/\<close> use of the standard library's text
  functions: string slices, which panic off a character boundary, \<open>trim().is_empty()\<close>, the lines
  of a reader, and little-endian integers. A string is its UTF-8 bytes.
\<close>

section \<open>Slices\<close>

definition is_char_boundary :: "str \<Rightarrow> nat \<Rightarrow> bool" where
  "is_char_boundary s n \<longleftrightarrow>
     (if n = 0 then True else if length s \<le> n then n = length s else \<not> cont_byte (s ! n))"

text \<open>\<open>&s[..n]\<close>\<close>

definition str_prefix :: "nat \<Rightarrow> str \<Rightarrow> failure + str" where
  "str_prefix n s =
     (if is_char_boundary s n then Inr (take n s) else Inl (Panic ''byte index is not a char boundary''))"

lemma str_prefix_short: "0 < n \<Longrightarrow> length s < n \<Longrightarrow>
    str_prefix n s = Inl (Panic ''byte index is not a char boundary'')"
  by (simp add: str_prefix_def is_char_boundary_def)

lemma str_prefix_all: "str_prefix (length s) s = Inr s"
  by (simp add: str_prefix_def is_char_boundary_def)

text \<open>Strings that are ASCII can be cut anywhere.\<close>

definition ascii_only :: "str \<Rightarrow> bool" where
  "ascii_only s \<longleftrightarrow> list_all (\<lambda>b. unat b < 128) s"

lemma str_prefix_ascii: "ascii_only s \<Longrightarrow> n \<le> length s \<Longrightarrow> str_prefix n s = Inr (take n s)"
  by (auto simp: str_prefix_def is_char_boundary_def ascii_only_def list_all_length cont_byte_def byte_in_def
      dest: le_neq_implies_less)

section \<open>White space\<close>

text \<open>The characters of Unicode's \<open>White_Space\<close> property, in UTF-8; a string of nothing else is
  empty after \<open>trim\<close>.\<close>

fun blank :: "str \<Rightarrow> bool" where
  "blank [] = True"
| "blank (b # bs) =
     (if b = 0x20 \<or> byte_in 0x09 0x0D b then blank bs
      else (case bs of
        [] \<Rightarrow> False
      | b1 # r1 \<Rightarrow>
          if b = 0xC2 then (b1 = 0x85 \<or> b1 = 0xA0) \<and> blank r1
          else (case r1 of
            [] \<Rightarrow> False
          | b2 # r2 \<Rightarrow>
              ((b = 0xE1 \<and> b1 = 0x9A \<and> b2 = 0x80) \<or>
               (b = 0xE2 \<and> b1 = 0x80 \<and> (byte_in 0x80 0x8A b2 \<or> b2 = 0xA8 \<or> b2 = 0xA9 \<or> b2 = 0xAF)) \<or>
               (b = 0xE2 \<and> b1 = 0x81 \<and> b2 = 0x9F) \<or>
               (b = 0xE3 \<and> b1 = 0x80 \<and> b2 = 0x80)) \<and> blank r2)))"

section \<open>Lines\<close>

text \<open>\<open>BufRead::lines\<close>: a line ends at a newline, which is dropped with a carriage return before
  it, or at the end of the input; a line that is not UTF-8 is an error.\<close>

definition strip_cr :: "bytes \<Rightarrow> bytes" where
  "strip_cr l = (if l \<noteq> [] \<and> last l = 13 then butlast l else l)"

fun split_lines :: "bytes \<Rightarrow> bytes \<Rightarrow> bytes list" where
  "split_lines acc [] = (if acc = [] then [] else [acc])"
| "split_lines acc (b # bs) = (if b = 10 then strip_cr acc # split_lines [] bs else split_lines (acc @ [b]) bs)"

definition stdin_lines :: "bytes \<Rightarrow> (failure + str) list" where
  "stdin_lines input = map (\<lambda>l. ok_or (from_utf8 l) (Err ''stream did not contain valid UTF-8'')) (split_lines [] input)"

lemma split_lines_line: "10 \<notin> set l \<Longrightarrow> split_lines acc (l @ 10 # rest) = strip_cr (acc @ l) # split_lines [] rest"
  by (induction l arbitrary: acc) auto

lemma strip_cr_id: "13 \<notin> set l \<Longrightarrow> strip_cr l = l"
  by (metis strip_cr_def last_in_set)

text \<open>Lines written one after the other are read back one by one.\<close>

lemma stdin_lines_append:
  "\<forall>l\<in>set ls. 10 \<notin> set l \<and> 13 \<notin> set l \<and> utf8_valid l \<Longrightarrow>
   stdin_lines (concat (map (\<lambda>l. l @ [10]) ls) @ rest) = map Inr ls @ stdin_lines rest"
  by (induction ls) (simp_all add: stdin_lines_def split_lines_line strip_cr_id from_utf8_def)

section \<open>Little-endian integers\<close>

definition u64_le :: "u64 \<Rightarrow> bytes" where "u64_le w = rev (u64_be w)"

definition u64_of_le :: "bytes \<Rightarrow> u64" where "u64_of_le b = word_of_nat (be_val (rev b))"

lemma length_u64_le [simp]: "length (u64_le w) = 8"
  by (simp add: u64_le_def)

lemma u64_of_le_u64_le [simp]: "u64_of_le (u64_le w) = w"
proof -
  have "unat w < 256 ^ 8"
    using unat_less_pow [of w] by simp
  then show ?thesis
    by (simp add: u64_of_le_def u64_le_def u64_be_def be_val_bytes)
qed

end
