(* ===== verification/Core_Commands.thy ===== *)
theory Core_Commands
  imports Beneficiary Proof_Codec Std_Text
begin

text \<open>
  \<open>src/src/bin/veiled_core.rs\<close>: the JSON helper that the web interface calls. It keeps no state
  between commands: each command carries the credential, the reference string and the set as hex
  strings. The JSON library, the hex crate and the address functions of the bitcoin crate are the
  fields of the environment; each handler takes its parameter struct and returns a response or an
  error, or panics. The log lines are left out, except for the slices in them that can panic.
\<close>

section \<open>The environment\<close>

record credential_json =
  cj_phi :: str
  cj_sk :: str
  cj_r :: str
  cj_k :: str
  cj_friendly_name :: str

record 'v command =
  cmd_name :: str
  cmd_params :: 'v

record create_credential_params =
  cc_crs_hex :: str
  cc_name :: str

record register_locally_params =
  rl_credential :: credential_json
  rl_commitments_hex :: "str list"

record create_payment_id_params =
  ci_credential :: credential_json
  ci_crs_hex :: str
  ci_commitments_hex :: "str list"
  ci_index :: nat
  ci_set_id :: u64
  ci_merchant_id :: nat

record build_crs_merchant =
  bc_name :: str
  bc_origin :: str

record build_crs_params =
  bp_merchants :: "build_crs_merchant list"
  bp_set_size :: nat

record receive_payment_id_params =
  ri_crs_hex :: str
  ri_commitments_hex :: "str list"
  ri_pseudonym_hex :: str
  ri_nullifier_hex :: str
  ri_set_id :: u64
  ri_service_index :: nat
  ri_friendly_name :: str
  ri_proof_hex :: str
  ri_merchant_name :: str
  ri_merchant_origin :: str

record create_payment_request_params =
  pq_credential_r_hex :: str
  pq_merchant_name :: str
  pq_crs_g_hex :: str
  pq_amount :: u64

record verify_payment_request_params =
  vq_crs_g_hex :: str
  vq_pseudonym_hex :: str
  vq_proof_r_hex :: str
  vq_proof_s_hex :: str

record pseudonym_to_address_params =
  pa_pseudonym_hex :: str

record create_payment_id_response =
  cp_pseudonym :: str
  cp_nullifier :: str
  cp_proof_hex :: str
  cp_friendly_name :: str
  cp_service_index :: nat
  cp_set_id :: u64

record create_payment_request_response =
  qr_pseudonym :: str
  qr_proof_r :: str
  qr_proof_s :: str
  qr_amount :: u64

datatype core_response =
    BuildCrsResponse str
  | CreateCredentialResponse credential_json
  | RegisterLocallyResponse nat
  | CreatePaymentIdResponse create_payment_id_response
  | ReceivePaymentIdResponse str
  | CreatePaymentRequestResponse create_payment_request_response
  | VerifyPaymentRequestResponse bool str
  | PseudonymToAddressResponse str
  | StatusOk
  | ErrorResponse string

text \<open>What the helper uses of the crates: hex, the conversion of a parsed JSON value into each
  parameter struct, the parser of a command, and the address of a public key on regtest.\<close>

record ('v, 'k, 'x, 'a) env =
  hex_encode :: "bytes \<Rightarrow> str"
  hex_decode :: "str \<Rightarrow> bytes option"
  json_command :: "str \<Rightarrow> 'v command option"
  to_build_crs :: "'v \<Rightarrow> build_crs_params option"
  to_create_credential :: "'v \<Rightarrow> create_credential_params option"
  to_register_locally :: "'v \<Rightarrow> register_locally_params option"
  to_create_payment_id :: "'v \<Rightarrow> create_payment_id_params option"
  to_receive_payment_id :: "'v \<Rightarrow> receive_payment_id_params option"
  to_create_payment_request :: "'v \<Rightarrow> create_payment_request_params option"
  to_verify_payment_request :: "'v \<Rightarrow> verify_payment_request_params option"
  to_pseudonym_to_address :: "'v \<Rightarrow> pseudonym_to_address_params option"
  key_from_slice :: "bytes \<Rightarrow> failure + 'k"
  key_x_only :: "'k \<Rightarrow> 'x"
  p2tr_regtest :: "'x \<Rightarrow> unit \<Rightarrow> 'a"
  address_to_string :: "'a \<Rightarrow> str"

definition env_hex_laws :: "('v, 'k, 'x, 'a) env \<Rightarrow> bool" where
  "env_hex_laws E \<longleftrightarrow> hex_laws (hex_encode E) (hex_decode E)"

section \<open>Conversions\<close>

definition hex_to_32 :: "('v, 'k, 'x, 'a) env \<Rightarrow> str \<Rightarrow> failure + bytes" where
  "hex_to_32 E h =
     rbind (ok_or (hex_decode E h) (Err ''hex decode'')) (\<lambda>bytes.
     ok_or (try_into_array 32 bytes) (Err ''expected 32 bytes''))"

definition hex_to_33 :: "('v, 'k, 'x, 'a) env \<Rightarrow> str \<Rightarrow> failure + bytes" where
  "hex_to_33 E h =
     rbind (ok_or (hex_decode E h) (Err ''hex decode'')) (\<lambda>bytes.
     ok_or (try_into_array 33 bytes) (Err ''expected 33 bytes''))"

definition from_credential :: "('v, 'k, 'x, 'a) env \<Rightarrow> credential \<Rightarrow> credential_json" where
  "from_credential E c =
     \<lparr>cj_phi = hex_encode E (mc_phi c), cj_sk = hex_encode E (mc_sk c), cj_r = hex_encode E (mc_r c),
      cj_k = hex_encode E (mc_k c), cj_friendly_name = mc_friendly_name c\<rparr>"

definition to_credential :: "('v, 'k, 'x, 'a) env \<Rightarrow> credential_json \<Rightarrow> failure + credential" where
  "to_credential E j =
     rbind (hex_to_33 E (cj_phi j)) (\<lambda>phi_bytes.
     rbind (hex_to_32 E (cj_sk j)) (\<lambda>sk_bytes.
     rbind (hex_to_32 E (cj_r j)) (\<lambda>r_bytes.
     rbind (hex_to_32 E (cj_k j)) (\<lambda>k_bytes.
     rbind (friendly_name_new (cj_friendly_name j)) (\<lambda>friendly_name.
     Inr \<lparr>mc_phi = phi_bytes, mc_sk = sk_bytes, mc_r = r_bytes, mc_k = k_bytes,
          mc_friendly_name = friendly_name\<rparr>)))))"

definition parse_crs_hex :: "('s, 'p) backend \<Rightarrow> ('v, 'k, 'x, 'a) env \<Rightarrow> str \<Rightarrow> failure + 'p crs" where
  "parse_crs_hex B E h = rbind (ok_or (hex_decode E h) (Err ''crs hex'')) (crs_from_bytes B)"

text \<open>The 64-bit id of the web interface in the first eight of 32 bytes.\<close>

definition set_id_bytes :: "u64 \<Rightarrow> bytes" where
  "set_id_bytes set_id = u64_le set_id @ replicate 24 0"

section \<open>Handlers\<close>

definition handle_build_crs ::
    "('s, 'p) backend \<Rightarrow> ('v, 'k, 'x, 'a) env \<Rightarrow> build_crs_params \<Rightarrow> failure + core_response" where
  "handle_build_crs B E p =
     rbind (collect_res (\<lambda>m. merchant_new B (bc_name m) (bc_origin m)) (bp_merchants p)) (\<lambda>merchants.
     let crs = crs_setup B merchants (bp_set_size p);
         crs_hex = hex_encode E (crs_to_bytes B crs)
     in Inr (BuildCrsResponse crs_hex))"

definition handle_create_credential ::
    "('s, 'p::ab_group_add) backend \<Rightarrow> ('v, 'k, 'x, 'a) env \<Rightarrow> rng \<Rightarrow> create_credential_params \<Rightarrow>
      failure + core_response" where
  "handle_create_credential B E rng p =
     rbind (parse_crs_hex B E (cc_crs_hex p)) (\<lambda>crs.
     rbind (beneficiary_new B rng crs (cc_name p)) (\<lambda>ben.
     Inr (CreateCredentialResponse (from_credential E (bn_credential ben)))))"

definition handle_register_locally ::
    "('v, 'k, 'x, 'a) env \<Rightarrow> register_locally_params \<Rightarrow> failure + core_response" where
  "handle_register_locally E p =
     rbind (to_credential E (rl_credential p)) (\<lambda>credential.
     rbind (collect_res (hex_to_33 E) (rl_commitments_hex p)) (\<lambda>commitments.
     rbind (ok_or (position (\<lambda>c. c = mc_phi credential) commitments) (Err ''commitment not found in set'')) (\<lambda>index.
     Inr (RegisterLocallyResponse index))))"

definition handle_create_payment_id ::
    "('s::field, 'p::ab_group_add) backend \<Rightarrow> ('v, 'k, 'x, 'a) env \<Rightarrow> rng \<Rightarrow> create_payment_id_params \<Rightarrow>
      failure + core_response" where
  "handle_create_payment_id B E rng p =
     rbind (to_credential E (ci_credential p)) (\<lambda>credential.
     rbind (parse_crs_hex B E (ci_crs_hex p)) (\<lambda>crs.
     rbind (collect_res (hex_to_33 E) (ci_commitments_hex p)) (\<lambda>commitments.
     let ben = \<lparr>bn_credential = credential, bn_set_id = Some (set_id_bytes (ci_set_id p)),
                bn_index = Some (ci_index p), bn_anonymity_set = Some commitments,
                bn_registrations = Map.empty\<rparr> in
     rbind (create_payment_registration B rng ben crs (ci_merchant_id p)) (\<lambda>(_, reg).
     let proof_bytes = serialize_payment_identity_registration_proof (pr_proof reg) in
     Inr (CreatePaymentIdResponse
       \<lparr>cp_pseudonym = hex_encode E (pr_pseudonym reg), cp_nullifier = hex_encode E (pr_public_nullifier reg),
        cp_proof_hex = hex_encode E proof_bytes, cp_friendly_name = pr_friendly_name reg,
        cp_service_index = pr_service_index reg, cp_set_id = u64_of_le (take 8 (pr_set_id reg))\<rparr>)))))"

text \<open>The registration that the parameters of \<open>receive-payment-id\<close> stand for.\<close>

definition parse_registration ::
    "('s, 'p) backend \<Rightarrow> ('v, 'k, 'x, 'a) env \<Rightarrow> receive_payment_id_params \<Rightarrow> failure + pid_registration" where
  "parse_registration B E p =
     rbind (ok_or (hex_decode E (ri_proof_hex p)) (Err ''proof hex'')) (\<lambda>proof_bytes.
     rbind (map_err (\<lambda>_. Err ''proof'') (deserialize_payment_identity_registration_proof (bk_M B) proof_bytes)) (\<lambda>proof.
     rbind (hex_to_33 E (ri_pseudonym_hex p)) (\<lambda>pseudonym.
     rbind (hex_to_33 E (ri_nullifier_hex p)) (\<lambda>nullifier.
     Inr \<lparr>pr_pseudonym = pseudonym, pr_public_nullifier = nullifier, pr_set_id = set_id_bytes (ri_set_id p),
          pr_service_index = ri_service_index p, pr_friendly_name = ri_friendly_name p, pr_proof = proof\<rparr>))))"

definition handle_receive_payment_id ::
    "('s::field, 'p::ab_group_add) backend \<Rightarrow> ('v, 'k, 'x, 'a) env \<Rightarrow> receive_payment_id_params \<Rightarrow>
      failure + core_response" where
  "handle_receive_payment_id B E p =
     rbind (parse_crs_hex B E (ri_crs_hex p)) (\<lambda>crs.
     rbind (collect_res (hex_to_33 E) (ri_commitments_hex p)) (\<lambda>commitments.
     rbind (parse_registration B E p) (\<lambda>registration.
     rbind (merchant_new B (ri_merchant_name p) (ri_merchant_origin p)) (\<lambda>merchant.
     rbind (receive_payment_registration B crs commitments merchant registration) (\<lambda>(_, pseudonym).
     Inr (ReceivePaymentIdResponse (hex_encode E pseudonym)))))))"

definition handle_create_payment_request ::
    "('s::field, 'p) backend \<Rightarrow> ('v, 'k, 'x, 'a) env \<Rightarrow> rng \<Rightarrow> create_payment_request_params \<Rightarrow>
      failure + core_response" where
  "handle_create_payment_request B E rng p =
     rbind (hex_to_32 E (pq_credential_r_hex p)) (\<lambda>r_bytes.
     rbind (name_new (pq_merchant_name p)) (\<lambda>name.
     rbind (hex_to_33 E (pq_crs_g_hex p)) (\<lambda>g_bytes.
     rbind (ok_or (point_from_bytes B g_bytes) (Err ''invalid generator point'')) (\<lambda>g.
     let req = create_payment_request B rng r_bytes name g (pq_amount p) in
     Inr (CreatePaymentRequestResponse
       \<lparr>qr_pseudonym = hex_encode E (rq_pseudonym req), qr_proof_r = hex_encode E (rq_r (rq_proof req)),
        qr_proof_s = hex_encode E (rq_s (rq_proof req)), qr_amount = rq_amount req\<rparr>)))))"

text \<open>The log line cuts the pseudonym's string at 16 bytes, or its length, before it is parsed.\<close>

definition log_pseudonym :: "str \<Rightarrow> failure + str" where
  "log_pseudonym s = str_prefix (min 16 (length s)) s"

definition handle_verify_payment_request ::
    "('s, 'p::ab_group_add) backend \<Rightarrow> ('v, 'k, 'x, 'a) env \<Rightarrow> verify_payment_request_params \<Rightarrow>
      failure + core_response" where
  "handle_verify_payment_request B E p =
     rbind (log_pseudonym (vq_pseudonym_hex p)) (\<lambda>_.
     rbind (hex_to_33 E (vq_crs_g_hex p)) (\<lambda>g_bytes.
     rbind (ok_or (point_from_bytes B g_bytes) (Err ''invalid g point'')) (\<lambda>g.
     rbind (hex_to_33 E (vq_pseudonym_hex p)) (\<lambda>pseudonym.
     rbind (hex_to_33 E (vq_proof_r_hex p)) (\<lambda>r.
     rbind (hex_to_32 E (vq_proof_s_hex p)) (\<lambda>s.
     let valid = verify_payment_request B g pseudonym \<lparr>rq_r = r, rq_s = s\<rparr> in
     rbind (pseudonym_to_address (key_from_slice E) (key_x_only E) (p2tr_regtest E) pseudonym ()) (\<lambda>address.
     Inr (VerifyPaymentRequestResponse valid (address_to_string E address)))))))))"

definition handle_pseudonym_to_address ::
    "('v, 'k, 'x, 'a) env \<Rightarrow> pseudonym_to_address_params \<Rightarrow> failure + core_response" where
  "handle_pseudonym_to_address E p =
     rbind (log_pseudonym (pa_pseudonym_hex p)) (\<lambda>_.
     rbind (hex_to_33 E (pa_pseudonym_hex p)) (\<lambda>pseudonym.
     rbind (pseudonym_to_address (key_from_slice E) (key_x_only E) (p2tr_regtest E) pseudonym ()) (\<lambda>address.
     Inr (PseudonymToAddressResponse (address_to_string E address)))))"

section \<open>Dispatch and the daemon\<close>

text \<open>\<open>from_value\<close>, then the handler.\<close>

definition with_params :: "('v \<Rightarrow> 'q option) \<Rightarrow> ('q \<Rightarrow> failure + 'r) \<Rightarrow> 'v \<Rightarrow> failure + 'r" where
  "with_params from_value handler v = rbind (ok_or (from_value v) (Err ''bad params'')) handler"

definition core_dispatch ::
    "('s::field, 'p::ab_group_add) backend \<Rightarrow> ('v, 'k, 'x, 'a) env \<Rightarrow> rng \<Rightarrow> 'v command \<Rightarrow>
      failure + core_response" where
  "core_dispatch B E rng cmd =
     (let c = cmd_name cmd; v = cmd_params cmd in
      if c = ascii ''build-crs'' then with_params (to_build_crs E) (handle_build_crs B E) v
      else if c = ascii ''create-credential''
      then with_params (to_create_credential E) (handle_create_credential B E rng) v
      else if c = ascii ''register-locally''
      then with_params (to_register_locally E) (handle_register_locally E) v
      else if c = ascii ''create-payment-id''
      then with_params (to_create_payment_id E) (handle_create_payment_id B E rng) v
      else if c = ascii ''receive-payment-id''
      then with_params (to_receive_payment_id E) (handle_receive_payment_id B E) v
      else if c = ascii ''create-payment-request''
      then with_params (to_create_payment_request E) (handle_create_payment_request B E rng) v
      else if c = ascii ''verify-payment-request''
      then with_params (to_verify_payment_request E) (handle_verify_payment_request B E) v
      else if c = ascii ''pseudonym-to-address''
      then with_params (to_pseudonym_to_address E) (handle_pseudonym_to_address E) v
      else if c = ascii ''ping'' then Inr StatusOk
      else Inl (Err ''unknown command''))"

text \<open>The answer to one line: the response, the error of the command, the error of the JSON
  parser, or the message of a panic, which \<open>catch_unwind\<close> stops.\<close>

definition core_answer ::
    "('s::field, 'p::ab_group_add) backend \<Rightarrow> ('v, 'k, 'x, 'a) env \<Rightarrow> rng \<Rightarrow> str \<Rightarrow> core_response" where
  "core_answer B E rng line =
     (case json_command E line of
        None \<Rightarrow> ErrorResponse ''invalid JSON''
      | Some cmd \<Rightarrow>
          (case core_dispatch B E rng cmd of
             Inr val \<Rightarrow> val
           | Inl (Err e) \<Rightarrow> ErrorResponse e
           | Inl (Panic msg) \<Rightarrow> ErrorResponse (''internal panic: '' @ msg)))"

text \<open>The loop over the lines of the standard input. The random bytes that the \<open>k\<close>-th command
  draws are \<open>rngs k\<close>; \<open>write_ok k\<close> tells whether writing its answer succeeds. The result is
  the list of the answers written.\<close>

fun core_daemon ::
    "('s::field, 'p::ab_group_add) backend \<Rightarrow> ('v, 'k, 'x, 'a) env \<Rightarrow> (nat \<Rightarrow> rng) \<Rightarrow> (nat \<Rightarrow> bool) \<Rightarrow> nat \<Rightarrow>
      (failure + str) list \<Rightarrow> core_response list" where
  "core_daemon B E rngs write_ok k [] = []"
| "core_daemon B E rngs write_ok k (Inl e # rest) = []"
| "core_daemon B E rngs write_ok k (Inr line # rest) =
     (if blank line then core_daemon B E rngs write_ok k rest
      else (let output = core_answer B E (rngs k) line in
            if write_ok k then output # core_daemon B E rngs write_ok (k + 1) rest else []))"

text \<open>The mode without \<open>--daemon\<close>: the whole input is one command; a panic is not caught. The
  result is what is printed, if anything, and the exit status.\<close>

definition core_single ::
    "('s::field, 'p::ab_group_add) backend \<Rightarrow> ('v, 'k, 'x, 'a) env \<Rightarrow> rng \<Rightarrow> bytes \<Rightarrow> core_response option \<times> nat" where
  "core_single B E rng input =
     (case from_utf8 input of
        None \<Rightarrow> (None, 101)
      | Some s \<Rightarrow>
          (case json_command E s of
             None \<Rightarrow> (Some (ErrorResponse ''invalid JSON''), 1)
           | Some cmd \<Rightarrow>
               (case core_dispatch B E rng cmd of
                  Inr val \<Rightarrow> (Some val, 0)
                | Inl (Err e) \<Rightarrow> (Some (ErrorResponse e), 1)
                | Inl (Panic msg) \<Rightarrow> (None, 101))))"

definition core_main ::
    "('s::field, 'p::ab_group_add) backend \<Rightarrow> ('v, 'k, 'x, 'a) env \<Rightarrow> (nat \<Rightarrow> rng) \<Rightarrow> (nat \<Rightarrow> bool) \<Rightarrow> str list \<Rightarrow>
      bytes \<Rightarrow> core_response list" where
  "core_main B E rngs write_ok args input =
     (if \<exists>a\<in>set args. a = ascii ''--daemon''
      then core_daemon B E rngs write_ok 0 (stdin_lines input)
      else (case core_single B E (rngs 0) input of (None, _) \<Rightarrow> [] | (Some out, _) \<Rightarrow> [out]))"

end
