(* ===== verification/Core_Properties.thy ===== *)
theory Core_Properties
  imports Core_Commands
begin

text \<open>
  Properties of the JSON helper (theory Core_Commands): what its conversions keep, the protocol
  through its commands, and its loop.
\<close>

section \<open>Conversions\<close>

lemma hex_decode_encode [simp]: "env_hex_laws E \<Longrightarrow> hex_decode E (hex_encode E b) = Some b"
  by (simp add: env_hex_laws_def hex_laws_def)

lemma hex_to_32_encode [simp]: "env_hex_laws E \<Longrightarrow> length b = 32 \<Longrightarrow> hex_to_32 E (hex_encode E b) = Inr b"
  by (simp add: hex_to_32_def ok_or_def try_into_array_def)

lemma hex_to_33_encode [simp]: "env_hex_laws E \<Longrightarrow> length b = 33 \<Longrightarrow> hex_to_33 E (hex_encode E b) = Inr b"
  by (simp add: hex_to_33_def ok_or_def try_into_array_def)

lemma hex_to_32_Inr: "hex_to_32 E h = Inr b \<longleftrightarrow> hex_decode E h = Some b \<and> length b = 32"
  by (auto simp: hex_to_32_def rbind_Inr_iff)

lemma hex_to_33_Inr: "hex_to_33 E h = Inr b \<longleftrightarrow> hex_decode E h = Some b \<and> length b = 33"
  by (auto simp: hex_to_33_def rbind_Inr_iff)

lemma collect_hex_to_33:
  "env_hex_laws E \<Longrightarrow> \<forall>c\<in>set xs. length c = 33 \<Longrightarrow> collect_res (hex_to_33 E) (map (hex_encode E) xs) = Inr xs"
  by (induction xs) simp_all

lemma set_id_bytes_low [simp]: "u64_of_le (take 8 (set_id_bytes i)) = i"
  by (simp add: set_id_bytes_def)

lemma length_set_id_bytes [simp]: "length (set_id_bytes i) = 32"
  by (simp add: set_id_bytes_def)

text \<open>The credentials the Rust types can hold.\<close>

definition credential_ok :: "credential \<Rightarrow> bool" where
  "credential_ok c \<longleftrightarrow> length (mc_phi c) = 33 \<and> length (mc_sk c) = 32 \<and> length (mc_r c) = 32 \<and>
     length (mc_k c) = 32 \<and> length (mc_friendly_name c) \<le> 255"

lemma to_credential_Inr:
  "to_credential E j = Inr c \<longleftrightarrow>
     hex_decode E (cj_phi j) = Some (mc_phi c) \<and> hex_decode E (cj_sk j) = Some (mc_sk c) \<and>
     hex_decode E (cj_r j) = Some (mc_r c) \<and> hex_decode E (cj_k j) = Some (mc_k c) \<and>
     cj_friendly_name j = mc_friendly_name c \<and> credential_ok c"
  by (cases c) (auto simp: to_credential_def rbind_Inr_iff hex_to_32_Inr hex_to_33_Inr credential_ok_def)

lemma credential_round: "env_hex_laws E \<Longrightarrow> credential_ok c \<Longrightarrow> to_credential E (from_credential E c) = Inr c"
  by (simp add: to_credential_Inr from_credential_def)

lemma parse_crs_wire:
  "codec_laws B \<Longrightarrow> env_hex_laws E \<Longrightarrow> wf_crs c \<Longrightarrow> parse_crs_hex B E (hex_encode E (crs_to_bytes B c)) = Inr (wire_crs c)"
  using crs_round_trip_raw [of B c "[]"] by (simp add: parse_crs_hex_def)

lemma create_registration_typed:
  fixes B :: "('s::field, 'p::ab_group_add) backend"
  assumes "codec_laws B" "digest_laws B"
    and "create_payment_registration B rng b crs l = Inr (b', reg)"
  shows "wf_proof (bk_M B) (pr_proof reg) \<and> length (pr_pseudonym reg) = 33 \<and> length (pr_public_nullifier reg) = 33"
proof -
  obtain xs i d nul p where nul: "public_nullifier B (bn_credential b) crs l = Inr nul"
    and prove: "prove_payment_identity_registration B rng crs xs i l d (mc_k (bn_credential b))
        (all_nullifier_scalars B (bn_credential b) crs) (pr_pseudonym reg) nul
        (to_scalar_bytes B (mc_friendly_name (bn_credential b))) = Inr p"
    and reg: "pr_proof reg = p" "pr_public_nullifier reg = nul"
      "pr_pseudonym reg = derive_payment_request_pseudonym B (mc_r (bn_credential b)) (m_name (crs_merchants crs ! (l - 1))) (crs_g crs)"
    using assms(3) by (auto simp: create_payment_registration_def Let_def rbind_Inr_iff split: if_splits)
  have "\<forall>n\<in>set (all_nullifier_scalars B (bn_credential b) crs). length n = 32"
    using assms(2) by (auto simp: all_nullifier_scalars_def derive_all_nullifiers_def derive_nullifier_def)
  moreover have "length (to_scalar_bytes B (mc_friendly_name (bn_credential b))) = 32"
    using assms(2) by (simp add: to_scalar_bytes_def)
  ultimately have "wf_proof (bk_M B) p"
    using prove_wf_proof [OF assms(1) _ _ prove] by blast
  moreover have "length nul = 33"
    using nul assms(1) by (auto simp: public_nullifier_def derive_public_nullifier_def Let_def split: if_splits)
  ultimately show ?thesis
    using assms(1) by (simp add: reg derive_payment_request_pseudonym_def Let_def)
qed

lemma parse_registration_encoded:
  assumes "env_hex_laws E" "wf_proof (bk_M B) (pr_proof reg)" "length (pr_pseudonym reg) = 33"
    "length (pr_public_nullifier reg) = 33" "pr_set_id reg = set_id_bytes i"
    "ri_proof_hex p = hex_encode E (serialize_payment_identity_registration_proof (pr_proof reg))"
    "ri_pseudonym_hex p = hex_encode E (pr_pseudonym reg)" "ri_nullifier_hex p = hex_encode E (pr_public_nullifier reg)"
    "ri_set_id p = i" "ri_service_index p = pr_service_index reg" "ri_friendly_name p = pr_friendly_name reg"
  shows "parse_registration B E p = Inr reg"
  using assms by (cases reg) (simp add: parse_registration_def deserialize_serialize)

text \<open>What is accepted by \<open>receive-payment-id\<close>.\<close>

lemma handle_receive_Inr:
  "handle_receive_payment_id B E p = Inr out \<longleftrightarrow>
     (\<exists>crs xs reg. parse_crs_hex B E (ri_crs_hex p) = Inr crs \<and>
        collect_res (hex_to_33 E) (ri_commitments_hex p) = Inr xs \<and> parse_registration B E p = Inr reg \<and>
        length (ri_merchant_name p) \<le> 255 \<and>
        verify_payment_identity_registration B crs xs reg = Inr True \<and>
        out = ReceivePaymentIdResponse (hex_encode E (pr_pseudonym reg)))"
  by (auto simp: handle_receive_payment_id_def rbind_Inr_iff receive_Inr_iff)

section \<open>The protocol through the commands\<close>

text \<open>The merchants of \<open>build-crs\<close> are strings, so UTF-8; their origins fit the 16-bit length.\<close>

definition build_params_ok :: "build_crs_params \<Rightarrow> bool" where
  "build_params_ok p \<longleftrightarrow>
     (\<forall>m\<in>set (bp_merchants p). utf8_valid (bc_name m) \<and> utf8_valid (bc_origin m) \<and> length (bc_origin m) < 2 ^ 16) \<and>
     length (bp_merchants p) < 2 ^ 32 \<and> bp_set_size p < 2 ^ 32"

lemma handle_build_crs_hex:
  fixes B :: "('s::field, 'p::ab_group_add) backend"
  assumes "codec_laws B" "env_hex_laws E" "build_params_ok p"
    and "handle_build_crs B E p = Inr (BuildCrsResponse crs_hex)"
  shows "\<exists>crs. parse_crs_hex B E crs_hex = Inr crs \<and> wf_generators crs \<and>
    num_merchants crs = length (bp_merchants p)"
proof -
  obtain ms where ms: "collect_res (\<lambda>m. merchant_new B (bc_name m) (bc_origin m)) (bp_merchants p) = Inr ms"
    and hex: "crs_hex = hex_encode E (crs_to_bytes B (crs_setup B ms (bp_set_size p)))"
    using assms(4) by (auto simp: handle_build_crs_def rbind_Inr_iff Let_def)
  have len: "length ms = length (bp_merchants p)"
    using ms by (rule collect_res_length)
  have "fields_ok (merchant_fields m)" if mem: "m \<in> set ms" for m
  proof -
    obtain b where "b \<in> set (bp_merchants p)" "merchant_new B (bc_name b) (bc_origin b) = Inr m"
      using collect_res_source [OF ms mem] by blast
    then show ?thesis
      using assms(1,3) by (auto simp: build_params_ok_def fields_ok_def merchant_fields_def)
  qed
  then have "wf_crs (crs_setup B ms (bp_set_size p))"
    using assms(3) by (simp add: wf_crs_def build_params_ok_def len)
  then have "parse_crs_hex B E crs_hex = Inr (wire_crs (crs_setup B ms (bp_set_size p)))"
    using parse_crs_wire [OF assms(1,2)] by (simp add: hex)
  moreover have "wf_generators (wire_crs (crs_setup B ms (bp_set_size p)))"
    by (simp add: wf_generators_def wire_crs_def num_merchants_def)
  moreover have "num_merchants (wire_crs (crs_setup B ms (bp_set_size p))) = length (bp_merchants p)"
    by (simp add: wire_crs_def num_merchants_def len)
  ultimately show ?thesis by blast
qed

lemma new_credential_ok:
  assumes "codec_laws B" "\<And>i. length (rng i) = 32" "wf_generators crs" "beneficiary_new B rng crs fname = Inr b"
  shows "credential_ok (bn_credential b)" and "bn_registrations b = Map.empty"
  using assms by (auto simp: beneficiary_new_Inr credential_ok_def credential_create_wf wf_generators_def)

lemma handle_create_credential_Inr:
  fixes B :: "('s::field, 'p::ab_group_add) backend"
  assumes "codec_laws B" and draws: "\<And>i. length (rng i) = 32"
    and crs: "parse_crs_hex B E crs_hex = Inr crs" "wf_generators crs"
    and out: "handle_create_credential B E rng \<lparr>cc_crs_hex = crs_hex, cc_name = fname\<rparr> = Inr (CreateCredentialResponse c)"
  obtains b where "beneficiary_new B rng crs fname = Inr b" "c = from_credential E (bn_credential b)"
    "credential_ok (bn_credential b)" "bn_registrations b = Map.empty"
proof -
  obtain b where b: "beneficiary_new B rng crs fname = Inr b" "c = from_credential E (bn_credential b)"
    using out crs(1) by (auto simp: handle_create_credential_def rbind_Inr_iff)
  then show ?thesis
    using that new_credential_ok [OF assms(1) draws crs(2) b(1)] by blast
qed

lemma helper_phases:
  fixes B :: "('s::field, 'p::ab_group_add) backend"
  assumes laws: "mul_laws B" "codec_laws B" "digest_laws B" "env_hex_laws E" and draws: "\<forall>i. length (rng i) = 32"
    and build: "build_params_ok bp" "handle_build_crs B E bp = Inr (BuildCrsResponse crs_hex)"
    and cred: "handle_create_credential B E rng \<lparr>cc_crs_hex = crs_hex, cc_name = fname\<rparr> = Inr (CreateCredentialResponse c)"
    and set: "length xs = N_of B" "all_decode B xs" "\<forall>x\<in>set xs. length x = 33" "cj_phi c \<in> set (map (hex_encode E) xs)"
    and l: "1 \<le> l" "l \<le> length (bp_merchants bp)" and name: "length mname \<le> 255"
  shows "\<exists>i out.
     handle_register_locally E \<lparr>rl_credential = c, rl_commitments_hex = map (hex_encode E) xs\<rparr> =
       Inr (RegisterLocallyResponse i) \<and>
     handle_create_payment_id B E rng' \<lparr>ci_credential = c, ci_crs_hex = crs_hex,
       ci_commitments_hex = map (hex_encode E) xs, ci_index = i, ci_set_id = sid, ci_merchant_id = l\<rparr> =
       Inr (CreatePaymentIdResponse out) \<and>
     cp_set_id out = sid \<and> cp_service_index out = l \<and> cp_friendly_name out = fname \<and>
     handle_receive_payment_id B E \<lparr>ri_crs_hex = crs_hex, ri_commitments_hex = map (hex_encode E) xs,
       ri_pseudonym_hex = cp_pseudonym out, ri_nullifier_hex = cp_nullifier out, ri_set_id = cp_set_id out,
       ri_service_index = cp_service_index out, ri_friendly_name = cp_friendly_name out,
       ri_proof_hex = cp_proof_hex out, ri_merchant_name = mname, ri_merchant_origin = origin\<rparr> =
       Inr (ReceivePaymentIdResponse (cp_pseudonym out))"
proof -
  obtain crs where crs: "parse_crs_hex B E crs_hex = Inr crs" "wf_generators crs" "num_merchants crs = length (bp_merchants bp)"
    using handle_build_crs_hex [OF laws(2,4) build] by blast
  obtain b where b: "beneficiary_new B rng crs fname = Inr b" "c = from_credential E (bn_credential b)"
      "credential_ok (bn_credential b)" "bn_registrations b = Map.empty"
    using handle_create_credential_Inr [OF laws(2) _ crs(1,2) cred] draws by blast
  have phi: "mc_phi (bn_credential b) \<in> set xs"
    using set(4) laws(4) by (auto simp: b(2) from_credential_def env_hex_laws_def hex_laws_def dest: arg_cong [where f = "hex_decode E"])
  obtain b' b'' reg where phases: "beneficiary_register b (set_id_bytes sid) xs = Inr b'"
      "create_payment_registration B rng' b' crs l = Inr (b'', reg)"
    and verified: "verify_payment_identity_registration B crs xs reg = Inr True"
    and reg: "pr_friendly_name reg = fname" "pr_set_id reg = set_id_bytes sid" "pr_service_index reg = l"
    using honest_phases [OF laws(1,2) crs(2) b(1) set(1,2) phi, of l] l crs(3) by metis
  obtain i where i: "position (\<lambda>c. c = mc_phi (bn_credential b)) xs = Some i"
    and b': "b' = \<lparr>bn_credential = bn_credential b, bn_set_id = Some (set_id_bytes sid), bn_index = Some i,
      bn_anonymity_set = Some xs, bn_registrations = Map.empty\<rparr>"
    using phases(1) b(4) by (auto simp: beneficiary_register_def rbind_Inr_iff)
  define out where "out = \<lparr>cp_pseudonym = hex_encode E (pr_pseudonym reg), cp_nullifier = hex_encode E (pr_public_nullifier reg),
    cp_proof_hex = hex_encode E (serialize_payment_identity_registration_proof (pr_proof reg)),
    cp_friendly_name = fname, cp_service_index = l, cp_set_id = sid\<rparr>"
  have hexes: "collect_res (hex_to_33 E) (map (hex_encode E) xs) = Inr xs"
    by (rule collect_hex_to_33 [OF laws(4) set(3)])
  have to_cred: "to_credential E c = Inr (bn_credential b)"
    using credential_round [OF laws(4) b(3)] by (simp add: b(2))
  note typed = create_registration_typed [OF laws(2,3) phases(2)]
  show ?thesis
  proof (intro exI conjI)
    show "handle_register_locally E \<lparr>rl_credential = c, rl_commitments_hex = map (hex_encode E) xs\<rparr> = Inr (RegisterLocallyResponse i)"
      by (simp add: handle_register_locally_def to_cred hexes i)
    show "handle_create_payment_id B E rng' \<lparr>ci_credential = c, ci_crs_hex = crs_hex,
       ci_commitments_hex = map (hex_encode E) xs, ci_index = i, ci_set_id = sid, ci_merchant_id = l\<rparr> =
       Inr (CreatePaymentIdResponse out)"
      using phases(2) by (simp add: handle_create_payment_id_def to_cred hexes crs(1) b' out_def reg)
    show "handle_receive_payment_id B E \<lparr>ri_crs_hex = crs_hex, ri_commitments_hex = map (hex_encode E) xs,
       ri_pseudonym_hex = cp_pseudonym out, ri_nullifier_hex = cp_nullifier out, ri_set_id = cp_set_id out,
       ri_service_index = cp_service_index out, ri_friendly_name = cp_friendly_name out,
       ri_proof_hex = cp_proof_hex out, ri_merchant_name = mname, ri_merchant_origin = origin\<rparr> =
       Inr (ReceivePaymentIdResponse (cp_pseudonym out))"
      unfolding handle_receive_Inr
      by (intro exI [of _ crs] exI [of _ xs] exI [of _ reg] conjI parse_registration_encoded [where i = sid])
        (use laws(4) typed crs hexes name verified reg in \<open>simp_all add: out_def\<close>)
  qed (simp_all add: out_def)
qed

text \<open>C16. The protocol through the helper. From the reference string that \<open>build-crs\<close> prints, a
  credential of \<open>create-credential\<close> whose commitment stands in the full, decodable set is found by
  \<open>register-locally\<close>; at the index found, \<open>create-payment-id\<close> makes a registration for any merchant,
  echoing the 64-bit set id, and \<open>receive-payment-id\<close> accepts exactly the strings it printed and
  answers the same pseudonym.\<close>

theorem helper_serves_protocol:
  fixes B :: "('s::field, 'p::ab_group_add) backend"
  assumes laws: "mul_laws B" "codec_laws B" "digest_laws B" "env_hex_laws E" and draws: "\<forall>i. length (rng i) = 32"
    and build: "build_params_ok bp" "handle_build_crs B E bp = Inr (BuildCrsResponse crs_hex)"
    and cred: "handle_create_credential B E rng \<lparr>cc_crs_hex = crs_hex, cc_name = fname\<rparr> = Inr (CreateCredentialResponse c)"
    and set: "length xs = N_of B" "all_decode B xs" "\<forall>x\<in>set xs. length x = 33" "cj_phi c \<in> set (map (hex_encode E) xs)"
    and l: "1 \<le> l" "l \<le> length (bp_merchants bp)" and name: "length mname \<le> 255"
  shows "\<exists>i out.
     handle_register_locally E \<lparr>rl_credential = c, rl_commitments_hex = map (hex_encode E) xs\<rparr> =
       Inr (RegisterLocallyResponse i) \<and>
     handle_create_payment_id B E rng' \<lparr>ci_credential = c, ci_crs_hex = crs_hex,
       ci_commitments_hex = map (hex_encode E) xs, ci_index = i, ci_set_id = sid, ci_merchant_id = l\<rparr> =
       Inr (CreatePaymentIdResponse out) \<and>
     cp_set_id out = sid \<and> cp_service_index out = l \<and> cp_friendly_name out = fname \<and>
     handle_receive_payment_id B E \<lparr>ri_crs_hex = crs_hex, ri_commitments_hex = map (hex_encode E) xs,
       ri_pseudonym_hex = cp_pseudonym out, ri_nullifier_hex = cp_nullifier out, ri_set_id = cp_set_id out,
       ri_service_index = cp_service_index out, ri_friendly_name = cp_friendly_name out,
       ri_proof_hex = cp_proof_hex out, ri_merchant_name = mname, ri_merchant_origin = origin\<rparr> =
       Inr (ReceivePaymentIdResponse (cp_pseudonym out))"
  by (rule helper_phases [OF laws draws build cred set l name])

definition sample_env :: "(unit, bytes, bytes, bytes) env" where
  "sample_env =
     \<lparr>hex_encode = sample_hex, hex_decode = sample_unhex,
      json_command = (\<lambda>s. Some \<lparr>cmd_name = s, cmd_params = ()\<rparr>),
      to_build_crs = (\<lambda>_. None), to_create_credential = (\<lambda>_. None), to_register_locally = (\<lambda>_. None),
      to_create_payment_id = (\<lambda>_. None), to_receive_payment_id = (\<lambda>_. None),
      to_create_payment_request = (\<lambda>_. None), to_verify_payment_request = (\<lambda>_. None),
      to_pseudonym_to_address = (\<lambda>_. None), key_from_slice = Inr, key_x_only = tl,
      p2tr_regtest = (\<lambda>k _. k), address_to_string = sample_hex\<rparr>"

lemma sample_env_laws: "env_hex_laws sample_env"
  by (simp add: env_hex_laws_def sample_env_def sample_hex_laws)

definition sample_build :: build_crs_params where
  "sample_build = \<lparr>bp_merchants = [\<lparr>bc_name = ascii ''a'', bc_origin = ascii ''o''\<rparr>,
     \<lparr>bc_name = ascii ''b'', bc_origin = ascii ''o''\<rparr>], bp_set_size = 4\<rparr>"

lemma sample_build_ok: "build_params_ok sample_build"
  by (simp add: build_params_ok_def sample_build_def ascii_def byte_in_def)

lemma sample_build_crs: "\<exists>crs_hex. handle_build_crs sample sample_env sample_build = Inr (BuildCrsResponse crs_hex)"
  by (simp add: handle_build_crs_def sample_build_def merchant_new_def Let_def ascii_def name_new_def
      name_try_new_def NAME_MAX_LEN_def)

text \<open>A world of the helper for the witnesses: the reference string, a credential, a set.\<close>

lemma sample_helper_world:
  obtains crs_hex c phi where
    "handle_build_crs sample sample_env sample_build = Inr (BuildCrsResponse crs_hex)"
    "handle_create_credential sample sample_env sample_rng \<lparr>cc_crs_hex = crs_hex, cc_name = ascii ''alice''\<rparr> =
       Inr (CreateCredentialResponse c)"
    "all_decode sample (replicate 4 phi)" "length phi = 33" "cj_phi c = hex_encode sample_env phi"
proof -
  obtain crs_hex where build: "handle_build_crs sample sample_env sample_build = Inr (BuildCrsResponse crs_hex)"
    using sample_build_crs by blast
  obtain crs where crs: "parse_crs_hex sample sample_env crs_hex = Inr crs" "wf_generators crs"
    using handle_build_crs_hex [OF sample_codec_laws sample_env_laws sample_build_ok build] by blast
  obtain b where new: "beneficiary_new sample sample_rng crs (ascii ''alice'') = Inr b"
    by (rule beneficiary_new_total [OF crs(2), of "ascii ''alice''"]) simp
  define c where "c = from_credential sample_env (bn_credential b)"
  define phi where "phi = mc_phi (bn_credential b)"
  have phi: "phi = point_to_bytes sample (credential_point sample crs (bn_credential b))"
    using beneficiary_new_credential [OF crs(2) new] by (simp add: phi_def)
  show ?thesis
  proof (rule that [OF build])
    show "handle_create_credential sample sample_env sample_rng \<lparr>cc_crs_hex = crs_hex, cc_name = ascii ''alice''\<rparr> =
       Inr (CreateCredentialResponse c)"
      by (simp add: handle_create_credential_def crs new c_def)
    show "all_decode sample (replicate 4 phi)" "length phi = 33"
      by (simp_all add: all_decode_def list_all_iff phi sample_codec_laws)
    show "cj_phi c = hex_encode sample_env phi"
      by (simp add: c_def from_credential_def phi_def)
  qed
qed

theorem helper_serves_protocol_witness:
  "\<exists>crs_hex c xs i out.
     handle_build_crs sample sample_env sample_build = Inr (BuildCrsResponse crs_hex) \<and>
     handle_create_payment_id sample sample_env sample_rng \<lparr>ci_credential = c, ci_crs_hex = crs_hex,
       ci_commitments_hex = xs, ci_index = i, ci_set_id = 7, ci_merchant_id = 2\<rparr> =
       Inr (CreatePaymentIdResponse out) \<and> cp_set_id out = 7 \<and>
     handle_receive_payment_id sample sample_env \<lparr>ri_crs_hex = crs_hex, ri_commitments_hex = xs,
       ri_pseudonym_hex = cp_pseudonym out, ri_nullifier_hex = cp_nullifier out, ri_set_id = cp_set_id out,
       ri_service_index = cp_service_index out, ri_friendly_name = cp_friendly_name out,
       ri_proof_hex = cp_proof_hex out, ri_merchant_name = ascii ''b'', ri_merchant_origin = ascii ''o''\<rparr> =
       Inr (ReceivePaymentIdResponse (cp_pseudonym out))"
proof -
  obtain crs_hex c phi where w: "handle_build_crs sample sample_env sample_build = Inr (BuildCrsResponse crs_hex)"
    "handle_create_credential sample sample_env sample_rng \<lparr>cc_crs_hex = crs_hex, cc_name = ascii ''alice''\<rparr> =
       Inr (CreateCredentialResponse c)"
    "all_decode sample (replicate 4 phi)" "length phi = 33" "cj_phi c = hex_encode sample_env phi"
    by (rule sample_helper_world)
  have hyps: "length (replicate 4 phi) = N_of sample" "\<forall>x\<in>set (replicate 4 phi). length x = 33"
    "cj_phi c \<in> set (map (hex_encode sample_env) (replicate 4 phi))" "\<forall>i. length (sample_rng i) = 32"
    "1 \<le> (2::nat)" "2 \<le> length (bp_merchants sample_build)" "length (ascii ''b'') \<le> 255"
    using w(4,5) by (simp_all add: sample_rng_def sample_build_def)
  show ?thesis
    using helper_serves_protocol [OF sample_laws sample_env_laws hyps(4) sample_build_ok w(1,2) hyps(1) w(3) hyps(2,3,5,6,7),
        of sample_rng 7 "ascii ''o''"] w(1) by blast
qed

section \<open>Credentials as JSON\<close>

text \<open>A credential survives the trip through the web interface exactly when the Rust types can
  hold it, and whatever strings \<open>to_credential\<close> accepts, printing the result and reading it again
  gives the same credential.\<close>

theorem credential_json_round_trip:
  assumes "env_hex_laws E"
  shows "(to_credential E (from_credential E c) = Inr c \<longleftrightarrow> credential_ok c) \<and>
    (\<forall>d. to_credential E j = Inr d \<longrightarrow> to_credential E (from_credential E d) = Inr d)"
  using assms by (auto simp: to_credential_Inr from_credential_def)

theorem credential_json_round_trip_witness:
  "to_credential sample_env (from_credential sample_env (bn_credential sample_beneficiary)) =
     Inr (bn_credential sample_beneficiary)"
proof -
  have "credential_ok (bn_credential sample_beneficiary)"
    by (rule new_credential_ok [OF sample_codec_laws _ sample_wf_generators sample_beneficiary_new])
      (simp add: sample_rng_def)
  then show ?thesis
    using credential_json_round_trip [OF sample_env_laws] by blast
qed

section \<open>Payment requests\<close>

text \<open>C21. Paying through the helper. The request that \<open>create-payment-request\<close> prints is found
  valid by \<open>verify-payment-request\<close>, together with the address that \<open>pseudonym-to-address\<close> gives for
  the same pseudonym; the amount is echoed, and no part of what is verified depends on it.\<close>

theorem helper_request_verifies:
  fixes B :: "('s::field, 'p::ab_group_add) backend"
  assumes laws: "mul_laws B" "codec_laws B" "env_hex_laws E" and ascii: "\<forall>b. ascii_only (hex_encode E b)"
    and create: "handle_create_payment_request B E rng p = Inr (CreatePaymentRequestResponse out)"
    and addr: "handle_pseudonym_to_address E \<lparr>pa_pseudonym_hex = qr_pseudonym out\<rparr> = Inr (PseudonymToAddressResponse a)"
  shows "handle_verify_payment_request B E \<lparr>vq_crs_g_hex = pq_crs_g_hex p, vq_pseudonym_hex = qr_pseudonym out,
       vq_proof_r_hex = qr_proof_r out, vq_proof_s_hex = qr_proof_s out\<rparr> = Inr (VerifyPaymentRequestResponse True a) \<and>
     qr_amount out = pq_amount p \<and>
     handle_create_payment_request B E rng (p\<lparr>pq_amount := amount\<rparr>) =
       Inr (CreatePaymentRequestResponse (out\<lparr>qr_amount := amount\<rparr>))"
proof -
  obtain r g_bytes g where parsed: "hex_to_32 E (pq_credential_r_hex p) = Inr r" "name_new (pq_merchant_name p) = Inr (pq_merchant_name p)"
      "hex_to_33 E (pq_crs_g_hex p) = Inr g_bytes" "point_from_bytes B g_bytes = Some g"
    using create by (auto simp: handle_create_payment_request_def rbind_Inr_iff)
  define req where "req = create_payment_request B rng r (pq_merchant_name p) g (pq_amount p)"
  have out: "out = \<lparr>qr_pseudonym = hex_encode E (rq_pseudonym req), qr_proof_r = hex_encode E (rq_r (rq_proof req)),
      qr_proof_s = hex_encode E (rq_s (rq_proof req)), qr_amount = pq_amount p\<rparr>"
    using create parsed
    by (simp add: handle_create_payment_request_def req_def create_payment_request_def Let_def del: name_new_Inr)
  have sizes: "length (rq_pseudonym req) = 33" "length (rq_r (rq_proof req)) = 33" "length (rq_s (rq_proof req)) = 32"
    using laws(2) by (simp_all add: req_def create_payment_request_def Let_def derive_payment_request_pseudonym_def
        prove_payment_request_def)
  have eta: "\<lparr>rq_r = rq_r x, rq_s = rq_s x\<rparr> = x" for x :: payment_request_proof
    by simp
  have valid: "verify_payment_request B g (rq_pseudonym req) \<lparr>rq_r = rq_r (rq_proof req), rq_s = rq_s (rq_proof req)\<rparr>"
    using honest_request_verifies [OF laws(1,2), of g rng r "pq_merchant_name p" "pq_amount p"] unfolding eta req_def .
  have log: "log_pseudonym (qr_pseudonym out) = Inr (take (min 16 (length (qr_pseudonym out))) (qr_pseudonym out))"
    using ascii by (simp add: log_pseudonym_def str_prefix_ascii out)
  have address: "rbind (pseudonym_to_address (key_from_slice E) (key_x_only E) (p2tr_regtest E) (rq_pseudonym req) ())
      (\<lambda>address. Inr (f (address_to_string E address))) = Inr (f a)" for f :: "str \<Rightarrow> core_response"
    using addr log sizes(1) laws(3) by (auto simp: handle_pseudonym_to_address_def rbind_Inr_iff out)
  have "handle_verify_payment_request B E \<lparr>vq_crs_g_hex = pq_crs_g_hex p, vq_pseudonym_hex = qr_pseudonym out,
       vq_proof_r_hex = qr_proof_r out, vq_proof_s_hex = qr_proof_s out\<rparr> = Inr (VerifyPaymentRequestResponse True a)"
    using log address [of "VerifyPaymentRequestResponse True"] parsed(3,4) sizes laws(3) valid
    by (simp add: handle_verify_payment_request_def Let_def out)
  moreover have "handle_create_payment_request B E rng (p\<lparr>pq_amount := amount\<rparr>) =
       Inr (CreatePaymentRequestResponse (out\<lparr>qr_amount := amount\<rparr>))"
    using parsed by (simp add: handle_create_payment_request_def out req_def create_payment_request_def Let_def del: name_new_Inr)
  ultimately show ?thesis by (simp add: out)
qed

definition sample_request_params :: create_payment_request_params where
  "sample_request_params = \<lparr>pq_credential_r_hex = sample_hex (sample_key 5), pq_merchant_name = ascii ''a'',
     pq_crs_g_hex = sample_hex (point_to_bytes sample (crs_g sample_crs)), pq_amount = 100\<rparr>"

theorem helper_request_verifies_witness:
  "\<exists>out a. handle_create_payment_request sample sample_env sample_rng sample_request_params =
       Inr (CreatePaymentRequestResponse out) \<and>
     handle_verify_payment_request sample sample_env
       \<lparr>vq_crs_g_hex = pq_crs_g_hex sample_request_params, vq_pseudonym_hex = qr_pseudonym out,
        vq_proof_r_hex = qr_proof_r out, vq_proof_s_hex = qr_proof_s out\<rparr> =
       Inr (VerifyPaymentRequestResponse True a)"
proof -
  have ascii: "\<forall>b. ascii_only (hex_encode sample_env b)"
    using sample_hex_ascii by (auto simp: ascii_only_def list_all_iff sample_env_def)
  have hex: "hex_to_32 sample_env (sample_hex (sample_key 5)) = Inr (sample_key 5)"
    "hex_to_33 sample_env (sample_hex (point_to_bytes sample g)) = Inr (point_to_bytes sample g)" for g
    using hex_to_32_encode [OF sample_env_laws, of "sample_key 5"]
      hex_to_33_encode [OF sample_env_laws, of "point_to_bytes sample g"]
    by (simp_all add: sample_env_def sample_codec_laws)
  have name: "name_new (ascii ''a'') = Inr (ascii ''a'')"
    by simp
  obtain out where out: "handle_create_payment_request sample sample_env sample_rng sample_request_params =
       Inr (CreatePaymentRequestResponse out)" and ps: "\<exists>b. length b = 33 \<and> qr_pseudonym out = hex_encode sample_env b"
    by (simp add: handle_create_payment_request_def sample_request_params_def hex name sample_codec_laws
        create_payment_request_def derive_payment_request_pseudonym_def Let_def del: name_new_Inr)
      (metis sample_codec_laws length_to_bytes)
  obtain a where "handle_pseudonym_to_address sample_env \<lparr>pa_pseudonym_hex = qr_pseudonym out\<rparr> =
      Inr (PseudonymToAddressResponse a)"
    using ps ascii sample_env_laws
    by (auto simp: handle_pseudonym_to_address_def log_pseudonym_def str_prefix_ascii pseudonym_to_address_def)
      (simp add: sample_env_def)
  then show ?thesis
    using helper_request_verifies [OF sample_mul_laws sample_codec_laws sample_env_laws ascii out] out by blast
qed

section \<open>The daemon\<close>

lemma core_daemon_lines:
  "core_daemon B E rngs write_ok k (map Inr ls @ rest) =
     (let todo = enumerate k (filter (\<lambda>l. \<not> blank l) ls); served = takeWhile (\<lambda>(i, _). write_ok i) todo in
      map (\<lambda>(i, l). core_answer B E (rngs i) l) served @
        (if served = todo then core_daemon B E rngs write_ok (k + length todo) rest else []))"
  by (induction ls arbitrary: k) (simp_all add: Let_def)

lemma core_dispatch_receive:
  "cmd_name cmd = ascii ''receive-payment-id'' \<Longrightarrow> core_dispatch B E rng cmd =
     with_params (to_receive_payment_id E) (handle_receive_payment_id B E) (cmd_params cmd)"
  by (simp add: core_dispatch_def ascii_def)

text \<open>The daemon refines a function from lines to answers. On the text of any list of lines, it
  writes the answers of the non-blank lines in their order, each depending on its own line and its
  own random bytes only, up to the first answer that cannot be written; no command, not even one
  that panics, ends it. A line that is not UTF-8 does end it: nothing after it is answered.\<close>

theorem daemon_refines_answers:
  assumes "ascii ''--daemon'' \<in> set args" and "\<forall>l\<in>set ls. 10 \<notin> set l \<and> 13 \<notin> set l \<and> utf8_valid l"
    and "10 \<notin> set bad" "13 \<notin> set bad" "\<not> utf8_valid bad"
  shows "core_main B E rngs write_ok args (concat (map (\<lambda>l. l @ [10]) ls)) =
      map (\<lambda>(i, l). core_answer B E (rngs i) l)
        (takeWhile (\<lambda>(i, _). write_ok i) (enumerate 0 (filter (\<lambda>l. \<not> blank l) ls))) \<and>
    core_main B E rngs write_ok args (concat (map (\<lambda>l. l @ [10]) ls) @ bad @ 10 # suffix) =
      core_main B E rngs write_ok args (concat (map (\<lambda>l. l @ [10]) ls))"
proof -
  have lines: "stdin_lines (concat (map (\<lambda>l. l @ [10]) ls) @ rest) = map Inr ls @ stdin_lines rest" for rest
    using assms(2) by (rule stdin_lines_append)
  have none: "stdin_lines [] = []"
    by (simp add: stdin_lines_def)
  have error: "\<exists>e r. stdin_lines (bad @ 10 # suffix) = Inl e # r"
    using assms(3-5) by (simp add: stdin_lines_def split_lines_line strip_cr_id from_utf8_def)
  have main: "core_main B E rngs write_ok args input = core_daemon B E rngs write_ok 0 (stdin_lines input)" for input
    using assms(1) by (auto simp: core_main_def)
  obtain e r where bad: "stdin_lines (bad @ 10 # suffix) = Inl e # r"
    using error by blast
  have all: "stdin_lines (concat (map (\<lambda>l. l @ [10]) ls)) = map Inr ls @ []"
    using lines [of "[]"] none by simp
  show ?thesis
    unfolding main lines bad all core_daemon_lines by (simp add: Let_def)
qed

theorem daemon_refines_answers_witness:
  "core_main sample sample_env (\<lambda>_. sample_rng) (\<lambda>_. True) [ascii ''--daemon'']
     (concat (map (\<lambda>l. l @ [10]) [ascii ''ping'', [32], ascii ''nonsense''])) =
     [StatusOk, ErrorResponse ''unknown command'']"
proof -
  have "core_main sample sample_env (\<lambda>_. sample_rng) (\<lambda>_. True) [ascii ''--daemon'']
     (concat (map (\<lambda>l. l @ [10]) [ascii ''ping'', [32], ascii ''nonsense''])) =
     map (\<lambda>(i, l). core_answer sample sample_env sample_rng l)
        (takeWhile (\<lambda>(i, _). True) (enumerate 0 (filter (\<lambda>l. \<not> blank l) [ascii ''ping'', [32], ascii ''nonsense''])))"
    by (rule conjunct1 [OF daemon_refines_answers [of _ _ "[200]"]]) (simp_all add: ascii_def byte_in_def)
  also have "\<dots> = [StatusOk, ErrorResponse ''unknown command'']"
    by (simp add: ascii_def byte_in_def core_answer_def sample_env_def core_dispatch_def)
  finally show ?thesis .
qed

text \<open>The helper has no memory of registrations. A line that \<open>receive-payment-id\<close> accepts is
  accepted as often as it is sent, since each command makes a new merchant; a merchant that
  kept its book would answer the second one with \<open>pseudonym already registered\<close>.\<close>

theorem helper_accepts_replay:
  assumes "json_command E line = Some cmd" "cmd_name cmd = ascii ''receive-payment-id''" "\<not> blank line"
    and "to_receive_payment_id E (cmd_params cmd) = Some p" and "handle_receive_payment_id B E p = Inr out"
  shows "core_daemon B E rngs (\<lambda>_. True) k (replicate n (Inr line)) = replicate n out \<and>
    (\<exists>crs xs reg m m'. parse_crs_hex B E (ri_crs_hex p) = Inr crs \<and>
       collect_res (hex_to_33 E) (ri_commitments_hex p) = Inr xs \<and> parse_registration B E p = Inr reg \<and>
       merchant_new B (ri_merchant_name p) (ri_merchant_origin p) = Inr m \<and>
       receive_payment_registration B crs xs m reg = Inr (m', pr_pseudonym reg) \<and>
       receive_payment_registration B crs xs m' reg = Inl (Err ''pseudonym already registered''))"
proof -
  have "core_answer B E rng line = out" for rng
    using assms by (simp add: core_answer_def core_dispatch_receive with_params_def)
  then have "core_daemon B E rngs (\<lambda>_. True) k (replicate n (Inr line)) = replicate n out"
    using assms(3) by (induction n arbitrary: k) simp_all
  moreover obtain crs xs reg where "parse_crs_hex B E (ri_crs_hex p) = Inr crs"
      "collect_res (hex_to_33 E) (ri_commitments_hex p) = Inr xs" "parse_registration B E p = Inr reg"
      "length (ri_merchant_name p) \<le> 255" "verify_payment_identity_registration B crs xs reg = Inr True"
    using assms(5) by (auto simp: handle_receive_Inr)
  ultimately show ?thesis
    by (auto simp: receive_Inr_iff) (simp add: receive_payment_registration_def)
qed

lemma sample_received:
  obtains p out where "handle_receive_payment_id sample sample_env p = Inr out"
proof -
  obtain crs_hex c phi where w: "handle_build_crs sample sample_env sample_build = Inr (BuildCrsResponse crs_hex)"
    "handle_create_credential sample sample_env sample_rng \<lparr>cc_crs_hex = crs_hex, cc_name = ascii ''alice''\<rparr> =
       Inr (CreateCredentialResponse c)"
    "all_decode sample (replicate 4 phi)" "length phi = 33" "cj_phi c = hex_encode sample_env phi"
    by (rule sample_helper_world)
  have hyps: "length (replicate 4 phi) = N_of sample" "\<forall>x\<in>set (replicate 4 phi). length x = 33"
    "cj_phi c \<in> set (map (hex_encode sample_env) (replicate 4 phi))" "\<forall>i. length (sample_rng i) = 32"
    "1 \<le> (2::nat)" "2 \<le> length (bp_merchants sample_build)" "length (ascii ''b'') \<le> 255"
    using w(4,5) by (simp_all add: sample_rng_def sample_build_def)
  show ?thesis
    using that helper_phases [OF sample_laws sample_env_laws hyps(4) sample_build_ok w(1,2) hyps(1) w(3) hyps(2,3,5,6,7),
        of sample_rng 7 "ascii ''o''"] by blast
qed

definition receiving :: "receive_payment_id_params \<Rightarrow> (unit, bytes, bytes, bytes) env" where
  "receiving p = sample_env\<lparr>json_command := (\<lambda>_. Some \<lparr>cmd_name = ascii ''receive-payment-id'', cmd_params = ()\<rparr>),
     to_receive_payment_id := (\<lambda>_. Some p)\<rparr>"

lemma handle_receive_receiving:
  "handle_receive_payment_id B (receiving p) q = handle_receive_payment_id B sample_env q"
proof -
  have "hex_to_33 (receiving p) = hex_to_33 sample_env" "parse_crs_hex B (receiving p) = parse_crs_hex B sample_env"
    "hex_encode (receiving p) = hex_encode sample_env" "hex_decode (receiving p) = hex_decode sample_env"
    by (simp_all add: fun_eq_iff hex_to_33_def parse_crs_hex_def receiving_def)
  then show ?thesis
    by (simp add: handle_receive_payment_id_def parse_registration_def)
qed

theorem helper_accepts_replay_witness:
  "\<exists>p out. handle_receive_payment_id sample sample_env p = Inr out \<and>
     core_daemon sample (receiving p) (\<lambda>_. sample_rng) (\<lambda>_. True) 0 (replicate 2 (Inr (ascii ''{}''))) = [out, out]"
proof -
  obtain p out where out: "handle_receive_payment_id sample sample_env p = Inr out"
    by (rule sample_received)
  have "core_daemon sample (receiving p) (\<lambda>_. sample_rng) (\<lambda>_. True) 0 (replicate 2 (Inr (ascii ''{}''))) = replicate 2 out"
    by (rule conjunct1 [OF helper_accepts_replay [where p = p and
          cmd = "\<lparr>cmd_name = ascii ''receive-payment-id'', cmd_params = ()\<rparr>"]],
        unfold handle_receive_receiving)
      (simp_all add: receiving_def out, simp add: ascii_def byte_in_def)
  then show ?thesis
    using out by (auto simp: numeral_2_eq_2)
qed

text \<open>The helper and the registry name sets differently. A registration of the helper carries a
  64-bit number followed by 24 zero bytes as its set id; a verifier that knows the sets under the
  registry's ids, which are transaction ids, finds no set for it, whatever proof it carries.\<close>

theorem helper_registration_unknown_set:
  assumes "parse_registration B E p = Inr reg"
    and "\<forall>d\<in>dom (vs_set_cache v). drop 8 d \<noteq> replicate 24 0"
  shows "verify_and_register B crs v \<lparr>sb_pseudonym = pr_pseudonym reg, sb_nullifier = pr_public_nullifier reg,
      sb_proof = pr_proof reg, sb_set_id = pr_set_id reg, sb_friendly_name = pr_friendly_name reg\<rparr> =
    Inl (Rejected (SetNotFound (set_id_bytes (ri_set_id p))))"
proof -
  have "pr_set_id reg = set_id_bytes (ri_set_id p)"
    using assms(1) by (auto simp: parse_registration_def rbind_Inr_iff)
  moreover have "drop 8 (set_id_bytes i) = replicate 24 0" for i
    by (simp add: set_id_bytes_def)
  ultimately show ?thesis
    using assms(2) by (auto simp: verify_and_register_def domIff split: option.split)
qed

theorem helper_registration_unknown_set_witness:
  "\<exists>p reg. parse_registration sample sample_env p = Inr reg \<and>
     verify_and_register sample sample_crs (cache_set (verifier_new 1) (replicate 32 1) sample_set)
       \<lparr>sb_pseudonym = pr_pseudonym reg, sb_nullifier = pr_public_nullifier reg, sb_proof = pr_proof reg,
        sb_set_id = pr_set_id reg, sb_friendly_name = pr_friendly_name reg\<rparr> =
     Inl (Rejected (SetNotFound (set_id_bytes (ri_set_id p))))"
proof -
  obtain p out where "handle_receive_payment_id sample sample_env p = Inr out"
    by (rule sample_received)
  then obtain reg where reg: "parse_registration sample sample_env p = Inr reg"
    by (auto simp: handle_receive_Inr)
  have "\<forall>d\<in>dom (vs_set_cache (cache_set (verifier_new 1) (replicate 32 1) sample_set)). drop 8 d \<noteq> replicate 24 0"
    by (auto simp: cache_set_def verifier_new_def eval_nat_numeral split: if_splits)
  then show ?thesis
    using helper_registration_unknown_set [OF reg] reg by blast
qed

end
