(* ===== verification/Command_Monad.thy ===== *)
theory Command_Monad
  imports Std_Text
begin

text \<open>
  The commands of \<open>src/src/bin/veiled_wallet.rs\<close> read and write files and talk to a Bitcoin node.
  A command is a function of the world, the files and the node, that returns the new world with a
  result, an error or a panic, or does not return at all (\<open>None\<close>).
\<close>

record 'n world =
  w_files :: "str \<rightharpoonup> bytes"
  w_node :: 'n

type_synonym ('n, 'a) cmd = "'n world \<Rightarrow> ('n world \<times> (failure + 'a)) option"

definition cret :: "'a \<Rightarrow> ('n, 'a) cmd" where
  "cret x w = Some (w, Inr x)"

definition cbind :: "('n, 'a) cmd \<Rightarrow> ('a \<Rightarrow> ('n, 'b) cmd) \<Rightarrow> ('n, 'b) cmd" where
  "cbind m f w =
     (case m w of
        None \<Rightarrow> None
      | Some (w', Inl e) \<Rightarrow> Some (w', Inl e)
      | Some (w', Inr x) \<Rightarrow> f x w')"

text \<open>\<open>?\<close> on a value, on a loop that may not end, and \<open>let _ = \<dots>\<close>, which drops an error but not a
  panic.\<close>

definition clift :: "failure + 'a \<Rightarrow> ('n, 'a) cmd" where
  "clift r w = Some (w, r)"

definition cloop :: "(failure + 'a) option \<Rightarrow> ('n, 'a) cmd" where
  "cloop r w = (case r of None \<Rightarrow> None | Some x \<Rightarrow> Some (w, x))"

definition cignore :: "('n, 'a) cmd \<Rightarrow> ('n, unit) cmd" where
  "cignore m w =
     (case m w of
        None \<Rightarrow> None
      | Some (w', Inl (Panic e)) \<Rightarrow> Some (w', Inl (Panic e))
      | Some (w', _) \<Rightarrow> Some (w', Inr ()))"

text \<open>Reading the node, and a call that may change it.\<close>

definition cnode :: "('n \<Rightarrow> 'a) \<Rightarrow> ('n, 'a) cmd" where
  "cnode f w = Some (w, Inr (f (w_node w)))"

definition ccall :: "('n \<Rightarrow> 'n \<times> (failure + 'a)) \<Rightarrow> ('n, 'a) cmd" where
  "ccall f w = (case f (w_node w) of (n', r) \<Rightarrow> Some (w\<lparr>w_node := n'\<rparr>, r))"

text \<open>\<open>std::fs::read_to_string\<close>, which fails where there is no file, where \<open>readable\<close> says so (permissions,
  too many open files) and on a text that is not UTF-8; \<open>create_dir_all\<close> of the parent and \<open>std::fs::write\<close>, which truncates
  the file and then writes it: it succeeds, fails before the file is touched, or fails after it has
  written a part of the data (a full disk). \<open>io\<close> tells which. Paths that differ name different files.\<close>

datatype write_outcome = Written | Refused | Cut nat

definition read_file :: "(str \<Rightarrow> bool) \<Rightarrow> str \<Rightarrow> ('n, str) cmd" where
  "read_file readable path w =
     clift (rbind (ok_or (if readable path then w_files w path else None) (Err ''read state'')) (\<lambda>data.
            ok_or (from_utf8 data) (Err ''read state''))) w"

definition write_file :: "(str \<Rightarrow> bytes \<Rightarrow> write_outcome) \<Rightarrow> str \<Rightarrow> bytes \<Rightarrow> ('n, unit) cmd" where
  "write_file io path data w =
     (case io path data of
        Written \<Rightarrow> Some (w\<lparr>w_files := (w_files w)(path \<mapsto> data)\<rparr>, Inr ())
      | Refused \<Rightarrow> Some (w, Inl (Err ''write state''))
      | Cut n \<Rightarrow> Some (w\<lparr>w_files := (w_files w)(path \<mapsto> take n data)\<rparr>, Inl (Err ''write state'')))"

lemmas cmd_defs = cret_def cbind_def clift_def cloop_def cignore_def cnode_def ccall_def

lemma cbind_Some:
  "cbind m f w = Some (w', r) \<longleftrightarrow>
     (\<exists>e. m w = Some (w', Inl e) \<and> r = Inl e) \<or> (\<exists>v x. m w = Some (v, Inr x) \<and> f x v = Some (w', r))"
  by (auto simp: cbind_def split: option.splits sum.splits)

lemma cbind_Inr:
  "cbind m f w = Some (w', Inr y) \<longleftrightarrow> (\<exists>v x. m w = Some (v, Inr x) \<and> f x v = Some (w', Inr y))"
  by (auto simp: cbind_Some)

lemma cret_Some [simp]: "cret x w = Some (w', r) \<longleftrightarrow> w' = w \<and> r = Inr x"
  by (auto simp: cret_def)

lemma clift_Some [simp]: "clift r w = Some (w', r') \<longleftrightarrow> w' = w \<and> r = r'"
  by (auto simp: clift_def)

lemma cloop_Some [simp]: "cloop r w = Some (w', r') \<longleftrightarrow> w' = w \<and> r = Some r'"
  by (auto simp: cloop_def split: option.split)

lemma cnode_Some [simp]: "cnode f w = Some (w', r) \<longleftrightarrow> w' = w \<and> r = Inr (f (w_node w))"
  by (auto simp: cnode_def)

lemma cignore_Some:
  "cignore m w = Some (w', r) \<longleftrightarrow>
     (\<exists>e. m w = Some (w', Inl (Panic e)) \<and> r = Inl (Panic e)) \<or>
     (\<exists>r'. m w = Some (w', r') \<and> (\<nexists>e. r' = Inl (Panic e)) \<and> r = Inr ())"
  by (auto simp: cignore_def split: option.splits sum.splits failure.splits)

lemma read_file_Inr:
  "read_file readable path w = Some (w', Inr s) \<longleftrightarrow> w' = w \<and> readable path \<and> w_files w path = Some s \<and> utf8_valid s"
  unfolding read_file_def clift_def by (auto simp: ok_or_def from_utf8_def split: option.splits if_splits)

lemma read_file_same: "read_file readable path w = Some (w', r) \<Longrightarrow> w' = w"
  by (simp add: read_file_def)

section \<open>Invariants of commands\<close>

text \<open>From worlds in \<open>I\<close> a command ends, with whatever result, in worlds in \<open>I\<close>, and its value, when
  it has one, is in \<open>Q\<close>.\<close>

definition maintains :: "('n world \<Rightarrow> bool) \<Rightarrow> ('n, 'a) cmd \<Rightarrow> ('a \<Rightarrow> bool) \<Rightarrow> bool" where
  "maintains I m Q \<longleftrightarrow> (\<forall>w w' r. I w \<longrightarrow> m w = Some (w', r) \<longrightarrow> I w' \<and> (\<forall>x. r = Inr x \<longrightarrow> Q x))"

lemma maintainsD: "maintains I m Q \<Longrightarrow> I w \<Longrightarrow> m w = Some (w', r) \<Longrightarrow> I w'"
  by (simp add: maintains_def)

lemma maintains_weaken: "maintains I m Q \<Longrightarrow> (\<And>x. Q x \<Longrightarrow> Q' x) \<Longrightarrow> maintains I m Q'"
  unfolding maintains_def by blast

lemma maintains_ret [intro]: "Q x \<Longrightarrow> maintains I (cret x) Q"
  by (simp add: maintains_def)

lemma maintains_lift [intro]: "(\<And>x. r = Inr x \<Longrightarrow> Q x) \<Longrightarrow> maintains I (clift r) Q"
  by (simp add: maintains_def)

lemma maintains_loop [intro]: "(\<And>x. r = Some (Inr x) \<Longrightarrow> Q x) \<Longrightarrow> maintains I (cloop r) Q"
  by (simp add: maintains_def)

lemma maintains_node [intro]: "(\<And>n. Q (f n)) \<Longrightarrow> maintains I (cnode f) Q"
  by (simp add: maintains_def)

lemma maintains_call [intro]: "(\<And>w n. I w \<Longrightarrow> I (w\<lparr>w_node := n\<rparr>)) \<Longrightarrow> maintains I (ccall f) (\<lambda>_. True)"
  by (auto simp: maintains_def ccall_def split: prod.splits)

lemma maintains_bind [intro]:
  "maintains I m Q \<Longrightarrow> (\<And>x. Q x \<Longrightarrow> maintains I (f x) Q') \<Longrightarrow> maintains I (cbind m f) Q'"
  unfolding maintains_def cbind_Some by blast

lemma maintains_ignore [intro]: "maintains I m Q \<Longrightarrow> maintains I (cignore m) (\<lambda>_. True)"
  unfolding maintains_def cignore_Some by blast

lemma maintains_if [intro]: "(c \<Longrightarrow> maintains I m Q) \<Longrightarrow> (\<not> c \<Longrightarrow> maintains I m' Q) \<Longrightarrow> maintains I (if c then m else m') Q"
  by simp

end
