(* ===== verification/Wallet_Commands.thy ===== *)
theory Wallet_Commands
  imports Command_Monad Registry_Wallet
begin

text \<open>
  \<open>src/src/bin/veiled_wallet.rs\<close>: the wallet commands of the web interface, over one JSON state
  file per participant, and the part of \<open>src/src/registry/wallet.rs\<close> that creates the registry's
  wallet. The BDK wallet, BIP39 and the node's RPC are the fields of the environment: \<open>'w\<close> are BDK
  wallets, \<open>'o\<close> the opaque values (mnemonics, keys, clients, emitters, blocks, transactions),
  \<open>'n\<close> the node, \<open>'f\<close> the numbers of JSON. The node does not change during a synchronization.
  Amounts are 64-bit words that wrap, as the release build of the Dockerfile has them. The log
  lines are left out, except for the slices in them that can panic.
\<close>

section \<open>State and environment\<close>

record cached_balance =
  cb_confirmed :: u64
  cb_unconfirmed :: u64
  cb_total :: u64

record wallet_state =
  wt_mnemonic :: str
  wt_wallet_name :: str
  wt_descriptor :: str
  wt_change_descriptor :: str
  wt_address :: str
  wt_address_index :: u32
  wt_network :: str
  wt_checkpoint_height :: "u32 option"
  wt_checkpoint_hash :: "str option"
  wt_cached_balance :: "cached_balance option"

record bdk_balance =
  bb_confirmed :: u64
  bb_trusted_pending :: u64
  bb_untrusted_pending :: u64
  bb_immature :: u64

record rpc_params =
  rp_url :: "str option"
  rp_user :: "str option"
  rp_pass :: "str option"

record create_wallet_params =
  cw_state_path :: str
  cw_name :: str
  cw_rpc :: rpc_params

record get_balance_params =
  gb_state_path :: str
  gb_rpc :: rpc_params

record get_address_params =
  ga_state_path :: str
  ga_rpc :: rpc_params

record send_params =
  sp_state_path :: str
  sp_to_address :: str
  sp_amount_sats :: u64
  sp_rpc :: rpc_params

record faucet_params =
  fp_address :: str
  fp_blocks :: "u64 option"
  fp_rpc :: rpc_params

record get_tx_params =
  gt_txid :: str
  gt_rpc :: rpc_params

record get_tx_history_params =
  gh_state_path :: str
  gh_rpc :: rpc_params

text \<open>One entry of the history, and the responses.\<close>

record history_entry =
  he_txid :: str
  he_amount_sats :: u64
  he_direction :: string
  he_confirmations :: u32
  he_category :: string

datatype 'f wallet_response =
    WalletCreated str str str "bool option"
  | BalanceResponse u64 u64 u64
  | AddressResponse str
  | SendResponse str
  | FaucetResponse u64 "str list"
  | TxResponse str "'f json" "'f json" "'f json" "'f json"
  | HistoryResponse "history_entry list"
  | WalletOk
  | WalletErrorResponse string

text \<open>The crates. A checkpoint is a height and a block hash. Inserting one into a wallet's chain makes a
  chain update, or panics; applying an update changes the wallet and may fail. The emitter is made from
  the node and a checkpoint; asked for the next block it answers a block with its own next state, the
  end, or an error.\<close>

record ('f, 'o, 'w, 'n) bdk =
  bd_readable :: "str \<Rightarrow> bool"
  bd_write :: "str \<Rightarrow> bytes \<Rightarrow> write_outcome"
  bd_parse_state :: "str \<Rightarrow> wallet_state option"
  bd_print_state :: "wallet_state \<Rightarrow> str"
  bd_from_entropy :: "bytes \<Rightarrow> string + 'o"
  bd_parse_mnemonic :: "str \<Rightarrow> string + 'o"
  bd_mnemonic_string :: "'o \<Rightarrow> str"
  bd_master :: "'o \<Rightarrow> string + 'o"
  bd_create :: "'o \<Rightarrow> string + 'w"
  bd_descriptor :: "'o \<Rightarrow> string + str"
  bd_change_descriptor :: "'o \<Rightarrow> string + str"
  bd_peek_external :: "'w \<Rightarrow> u32 \<Rightarrow> str"
  bd_peek_internal :: "'w \<Rightarrow> u32 \<Rightarrow> str"
  bd_script_pubkey :: "str \<Rightarrow> bytes"
  bd_reveal_to :: "'w \<Rightarrow> u32 \<Rightarrow> 'w"
  bd_reveal_next :: "'w \<Rightarrow> 'w \<times> u32 \<times> str"
  bd_parse_hash :: "str \<Rightarrow> bytes option"
  bd_hash_string :: "bytes \<Rightarrow> str"
  bd_checkpoint :: "'w \<Rightarrow> u32 \<times> bytes"
  bd_insert_checkpoint :: "'w \<Rightarrow> u32 \<times> bytes \<Rightarrow> string + 'o"
  bd_apply_update :: "'w \<Rightarrow> 'o \<Rightarrow> 'w \<times> (string + unit)"
  bd_balance :: "'w \<Rightarrow> bdk_balance"
  bd_client :: "str \<Rightarrow> str \<Rightarrow> str \<Rightarrow> string + 'o"
  bd_emitter :: "'o \<Rightarrow> 'n \<Rightarrow> u32 \<times> bytes \<Rightarrow> 'o"
  bd_next_block :: "'n \<Rightarrow> 'o \<Rightarrow> string + ('o \<times> 'o) option"
  bd_apply_block :: "'w \<Rightarrow> 'o \<Rightarrow> string + 'w"
  bd_mempool :: "'n \<Rightarrow> 'o \<Rightarrow> string + 'o list"
  bd_apply_unconfirmed :: "'w \<Rightarrow> 'o list \<Rightarrow> 'w"
  bd_parse_address :: "str \<Rightarrow> string + 'o"
  bd_build :: "'w \<Rightarrow> 'o \<Rightarrow> u64 \<Rightarrow> string + 'o"
  bd_sign :: "'w \<Rightarrow> 'o \<Rightarrow> string + bool \<times> 'o"
  bd_extract_tx :: "'o \<Rightarrow> string + 'o"
  bd_txid_string :: "'o \<Rightarrow> str"
  bd_transactions :: "'w \<Rightarrow> ('o \<times> bool) list"
  bd_sent_and_received :: "'w \<Rightarrow> 'o \<Rightarrow> u64 \<times> u64"
  nd_send_raw :: "'o \<Rightarrow> 'o \<Rightarrow> 'n \<Rightarrow> 'n \<times> (failure + unit)"
  nd_generate :: "'o \<Rightarrow> u64 \<Rightarrow> str \<Rightarrow> 'n \<Rightarrow> 'n \<times> (failure + str list)"
  nd_raw_tx :: "'o \<Rightarrow> str \<Rightarrow> 'n \<Rightarrow> failure + 'f json"
  nd_scan_txout_set :: "'o \<Rightarrow> str list \<Rightarrow> 'n \<Rightarrow> 'n \<times> (failure + 'f json)"
  f64_btc_to_sats :: "'f \<Rightarrow> u64"

text \<open>BIP39 as the crate documents it: twelve words determine their sixteen bytes of entropy.\<close>

definition mnemonic_laws :: "('f, 'o, 'w, 'n) bdk \<Rightarrow> bool" where
  "mnemonic_laws E \<longleftrightarrow>
     (\<forall>e e' m m'. length e = 16 \<longrightarrow> length e' = 16 \<longrightarrow> bd_from_entropy E e = Inr m \<longrightarrow>
        bd_from_entropy E e' = Inr m' \<longrightarrow> bd_mnemonic_string E m = bd_mnemonic_string E m' \<longrightarrow> e = e')"

text \<open>The JSON of a state reads back as the state, and is text.\<close>

definition state_laws :: "('f, 'o, 'w, 'n) bdk \<Rightarrow> bool" where
  "state_laws E \<longleftrightarrow> (\<forall>s. bd_parse_state E (bd_print_state E s) = Some s \<and> utf8_valid (bd_print_state E s))"

section \<open>Helpers\<close>

definition default_url :: str where "default_url = ascii ''http://localhost:18443''"
definition default_user :: str where "default_user = ascii ''veiled''"
definition default_pass :: str where "default_pass = ascii ''veiled''"

definition unwrap_or :: "'a option \<Rightarrow> 'a \<Rightarrow> 'a" where
  "unwrap_or x d = (case x of None \<Rightarrow> d | Some v \<Rightarrow> v)"

definition rpc_client :: "('f, 'o, 'w, 'n) bdk \<Rightarrow> str \<Rightarrow> str \<Rightarrow> str \<Rightarrow> failure + 'o" where
  "rpc_client E url user pass = map_err Err (bd_client E url user pass)"

definition rpc_of :: "('f, 'o, 'w, 'n) bdk \<Rightarrow> rpc_params \<Rightarrow> failure + 'o" where
  "rpc_of E p =
     (let rpc_url = unwrap_or (rp_url p) default_url; rpc_user = unwrap_or (rp_user p) default_user;
          rpc_pass = unwrap_or (rp_pass p) default_pass
      in rpc_client E rpc_url rpc_user rpc_pass)"

definition load_wallet_state :: "('f, 'o, 'w, 'n) bdk \<Rightarrow> str \<Rightarrow> ('n, wallet_state) cmd" where
  "load_wallet_state E path =
     cbind (read_file (bd_readable E) path) (\<lambda>data. clift (ok_or (bd_parse_state E data) (Err ''parse state'')))"

definition save_wallet_state :: "('f, 'o, 'w, 'n) bdk \<Rightarrow> str \<Rightarrow> wallet_state \<Rightarrow> ('n, unit) cmd" where
  "save_wallet_state E path state = write_file (bd_write E) path (bd_print_state E state)"

definition recreate_wallet :: "('f, 'o, 'w, 'n) bdk \<Rightarrow> wallet_state \<Rightarrow> failure + 'w" where
  "recreate_wallet E state =
     rbind (map_err Err (bd_parse_mnemonic E (wt_mnemonic state))) (\<lambda>mnemonic.
     rbind (map_err Err (bd_master E mnemonic)) (\<lambda>xprv.
     rbind (map_err Err (bd_create E xprv)) (\<lambda>wallet0.
     let wallet = bd_reveal_to E wallet0 (wt_address_index state) in
     case (wt_checkpoint_height state, wt_checkpoint_hash state) of
       (Some height, Some hash_hex) \<Rightarrow>
         (case bd_parse_hash E hash_hex of
            Some hash \<Rightarrow>
              rbind (map_err Panic (bd_insert_checkpoint E wallet (height, hash))) (\<lambda>cp.
              let (wallet', _) = bd_apply_update E wallet cp in
              rbind (str_prefix 12 hash_hex) (\<lambda>_. Inr wallet'))
          | None \<Rightarrow> Inr wallet)
     | _ \<Rightarrow> Inr wallet)))"

text \<open>\<open>while let Some(block_event) = emitter.next_block()?\<close>: nothing in it bounds the number of
  blocks, so the loop is partial. The result is the wallet and the emitter after the last block.\<close>

partial_function (option) sync_blocks ::
    "('f, 'o, 'w, 'n) bdk \<Rightarrow> 'n \<Rightarrow> 'o \<Rightarrow> 'w \<Rightarrow> (failure + 'w \<times> 'o) option" where
  "sync_blocks E node emitter wallet =
     (case bd_next_block E node emitter of
        Inl e \<Rightarrow> Some (Inl (Err e))
      | Inr None \<Rightarrow> Some (Inr (wallet, emitter))
      | Inr (Some (emitter', block)) \<Rightarrow>
          (case bd_apply_block E wallet block of
             Inl e \<Rightarrow> Some (Inl (Err e))
           | Inr wallet' \<Rightarrow> sync_blocks E node emitter' wallet'))"

definition sync_wallet :: "('f, 'o, 'w, 'n) bdk \<Rightarrow> 'o \<Rightarrow> 'w \<Rightarrow> 'n \<Rightarrow> (failure + 'w) option" where
  "sync_wallet E rpc wallet node =
     (let tip = bd_checkpoint E wallet; emitter = bd_emitter E rpc node tip in
      case sync_blocks E node emitter wallet of
        None \<Rightarrow> None
      | Some r \<Rightarrow> Some
          (rbind r (\<lambda>(wallet', emitter').
           rbind (map_err Err (bd_mempool E node emitter')) (\<lambda>update.
           Inr (bd_apply_unconfirmed E wallet' update)))))"

definition csync :: "('f, 'o, 'w, 'n) bdk \<Rightarrow> 'o \<Rightarrow> 'w \<Rightarrow> ('n, 'w) cmd" where
  "csync E rpc wallet = cbind (cnode (sync_wallet E rpc wallet)) cloop"

definition save_checkpoint :: "('f, 'o, 'w, 'n) bdk \<Rightarrow> str \<Rightarrow> 'w \<Rightarrow> ('n, unit) cmd" where
  "save_checkpoint E state_path wallet =
     cbind (load_wallet_state E state_path) (\<lambda>state.
     let cp = bd_checkpoint E wallet;
         state' = state\<lparr>wt_checkpoint_height := Some (fst cp), wt_checkpoint_hash := Some (bd_hash_string E (snd cp))\<rparr> in
     cbind (save_wallet_state E state_path state') (\<lambda>_.
     cbind (clift (str_prefix 12 (bd_hash_string E (snd cp)))) (\<lambda>_. cret ())))"

section \<open>Handlers\<close>

text \<open>The random entropy is drawn only when no state loads.\<close>

definition create_new_wallet ::
    "('f, 'o, 'w, 'n) bdk \<Rightarrow> bytes \<Rightarrow> create_wallet_params \<Rightarrow> ('n, 'f wallet_response) cmd" where
  "create_new_wallet E entropy p =
     cbind (clift (map_err Err (bd_from_entropy E entropy))) (\<lambda>mnemonic.
     cbind (clift (map_err Err (bd_master E mnemonic))) (\<lambda>xprv.
     cbind (clift (map_err Err (bd_create E xprv))) (\<lambda>wallet.
     let address = bd_peek_external E wallet 0 in
     cbind (clift (map_err Err (bd_descriptor E xprv))) (\<lambda>desc.
     cbind (clift (map_err Err (bd_change_descriptor E xprv))) (\<lambda>change_desc.
     let state = \<lparr>wt_mnemonic = bd_mnemonic_string E mnemonic, wt_wallet_name = cw_name p, wt_descriptor = desc,
           wt_change_descriptor = change_desc, wt_address = address, wt_address_index = 0,
           wt_network = ascii ''regtest'', wt_checkpoint_height = None, wt_checkpoint_hash = None,
           wt_cached_balance = None\<rparr> in
     cbind (save_wallet_state E (cw_state_path p) state) (\<lambda>_.
     cret (WalletCreated address (bd_mnemonic_string E mnemonic) (cw_name p) None)))))))"

definition handle_create_wallet ::
    "('f, 'o, 'w, 'n) bdk \<Rightarrow> bytes \<Rightarrow> create_wallet_params \<Rightarrow> ('n, 'f wallet_response) cmd" where
  "handle_create_wallet E entropy p w =
     (case load_wallet_state E (cw_state_path p) w of
        Some (w', Inr state) \<Rightarrow>
          cret (WalletCreated (wt_address state) (wt_mnemonic state) (wt_wallet_name state) (Some True)) w'
      | _ \<Rightarrow> create_new_wallet E entropy p w)"

definition unconfirmed_of :: "bdk_balance \<Rightarrow> u64" where
  "unconfirmed_of b = bb_untrusted_pending b + bb_trusted_pending b"

definition handle_get_balance ::
    "('f, 'o, 'w, 'n) bdk \<Rightarrow> get_balance_params \<Rightarrow> ('n, 'f wallet_response) cmd" where
  "handle_get_balance E p =
     cbind (load_wallet_state E (gb_state_path p)) (\<lambda>state.
     cbind (clift (rpc_of E (gb_rpc p))) (\<lambda>rpc.
     cbind (clift (recreate_wallet E state)) (\<lambda>wallet0.
     cbind (csync E rpc wallet0) (\<lambda>wallet.
     let balance = bd_balance E wallet; confirmed = bb_confirmed balance;
         unconfirmed = unconfirmed_of balance; total = confirmed + unconfirmed in
     cbind (load_wallet_state E (gb_state_path p)) (\<lambda>state.
     let cp = bd_checkpoint E wallet;
         state' = state\<lparr>wt_checkpoint_height := Some (fst cp),
           wt_checkpoint_hash := Some (bd_hash_string E (snd cp)),
           wt_cached_balance := Some \<lparr>cb_confirmed = confirmed, cb_unconfirmed = unconfirmed, cb_total = total\<rparr>\<rparr> in
     cbind (cignore (save_wallet_state E (gb_state_path p) state')) (\<lambda>_.
     cret (BalanceResponse confirmed unconfirmed total)))))))"

definition handle_get_address ::
    "('f, 'o, 'w, 'n) bdk \<Rightarrow> get_address_params \<Rightarrow> ('n, 'f wallet_response) cmd" where
  "handle_get_address E p =
     cbind (load_wallet_state E (ga_state_path p)) (\<lambda>state.
     cbind (clift (recreate_wallet E state)) (\<lambda>wallet.
     let (_, index, address) = bd_reveal_next E wallet;
         state' = state\<lparr>wt_address_index := index, wt_address := address\<rparr> in
     cbind (save_wallet_state E (ga_state_path p) state') (\<lambda>_.
     cret (AddressResponse address))))"

text \<open>The second synchronization of \<open>send\<close>, from the genesis block.\<close>

definition resync_from_genesis ::
    "('f, 'o, 'w, 'n) bdk \<Rightarrow> 'o \<Rightarrow> str \<Rightarrow> ('n, 'w) cmd" where
  "resync_from_genesis E rpc path =
     cbind (load_wallet_state E path) (\<lambda>fresh_state.
     let fresh_state' = fresh_state\<lparr>wt_checkpoint_height := None, wt_checkpoint_hash := None\<rparr> in
     cbind (save_wallet_state E path fresh_state') (\<lambda>_.
     cbind (clift (recreate_wallet E fresh_state')) (\<lambda>wallet0.
     cbind (csync E rpc wallet0) (\<lambda>wallet.
     cbind (cignore (save_checkpoint E path wallet)) (\<lambda>_. cret wallet)))))"

definition send_tx :: "('f, 'o, 'w, 'n) bdk \<Rightarrow> 'o \<Rightarrow> send_params \<Rightarrow> 'w \<Rightarrow> ('n, 'f wallet_response) cmd" where
  "send_tx E rpc p wallet =
     cbind (clift (map_err Err (bd_parse_address E (sp_to_address p)))) (\<lambda>to_addr.
     cbind (clift (map_err Err (bd_build E wallet to_addr (sp_amount_sats p)))) (\<lambda>psbt.
     cbind (clift (map_err Err (bd_sign E wallet psbt))) (\<lambda>(finalized, psbt').
     if \<not> finalized then clift (Inl (Err ''transaction signing incomplete''))
     else
     cbind (clift (map_err Err (bd_extract_tx E psbt'))) (\<lambda>tx.
     cbind (ccall (nd_send_raw E rpc tx)) (\<lambda>_.
     cret (SendResponse (bd_txid_string E tx)))))))"

definition handle_send :: "('f, 'o, 'w, 'n) bdk \<Rightarrow> send_params \<Rightarrow> ('n, 'f wallet_response) cmd" where
  "handle_send E p =
     cbind (load_wallet_state E (sp_state_path p)) (\<lambda>state.
     cbind (clift (str_prefix 20 (sp_to_address p))) (\<lambda>_.
     cbind (clift (rpc_of E (sp_rpc p))) (\<lambda>rpc.
     cbind (clift (recreate_wallet E state)) (\<lambda>wallet0.
     cbind (csync E rpc wallet0) (\<lambda>wallet.
     cbind (cignore (save_checkpoint E (sp_state_path p) wallet)) (\<lambda>_.
     let balance = bd_balance E wallet;
         total = bb_confirmed balance + bb_trusted_pending balance + bb_untrusted_pending balance in
     cbind (if total = 0 \<and> 0 < sp_amount_sats p then resync_from_genesis E rpc (sp_state_path p) else cret wallet)
       (send_tx E rpc p)))))))"

text \<open>The log line cuts the address at 20 bytes and six bytes before its end.\<close>

definition str_suffix :: "nat \<Rightarrow> str \<Rightarrow> failure + str" where
  "str_suffix n s =
     (if is_char_boundary s n then Inr (drop n s) else Inl (Panic ''byte index is not a char boundary''))"

definition handle_faucet :: "('f, 'o, 'w, 'n) bdk \<Rightarrow> faucet_params \<Rightarrow> ('n, 'f wallet_response) cmd" where
  "handle_faucet E p =
     cbind (clift (rpc_of E (fp_rpc p))) (\<lambda>rpc.
     let blocks = unwrap_or (fp_blocks p) 1 in
     cbind (clift (str_prefix 20 (fp_address p))) (\<lambda>_.
     cbind (clift (str_suffix (length (fp_address p) - 6) (fp_address p))) (\<lambda>_.
     cbind (ccall (nd_generate E rpc blocks (fp_address p))) (\<lambda>block_hashes.
     cret (FaucetResponse blocks block_hashes)))))"

definition handle_get_tx :: "('f, 'o, 'w, 'n) bdk \<Rightarrow> get_tx_params \<Rightarrow> ('n, 'f wallet_response) cmd" where
  "handle_get_tx E p =
     cbind (clift (rpc_of E (gt_rpc p))) (\<lambda>rpc.
     cbind (ccall (\<lambda>n. (n, nd_raw_tx E rpc (gt_txid p) n))) (\<lambda>raw.
     cret (TxResponse (gt_txid p) (json_index raw ''confirmations'') (json_index raw ''blockhash'')
             (json_index raw ''size'') (json_index raw ''vout''))))"

text \<open>The net amount is a 64-bit signed difference.\<close>

definition history_entry_of :: "('f, 'o, 'w, 'n) bdk \<Rightarrow> 'w \<Rightarrow> 'o \<times> bool \<Rightarrow> history_entry" where
  "history_entry_of E wallet t =
     (case t of (tx, confirmed) \<Rightarrow>
      let (sent_sats, received_sats) = bd_sent_and_received E wallet tx;
          net = received_sats - sent_sats;
          direction = (if 0 \<le> sint net then ''incoming'' else ''outgoing'');
          amount_sats = (if 0 \<le> sint net then net else - net);
          confirmations = (if confirmed then 1 else 0)
      in \<lparr>he_txid = bd_txid_string E tx, he_amount_sats = amount_sats, he_direction = direction,
          he_confirmations = confirmations, he_category = (if 0 \<le> sint net then ''receive'' else ''send'')\<rparr>)"

definition handle_get_tx_history ::
    "('f, 'o, 'w, 'n) bdk \<Rightarrow> get_tx_history_params \<Rightarrow> ('n, 'f wallet_response) cmd" where
  "handle_get_tx_history E p =
     cbind (load_wallet_state E (gh_state_path p)) (\<lambda>state.
     cbind (clift (rpc_of E (gh_rpc p))) (\<lambda>rpc.
     cbind (clift (recreate_wallet E state)) (\<lambda>wallet0.
     cbind (csync E rpc wallet0) (\<lambda>wallet.
     cbind (cignore (save_checkpoint E (gh_state_path p) wallet)) (\<lambda>_.
     cret (HistoryResponse (map (history_entry_of E wallet) (bd_transactions E wallet))))))))"

text \<open>The addresses that \<open>get-balance-fast\<close> scans.\<close>

definition addr_descriptor :: "str \<Rightarrow> str" where
  "addr_descriptor a = ascii ''addr('' @ a @ ascii '')''"

definition scan_descriptors :: "('f, 'o, 'w, 'n) bdk \<Rightarrow> wallet_state \<Rightarrow> 'w \<Rightarrow> str list" where
  "scan_descriptors E state wallet =
     (let ext_count = max (wt_address_index state) 5 + 5 in
      map (\<lambda>i. addr_descriptor (bd_peek_external E wallet (word_of_nat i))) [0..<unat ext_count] @
      map (\<lambda>i. addr_descriptor (bd_peek_internal E wallet (word_of_nat i))) [0..<20])"

text \<open>The log of the first five outputs cuts the transaction id at 12 bytes, or its length.\<close>

fun log_unspents :: "nat \<Rightarrow> 'f json list \<Rightarrow> failure + unit" where
  "log_unspents i [] = Inr ()"
| "log_unspents i (u # us) =
     (if 5 \<le> i then Inr ()
      else (let txid = unwrap_or (as_str (json_index u ''txid'')) (ascii ''?'') in
            rbind (str_prefix (min 12 (length txid)) txid) (\<lambda>_. log_unspents (i + 1) us)))"

definition cache_balance :: "('f, 'o, 'w, 'n) bdk \<Rightarrow> str \<Rightarrow> u64 \<Rightarrow> ('n, unit) cmd" where
  "cache_balance E path total_sats =
     cbind (load_wallet_state E path) (\<lambda>s.
     save_wallet_state E path
       (s\<lparr>wt_cached_balance := Some \<lparr>cb_confirmed = total_sats, cb_unconfirmed = 0, cb_total = total_sats\<rparr>\<rparr>))"

definition handle_get_balance_fast ::
    "('f, 'o, 'w, 'n) bdk \<Rightarrow> get_balance_params \<Rightarrow> ('n, 'f wallet_response) cmd" where
  "handle_get_balance_fast E p =
     cbind (load_wallet_state E (gb_state_path p)) (\<lambda>state.
     cbind (clift (rpc_of E (gb_rpc p))) (\<lambda>rpc.
     cbind (clift (recreate_wallet E state)) (\<lambda>wallet.
     cbind (ccall (nd_scan_txout_set E rpc (scan_descriptors E state wallet))) (\<lambda>scan_result.
     let total_sats = unwrap_or (map_option (f64_btc_to_sats E) (as_f64 (json_index scan_result ''total_amount''))) 0 in
     cbind (clift (log_unspents 0 (unwrap_or (as_array (json_index scan_result ''unspents'')) []))) (\<lambda>_.
     cbind (cignore (cache_balance E (gb_state_path p) total_sats)) (\<lambda>_.
     cret (BalanceResponse total_sats 0 total_sats)))))))"

section \<open>Dispatch and the daemon\<close>

record 'v wallet_command =
  wc_name :: str
  wc_params :: 'v

text \<open>The JSON library: the parser of a command and the conversions into the parameter structs.\<close>

record 'v wallet_json =
  wj_command :: "str \<Rightarrow> 'v wallet_command option"
  wj_create_wallet :: "'v \<Rightarrow> create_wallet_params option"
  wj_get_balance :: "'v \<Rightarrow> get_balance_params option"
  wj_get_address :: "'v \<Rightarrow> get_address_params option"
  wj_send :: "'v \<Rightarrow> send_params option"
  wj_faucet :: "'v \<Rightarrow> faucet_params option"
  wj_get_tx :: "'v \<Rightarrow> get_tx_params option"
  wj_get_tx_history :: "'v \<Rightarrow> get_tx_history_params option"

definition cparams :: "('v \<Rightarrow> 'q option) \<Rightarrow> ('q \<Rightarrow> ('n, 'r) cmd) \<Rightarrow> 'v \<Rightarrow> ('n, 'r) cmd" where
  "cparams from_value handler v = cbind (clift (ok_or (from_value v) (Err ''bad params''))) handler"

definition wallet_dispatch ::
    "('f, 'o, 'w, 'n) bdk \<Rightarrow> 'v wallet_json \<Rightarrow> bytes \<Rightarrow> 'v wallet_command \<Rightarrow> ('n, 'f wallet_response) cmd" where
  "wallet_dispatch E J entropy cmd =
     (let c = wc_name cmd; v = wc_params cmd in
      if c = ascii ''create-wallet'' then cparams (wj_create_wallet J) (handle_create_wallet E entropy) v
      else if c = ascii ''get-balance'' then cparams (wj_get_balance J) (handle_get_balance E) v
      else if c = ascii ''get-balance-fast'' then cparams (wj_get_balance J) (handle_get_balance_fast E) v
      else if c = ascii ''get-address'' then cparams (wj_get_address J) (handle_get_address E) v
      else if c = ascii ''send'' then cparams (wj_send J) (handle_send E) v
      else if c = ascii ''faucet'' then cparams (wj_faucet J) (handle_faucet E) v
      else if c = ascii ''get-tx'' then cparams (wj_get_tx J) (handle_get_tx E) v
      else if c = ascii ''get-tx-history'' then cparams (wj_get_tx_history J) (handle_get_tx_history E) v
      else if c = ascii ''ping'' then cret WalletOk
      else clift (Inl (Err ''unknown command'')))"

text \<open>The answer to a line, with the world after the command; \<open>catch_unwind\<close> turns a panic into an
  error response.\<close>

definition wallet_answer ::
    "('f, 'o, 'w, 'n) bdk \<Rightarrow> 'v wallet_json \<Rightarrow> bytes \<Rightarrow> str \<Rightarrow> 'n world \<Rightarrow> ('n world \<times> 'f wallet_response) option" where
  "wallet_answer E J entropy line w =
     (case wj_command J line of
        None \<Rightarrow> Some (w, WalletErrorResponse ''invalid JSON'')
      | Some cmd \<Rightarrow>
          map_option (\<lambda>(w', r). (w', case r of Inr val \<Rightarrow> val
              | Inl (Err e) \<Rightarrow> WalletErrorResponse e
              | Inl (Panic msg) \<Rightarrow> WalletErrorResponse (''internal panic: '' @ msg)))
            (wallet_dispatch E J entropy cmd w))"

text \<open>What surrounds a command of the daemon: the entropy it draws, what has happened to the node since
  the last command, which files can be read and written now, and whether its answer can be printed.\<close>

record 'n surroundings =
  su_entropy :: bytes
  su_node :: "'n \<Rightarrow> 'n"
  su_readable :: "str \<Rightarrow> bool"
  su_write :: "str \<Rightarrow> bytes \<Rightarrow> write_outcome"
  su_printed :: bool

definition surrounded :: "('f, 'o, 'w, 'n) bdk \<Rightarrow> 'n surroundings \<Rightarrow> ('f, 'o, 'w, 'n) bdk" where
  "surrounded E s = E\<lparr>bd_readable := su_readable s, bd_write := su_write s\<rparr>"

text \<open>\<open>S k\<close> surrounds the command number \<open>k\<close>; an unreadable line or a broken pipe ends the daemon.\<close>

fun wallet_daemon ::
    "('f, 'o, 'w, 'n) bdk \<Rightarrow> 'v wallet_json \<Rightarrow> (nat \<Rightarrow> 'n surroundings) \<Rightarrow> nat \<Rightarrow> (failure + str) list \<Rightarrow>
      'n world \<Rightarrow> ('n world \<times> 'f wallet_response list) option" where
  "wallet_daemon E J S k [] w = Some (w, [])"
| "wallet_daemon E J S k (Inl e # rest) w = Some (w, [])"
| "wallet_daemon E J S k (Inr line # rest) w =
     (if blank line then wallet_daemon E J S k rest w
      else (case wallet_answer (surrounded E (S k)) J (su_entropy (S k)) line (w\<lparr>w_node := su_node (S k) (w_node w)\<rparr>) of
              None \<Rightarrow> None
            | Some (w', output) \<Rightarrow>
                if su_printed (S k)
                then map_option (apsnd (Cons output)) (wallet_daemon E J S (k + 1) rest w')
                else Some (w', [])))"

text \<open>The mode without \<open>--daemon\<close>: the response printed, if any, and the exit status.\<close>

definition wallet_single ::
    "('f, 'o, 'w, 'n) bdk \<Rightarrow> 'v wallet_json \<Rightarrow> bytes \<Rightarrow> bytes \<Rightarrow> 'n world \<Rightarrow>
      ('n world \<times> 'f wallet_response option \<times> nat) option" where
  "wallet_single E J entropy input w =
     (case from_utf8 input of
        None \<Rightarrow> Some (w, None, 101)
      | Some s \<Rightarrow>
          (case wj_command J s of
             None \<Rightarrow> Some (w, Some (WalletErrorResponse ''invalid JSON''), 1)
           | Some cmd \<Rightarrow>
               map_option (\<lambda>(w', r). (w', case r of Inr val \<Rightarrow> (Some val, 0)
                   | Inl (Err e) \<Rightarrow> (Some (WalletErrorResponse e), 1)
                   | Inl (Panic msg) \<Rightarrow> (None, 101)))
                 (wallet_dispatch E J entropy cmd w)))"

definition wallet_main ::
    "('f, 'o, 'w, 'n) bdk \<Rightarrow> 'v wallet_json \<Rightarrow> (nat \<Rightarrow> 'n surroundings) \<Rightarrow> str list \<Rightarrow> bytes \<Rightarrow> 'n world \<Rightarrow>
      ('n world \<times> 'f wallet_response list) option" where
  "wallet_main E J S args input w =
     (if \<exists>a\<in>set args. a = ascii ''--daemon'' then wallet_daemon E J S 0 (stdin_lines input) w
      else map_option (\<lambda>(w', out, _). (w', case out of None \<Rightarrow> [] | Some r \<Rightarrow> [r]))
             (wallet_single (surrounded E (S 0)) J (su_entropy (S 0)) input w))"

section \<open>The registry's wallet\<close>

text \<open>\<open>RegistryWallet\<close> of \<open>src/src/registry/wallet.rs\<close>: the same wallet library, at start.\<close>

definition generate_mnemonic :: "('f, 'o, 'w, 'n) bdk \<Rightarrow> bytes \<Rightarrow> failure + 'o" where
  "generate_mnemonic E entropy =
     map_err (\<lambda>_. Panic ''16 bytes should produce a valid mnemonic'') (bd_from_entropy E entropy)"

definition create_bdk_wallet :: "('f, 'o, 'w, 'n) bdk \<Rightarrow> 'o \<Rightarrow> failure + 'w" where
  "create_bdk_wallet E mnemonic =
     rbind (map_err Err (bd_master E mnemonic)) (\<lambda>xprv. map_err Err (bd_create E xprv))"

definition sync_bdk_wallet :: "('f, 'o, 'w, 'n) bdk \<Rightarrow> 'o \<Rightarrow> 'w \<Rightarrow> 'n \<Rightarrow> (failure + 'w) option" where
  "sync_bdk_wallet E rpc wallet node =
     (let tip = bd_checkpoint E wallet; emitter = bd_emitter E rpc node tip in
      map_option (\<lambda>r. rbind r (\<lambda>(wallet', emitter').
          rbind (map_err Err (bd_mempool E node emitter')) (\<lambda>update.
          Inr (bd_apply_unconfirmed E wallet' update))))
        (sync_blocks E node emitter wallet))"

definition derive_wallet_address :: "('f, 'o, 'w, 'n) bdk \<Rightarrow> 'o \<Rightarrow> failure + str \<times> bytes" where
  "derive_wallet_address E mnemonic =
     rbind (create_bdk_wallet E mnemonic) (\<lambda>bdk.
     let addr = bd_peek_external E bdk 0; script_bytes = bd_script_pubkey E addr in
     if length script_bytes < 34 then Inl (Panic ''range end index 34 out of range'')
     else (let xonly_bytes = take 32 (drop 2 script_bytes) in
     rbind (map_err Err (bd_parse_address E addr)) (\<lambda>_. Inr (addr, xonly_bytes))))"

definition registry_wallet_new ::
    "('f, 'o, 'w, 'n) bdk \<Rightarrow> ('f, 'c) client option \<Rightarrow> bytes \<Rightarrow> failure + ('f, 'c) wallet" where
  "registry_wallet_new E node_client entropy =
     rbind (generate_mnemonic E entropy) (\<lambda>mnemonic.
     rbind (map_err (\<lambda>_. Panic ''failed to derive wallet address'') (derive_wallet_address E mnemonic)) (\<lambda>(address, xonly_bytes).
     Inr \<lparr>wl_client = node_client, wl_mnemonic = bd_mnemonic_string E mnemonic, wl_address = address,
          wl_xonly = xonly_bytes\<rparr>))"

end
