(* ===== verification/Sample_Wallet.thy ===== *)
theory Sample_Wallet
  imports Wallet_Commands Sample_World
begin

text \<open>
  A concrete wallet library, node and JSON text for the witnesses of the wallet commands; no theorem
  about the program depends on it. The chain is a list of the values that its blocks pay to the
  wallet, a wallet is its checkpoint, the values it has seen, and the last index it revealed.
\<close>

section \<open>States as text\<close>

lemma utf8_valid_ascii: "\<forall>b\<in>set s. unat b < 128 \<Longrightarrow> utf8_valid s"
  by (induction s) (simp_all add: byte_in_def)

definition u64_of_be :: "bytes \<Rightarrow> u64" where "u64_of_be b = word_of_nat (be_val b)"

lemma u64_of_be_u64_be [simp]: "u64_of_be (u64_be w) = w"
  using u64_of_le_u64_le [of w] by (simp add: u64_of_le_def u64_le_def u64_of_be_def)

fun option_bytes :: "('a \<Rightarrow> bytes) \<Rightarrow> 'a option \<Rightarrow> bytes" where
  "option_bytes f None = []"
| "option_bytes f (Some x) = 1 # f x"

fun bytes_option :: "(bytes \<Rightarrow> 'a) \<Rightarrow> bytes \<Rightarrow> 'a option" where
  "bytes_option f [] = None"
| "bytes_option f (_ # b) = Some (f b)"

definition balance_bytes :: "cached_balance \<Rightarrow> bytes" where
  "balance_bytes c = u64_be (cb_confirmed c) @ u64_be (cb_unconfirmed c) @ u64_be (cb_total c)"

definition bytes_balance :: "bytes \<Rightarrow> cached_balance" where
  "bytes_balance b = \<lparr>cb_confirmed = u64_of_be (take 8 b), cb_unconfirmed = u64_of_be (take 8 (drop 8 b)),
     cb_total = u64_of_be (drop 16 b)\<rparr>"

lemma bytes_balance_bytes [simp]: "bytes_balance (balance_bytes c) = c"
  by (simp add: bytes_balance_def balance_bytes_def)

lemma bytes_option_bytes: "(\<And>x. g (f x) = x) \<Longrightarrow> bytes_option g (option_bytes f o') = o'"
  by (cases o') simp_all

definition state_fields :: "wallet_state \<Rightarrow> bytes list" where
  "state_fields s =
     [wt_mnemonic s, wt_wallet_name s, wt_descriptor s, wt_change_descriptor s, wt_address s,
      u32_be (wt_address_index s), wt_network s, option_bytes u32_be (wt_checkpoint_height s),
      option_bytes (\<lambda>h. h) (wt_checkpoint_hash s), option_bytes balance_bytes (wt_cached_balance s)]"

definition fields_state :: "bytes list \<Rightarrow> wallet_state" where
  "fields_state fs =
     \<lparr>wt_mnemonic = fs ! 0, wt_wallet_name = fs ! 1, wt_descriptor = fs ! 2, wt_change_descriptor = fs ! 3,
      wt_address = fs ! 4, wt_address_index = u32_of_be (fs ! 5), wt_network = fs ! 6,
      wt_checkpoint_height = bytes_option u32_of_be (fs ! 7), wt_checkpoint_hash = bytes_option (\<lambda>h. h) (fs ! 8),
      wt_cached_balance = bytes_option bytes_balance (fs ! 9)\<rparr>"

lemma fields_state_fields: "fields_state (state_fields s) = s"
  by (simp add: fields_state_def state_fields_def bytes_option_bytes)

definition state_text :: "wallet_state \<Rightarrow> str" where
  "state_text s = concat (map (\<lambda>f. sample_hex f @ [10]) (state_fields s))"

definition parse_state :: "str \<Rightarrow> wallet_state option" where
  "parse_state t =
     (case those (map sample_unhex (split_lines [] t)) of
        Some fs \<Rightarrow> if length fs = 10 then Some (fields_state fs) else None
      | None \<Rightarrow> None)"

lemma sample_hex_above: "b \<in> set (sample_hex xs) \<Longrightarrow> 47 < unat b"
proof -
  assume "b \<in> set (sample_hex xs)"
  then obtain x :: u8 where "b = hex_digit (unat x div 16) \<or> b = hex_digit (unat x mod 16)"
    by (auto simp: sample_hex_def)
  moreover have "unat x div 16 < 16"
    using unat_less_pow [of x] by simp
  ultimately show ?thesis
    by (auto simp: unat_hex_digit)
qed

lemma split_lines_hex: "split_lines [] (concat (map (\<lambda>f. sample_hex f @ [10]) fs)) = map sample_hex fs"
proof (induction fs)
  case Nil
  then show ?case by simp
next
  case (Cons f fs)
  have "10 \<notin> set (sample_hex f)" "13 \<notin> set (sample_hex f)"
    using sample_hex_above [of 10 f] sample_hex_above [of 13 f] by auto
  with Cons show ?case
    by (simp add: split_lines_line strip_cr_id)
qed

lemma those_unhex: "those (map (sample_unhex \<circ> sample_hex) fs) = Some fs"
  using sample_hex_laws by (induction fs) (simp_all add: hex_laws_def)

lemma parse_state_text: "parse_state (state_text s) = Some s"
proof -
  have "length (state_fields s) = 10"
    by (simp add: state_fields_def)
  then show ?thesis
    by (simp add: parse_state_def state_text_def split_lines_hex those_unhex fields_state_fields)
qed

lemma utf8_state_text: "utf8_valid (state_text s)"
  by (rule utf8_valid_ascii) (auto simp: state_text_def dest: sample_hex_ascii)

section \<open>The library and the node\<close>

type_synonym sample_bdk_wallet = "(u32 \<times> bytes) \<times> nat list \<times> u32"

definition sample_bdk :: "(nat, nat list, sample_bdk_wallet, nat list) bdk" where
  "sample_bdk =
     \<lparr>bd_readable = (\<lambda>_. True), bd_write = (\<lambda>_ _. Written), bd_parse_state = parse_state, bd_print_state = state_text,
      bd_from_entropy = (\<lambda>b. Inr (map unat b)), bd_parse_mnemonic = (\<lambda>s. Inr (map unat s)),
      bd_mnemonic_string = map word_of_nat, bd_master = Inr, bd_create = (\<lambda>_. Inr ((0, []), [], 0)),
      bd_descriptor = (\<lambda>_. Inr (ascii ''tr'')), bd_change_descriptor = (\<lambda>_. Inr (ascii ''tr'')),
      bd_peek_external = (\<lambda>_ i. replicate 32 97 @ show_nat (unat i)),
      bd_peek_internal = (\<lambda>_ i. replicate 32 98 @ show_nat (unat i)),
      bd_script_pubkey = (\<lambda>_. replicate 34 0),
      bd_reveal_to = (\<lambda>(cp, seen, _) i. (cp, seen, i)),
      bd_reveal_next = (\<lambda>(cp, seen, i). ((cp, seen, i + 1), i + 1, replicate 32 97 @ show_nat (unat (i + 1)))),
      bd_parse_hash = (\<lambda>s. sample_unhex (drop 12 s)), bd_hash_string = (\<lambda>b. replicate 12 48 @ sample_hex b),
      bd_checkpoint = fst, 
      bd_insert_checkpoint = (\<lambda>_ cp. if fst cp = 0 then Inl ''genesis'' else Inr (unat (fst cp) # map unat (snd cp))),
      bd_apply_update = (\<lambda>(_, seen, i) u. (((word_of_nat (hd u), map word_of_nat (tl u)), seen, i), Inr ())),
      bd_balance = (\<lambda>(_, seen, _). \<lparr>bb_confirmed = word_of_nat (sum_list seen), bb_trusted_pending = 0,
          bb_untrusted_pending = 0, bb_immature = 0\<rparr>),
      bd_client = (\<lambda>_ _ _. Inr []), bd_emitter = (\<lambda>_ _ cp. [unat (fst cp)]),
      bd_next_block = (\<lambda>n e. if hd e < length n then Inr (Some ([hd e + 1], [hd e + 1, n ! hd e])) else Inr None),
      bd_apply_block = (\<lambda>(_, seen, i) b. Inr ((word_of_nat (hd b), [word_of_nat (hd b)]), last b # seen, i)),
      bd_mempool = (\<lambda>_ _. Inr []), bd_apply_unconfirmed = (\<lambda>w _. w),
      bd_parse_address = (\<lambda>s. Inr (map unat s)), bd_build = (\<lambda>_ _ a. Inr [unat a]),
      bd_sign = (\<lambda>_ t. Inr (True, t)), bd_extract_tx = Inr, bd_txid_string = map word_of_nat,
      bd_transactions = (\<lambda>(_, seen, _). map (\<lambda>v. ([v], True)) seen),
      bd_sent_and_received = (\<lambda>_ t. (0, word_of_nat (hd t))),
      nd_send_raw = (\<lambda>_ _ n. (n, Inr ())), nd_generate = (\<lambda>_ b _ n. (n @ replicate (unat b) 50, Inr [])),
      nd_raw_tx = (\<lambda>_ _ _. Inr JNull), nd_scan_txout_set = (\<lambda>_ _ n. (n, Inr JNull)),
      f64_btc_to_sats = word_of_nat\<rparr>"

lemma sample_state_laws: "state_laws sample_bdk"
  by (simp add: state_laws_def sample_bdk_def parse_state_text utf8_state_text)

lemma sample_mnemonic_laws: "mnemonic_laws sample_bdk"
  by (auto simp: mnemonic_laws_def sample_bdk_def map_idI comp_def)

lemma sample_bdk_sel [simp]:
  "bd_readable sample_bdk = (\<lambda>_. True)" "bd_write sample_bdk = (\<lambda>_ _. Written)" "bd_print_state sample_bdk = state_text" "bd_parse_state sample_bdk = parse_state"
  by (simp_all add: sample_bdk_def)

definition sample_wallet_state :: wallet_state where
  "sample_wallet_state =
     \<lparr>wt_mnemonic = replicate 16 1, wt_wallet_name = ascii ''alice'', wt_descriptor = ascii ''tr'',
      wt_change_descriptor = ascii ''tr'', wt_address = [], wt_address_index = 0, wt_network = ascii ''regtest'',
      wt_checkpoint_height = None, wt_checkpoint_hash = None, wt_cached_balance = None\<rparr>"

definition sample_rpc :: rpc_params where
  "sample_rpc = \<lparr>rp_url = None, rp_user = None, rp_pass = None\<rparr>"

text \<open>One wallet file, and a chain whose second block pays 50 to the wallet.\<close>

definition sample_world :: "nat list world" where
  "sample_world = \<lparr>w_files = [[1] \<mapsto> state_text sample_wallet_state], w_node = [0, 50]\<rparr>"

end
