(* ===== verification/Wallet_Properties.thy ===== *)
theory Wallet_Properties
  imports Sample_Wallet
begin

text \<open>
  Properties of the wallet commands (theory Wallet_Commands): the synchronization loop, what no
  command changes of a stored wallet or of other files, and what the commands answer.
\<close>

section \<open>Loading and saving\<close>

text \<open>The state stored at a path.\<close>

definition wallet_at :: "('f, 'o, 'w, 'n) bdk \<Rightarrow> 'n world \<Rightarrow> str \<Rightarrow> wallet_state option" where
  "wallet_at E w path =
     (case w_files w path of None \<Rightarrow> None
      | Some data \<Rightarrow> if utf8_valid data then bd_parse_state E data else None)"

lemma load_wallet_state_cases:
  "load_wallet_state E path w =
     (case if bd_readable E path then wallet_at E w path else None of
        Some s \<Rightarrow> Some (w, Inr s)
      | None \<Rightarrow> Some (w, Inl (if bd_readable E path \<and> (\<exists>d. w_files w path = Some d \<and> utf8_valid d)
          then Err ''parse state'' else Err ''read state'')))"
  by (auto simp: load_wallet_state_def wallet_at_def cbind_def read_file_def clift_def from_utf8_def ok_or_def
      split: option.splits)

lemma load_wallet_state_Inr:
  "load_wallet_state E path w = Some (w', Inr s) \<longleftrightarrow> w' = w \<and> bd_readable E path \<and> wallet_at E w path = Some s"
  by (auto simp: load_wallet_state_cases split: option.splits)

lemma load_wallet_state_Inl:
  "load_wallet_state E path w = Some (w', Inl e) \<Longrightarrow> w' = w \<and> (bd_readable E path \<longrightarrow> wallet_at E w path = None)"
  by (auto simp: load_wallet_state_cases split: option.splits)

lemma wallet_at_node [simp]: "wallet_at E (w\<lparr>w_node := n\<rparr>) path = wallet_at E w path"
  by (simp add: wallet_at_def)

lemma save_wallet_state_cases:
  "save_wallet_state E path s w =
     (case bd_write E path (bd_print_state E s) of
        Written \<Rightarrow> Some (w\<lparr>w_files := (w_files w)(path \<mapsto> bd_print_state E s)\<rparr>, Inr ())
      | Refused \<Rightarrow> Some (w, Inl (Err ''write state''))
      | Cut n \<Rightarrow> Some (w\<lparr>w_files := (w_files w)(path \<mapsto> take n (bd_print_state E s))\<rparr>, Inl (Err ''write state'')))"
  by (simp add: save_wallet_state_def write_file_def)

lemma save_wallet_state_Inr:
  "save_wallet_state E path s w = Some (w', Inr u) \<longleftrightarrow>
     bd_write E path (bd_print_state E s) = Written \<and> w' = w\<lparr>w_files := (w_files w)(path \<mapsto> bd_print_state E s)\<rparr>"
  by (auto simp: save_wallet_state_cases split: write_outcome.split)

lemma wallet_at_saved:
  "state_laws E \<Longrightarrow> wallet_at E (w\<lparr>w_files := (w_files w)(path \<mapsto> bd_print_state E s)\<rparr>) q =
     (if q = path then Some s else wallet_at E w q)"
  by (simp add: wallet_at_def state_laws_def)

lemma wallet_at_other: "q \<noteq> path \<Longrightarrow> wallet_at E (w\<lparr>w_files := (w_files w)(path \<mapsto> d)\<rparr>) q = wallet_at E w q"
  by (simp add: wallet_at_def)

section \<open>The synchronization loop\<close>

text \<open>What the loop should do: apply the emitted blocks in their order. \<open>emitted k\<close> lists the events
  of the emitter up to \<open>k\<close> of them, with how it ended.\<close>

fun emitted :: "('f, 'o, 'w, 'n) bdk \<Rightarrow> 'n \<Rightarrow> nat \<Rightarrow> 'o \<Rightarrow> 'o list \<times> (failure + 'o)" where
  "emitted E node 0 e = ([], Inr e)"
| "emitted E node (Suc k) e =
     (case bd_next_block E node e of
        Inl err \<Rightarrow> ([], Inl (Err err))
      | Inr None \<Rightarrow> ([], Inr e)
      | Inr (Some (e', b)) \<Rightarrow> apfst (Cons b) (emitted E node k e'))"

fun apply_blocks :: "('f, 'o, 'w, 'n) bdk \<Rightarrow> 'w \<Rightarrow> 'o list \<Rightarrow> failure + 'w" where
  "apply_blocks E w [] = Inr w"
| "apply_blocks E w (b # bs) = rbind (map_err Err (bd_apply_block E w b)) (\<lambda>w'. apply_blocks E w' bs)"

text \<open>The emitter comes closer to its end with every block, by the measure \<open>m\<close>.\<close>

definition emitter_progress :: "('f, 'o, 'w, 'n) bdk \<Rightarrow> 'n \<Rightarrow> ('o \<Rightarrow> nat) \<Rightarrow> bool" where
  "emitter_progress E node m \<longleftrightarrow> (\<forall>e e' b. bd_next_block E node e = Inr (Some (e', b)) \<longrightarrow> m e' < m e)"

lemma sync_blocks_emitted:
  assumes "emitter_progress E node m" and "m e < k"
  shows "sync_blocks E node e w =
    Some (rbind (apply_blocks E w (fst (emitted E node k e))) (\<lambda>w'. rbind (snd (emitted E node k e)) (\<lambda>e'. Inr (w', e'))))"
  using assms(2)
proof (induction k arbitrary: e w)
  case 0
  then show ?case by simp
next
  case (Suc k)
  show ?case
  proof (cases "bd_next_block E node e")
    case (Inl err)
    then show ?thesis by (simp add: sync_blocks.simps)
  next
    case (Inr event)
    show ?thesis
    proof (cases event)
      case None
      then show ?thesis by (simp add: Inr sync_blocks.simps)
    next
      case (Some eb)
      obtain e' b where eb: "eb = (e', b)" by (cases eb)
      have less: "m e' < k"
        using Suc.prems assms(1) Inr Some eb by (fastforce simp: emitter_progress_def)
      show ?thesis
        by (subst sync_blocks.simps, cases "bd_apply_block E w b")
          (simp_all add: Inr Some eb Suc.IH [OF less])
    qed
  qed
qed

lemma sync_bdk_sync_wallet: "sync_bdk_wallet E rpc wallet node = sync_wallet E rpc wallet node"
  by (simp add: sync_bdk_wallet_def sync_wallet_def Let_def map_option_case)

lemma synchronized:
  assumes progress: "emitter_progress E node m"
    and k: "m (bd_emitter E rpc node (bd_checkpoint E wallet)) < k"
  shows "sync_wallet E rpc wallet node =
      Some (case emitted E node k (bd_emitter E rpc node (bd_checkpoint E wallet)) of (blocks, ending) \<Rightarrow>
        rbind (apply_blocks E wallet blocks) (\<lambda>wallet'. rbind ending (\<lambda>e.
        rbind (map_err Err (bd_mempool E node e)) (\<lambda>update. Inr (bd_apply_unconfirmed E wallet' update)))))"
proof -
  define e where "e = bd_emitter E rpc node (bd_checkpoint E wallet)"
  obtain bs r where em: "emitted E node k e = (bs, r)"
    by (cases "emitted E node k e")
  have loop: "sync_blocks E node e wallet = Some (rbind (apply_blocks E wallet bs) (\<lambda>w'. rbind r (\<lambda>e'. Inr (w', e'))))"
    using sync_blocks_emitted [OF progress] k em by (simp add: e_def)
  have "sync_wallet E rpc wallet node =
      Some (case emitted E node k e of (blocks, ending) \<Rightarrow>
        rbind (apply_blocks E wallet blocks) (\<lambda>wallet'. rbind ending (\<lambda>e.
        rbind (map_err Err (bd_mempool E node e)) (\<lambda>update. Inr (bd_apply_unconfirmed E wallet' update)))))"
    by (cases "apply_blocks E wallet bs"; cases r)
      (simp_all add: sync_wallet_def Let_def e_def [symmetric] loop em)
  then show ?thesis
    by (simp add: e_def)
qed

text \<open>C20. Synchronization ends, and does what it should. When the emitter, asked for block after
  block, comes closer to the tip of a node that stands still, the loop returns, and its result is
  that of applying the emitted blocks in order and then the mempool; the registry's wallet runs
  the same loop.\<close>

theorem sync_terminates:
  assumes progress: "emitter_progress E node m"
    and k: "m (bd_emitter E rpc node (bd_checkpoint E wallet)) < k"
  shows "sync_wallet E rpc wallet node =
      Some (case emitted E node k (bd_emitter E rpc node (bd_checkpoint E wallet)) of (blocks, ending) \<Rightarrow>
        rbind (apply_blocks E wallet blocks) (\<lambda>wallet'. rbind ending (\<lambda>e.
        rbind (map_err Err (bd_mempool E node e)) (\<lambda>update. Inr (bd_apply_unconfirmed E wallet' update))))) \<and>
    sync_bdk_wallet E rpc wallet node = sync_wallet E rpc wallet node"
  by (rule conjI [OF synchronized [OF assms] sync_bdk_sync_wallet])

section \<open>What a command keeps of the state files\<close>

text \<open>The fields that make the wallet: whoever holds them holds the funds.\<close>

definition same_wallet :: "wallet_state \<Rightarrow> wallet_state \<Rightarrow> bool" where
  "same_wallet s s' \<longleftrightarrow>
     wt_mnemonic s' = wt_mnemonic s \<and> wt_wallet_name s' = wt_wallet_name s \<and>
     wt_descriptor s' = wt_descriptor s \<and> wt_change_descriptor s' = wt_change_descriptor s \<and>
     wt_network s' = wt_network s"

lemma same_wallet_refl [simp]: "same_wallet s s"
  by (simp add: same_wallet_def)

lemma same_wallet_trans: "same_wallet s s' \<Longrightarrow> same_wallet s' s'' \<Longrightarrow> same_wallet s s''"
  by (simp add: same_wallet_def)

lemma same_wallet_update [simp]:
  "same_wallet s (s\<lparr>wt_checkpoint_height := h, wt_checkpoint_hash := b\<rparr>)"
  "same_wallet s (s\<lparr>wt_checkpoint_height := h, wt_checkpoint_hash := b, wt_cached_balance := c\<rparr>)"
  "same_wallet s (s\<lparr>wt_address_index := i, wt_address := a\<rparr>)"
  "same_wallet s (s\<lparr>wt_cached_balance := c\<rparr>)"
  by (simp_all add: same_wallet_def)

text \<open>An invariant \<open>I\<close> of the world that the commands on the paths in \<open>may\<close> keep: a state loaded
  from a path is in \<open>S\<close> of that path, a state in \<open>S\<close> can be saved there, the fields that the
  commands update do not matter to \<open>S\<close>, and where no state loads any state may be saved.\<close>

locale wallet_invariant =
  fixes E :: "('f, 'o, 'w, 'n) bdk" and I :: "'n world \<Rightarrow> bool" and may :: "str \<Rightarrow> bool"
    and S :: "str \<Rightarrow> wallet_state \<Rightarrow> bool"
  assumes load: "may p \<Longrightarrow> I w \<Longrightarrow> wallet_at E w p = Some s \<Longrightarrow> S p s"
    and save: "may p \<Longrightarrow> S p s \<Longrightarrow> maintains I (save_wallet_state E p s) (\<lambda>_. True)"
    and node: "I w \<Longrightarrow> I (w\<lparr>w_node := n\<rparr>)"
    and update: "S p s \<Longrightarrow> same_wallet s s' \<Longrightarrow> S p s'"
    and create: "may p \<Longrightarrow> I w \<Longrightarrow> \<not> bd_readable E p \<or> wallet_at E w p = None \<Longrightarrow> S p s"
begin

lemma loads: "may p \<Longrightarrow> maintains I (load_wallet_state E p) (S p)"
  unfolding maintains_def
  using load by (auto simp: load_wallet_state_Inr load_wallet_state_cases split: option.splits)

lemma calls: "maintains I (ccall f) (\<lambda>_. True)"
  using node by blast

lemma syncs: "maintains I (csync E rpc wallet) (\<lambda>_. True)"
  unfolding csync_def by (rule maintains_bind [where Q = "\<lambda>_. True"]) blast+

lemma lifts: "maintains I (clift r) (\<lambda>_. True)"
  by blast

lemma rets: "maintains I (cret x) (\<lambda>_. True)"
  by blast

lemmas steps = loads calls syncs lifts rets

lemma save_checkpoint: "may p \<Longrightarrow> maintains I (save_checkpoint E p wallet) (\<lambda>_. True)"
  unfolding save_checkpoint_def Let_def
  by (rule maintains_bind [OF loads], assumption, rule maintains_bind [OF save], assumption)
    (auto intro: update)

lemma get_balance: "may (gb_state_path p) \<Longrightarrow> maintains I (handle_get_balance E p) (\<lambda>_. True)"
  unfolding handle_get_balance_def Let_def
  by (intro maintains_bind [OF loads] maintains_bind [OF lifts] maintains_bind [OF syncs]
      maintains_bind [OF maintains_ignore [OF save]] rets)
    (auto intro: update)

lemma get_address: "may (ga_state_path p) \<Longrightarrow> maintains I (handle_get_address E p) (\<lambda>_. True)"
  unfolding handle_get_address_def Let_def case_prod_beta
  by (intro maintains_bind [OF loads] maintains_bind [OF lifts] maintains_bind [OF save] rets)
    (auto intro: update)

lemma resync: "may p \<Longrightarrow> maintains I (resync_from_genesis E rpc p) (\<lambda>_. True)"
  unfolding resync_from_genesis_def Let_def
  by (intro maintains_bind [OF loads] maintains_bind [OF lifts] maintains_bind [OF save] maintains_bind [OF syncs]
      maintains_bind [OF maintains_ignore [OF save_checkpoint]] rets)
    (auto intro: update)

lemma sends: "maintains I (send_tx E rpc p wallet) (\<lambda>_. True)"
  unfolding send_tx_def case_prod_beta
  by (intro maintains_bind [OF lifts] maintains_if maintains_bind [OF calls] lifts rets)

lemma send: "may (sp_state_path p) \<Longrightarrow> maintains I (handle_send E p) (\<lambda>_. True)"
  unfolding handle_send_def Let_def
  by (intro maintains_bind [OF loads] maintains_bind [OF lifts] maintains_bind [OF syncs]
      maintains_bind [OF maintains_ignore [OF save_checkpoint]]
      maintains_bind [OF maintains_if, where Q = "\<lambda>_. True"] resync rets sends)

lemma get_tx_history: "may (gh_state_path p) \<Longrightarrow> maintains I (handle_get_tx_history E p) (\<lambda>_. True)"
  unfolding handle_get_tx_history_def
  by (intro maintains_bind [OF loads] maintains_bind [OF lifts] maintains_bind [OF syncs]
      maintains_bind [OF maintains_ignore [OF save_checkpoint]] rets)

lemma cache_balance: "may p \<Longrightarrow> maintains I (cache_balance E p sats) (\<lambda>_. True)"
  unfolding cache_balance_def
  by (intro maintains_bind [OF loads] save) (auto intro: update)

lemma get_balance_fast: "may (gb_state_path p) \<Longrightarrow> maintains I (handle_get_balance_fast E p) (\<lambda>_. True)"
  unfolding handle_get_balance_fast_def Let_def
  by (intro maintains_bind [OF loads] maintains_bind [OF lifts] maintains_bind [OF calls]
      maintains_bind [OF maintains_ignore [OF cache_balance]] rets)

lemma faucet: "maintains I (handle_faucet E p) (\<lambda>_. True)"
  unfolding handle_faucet_def Let_def
  by (intro maintains_bind [OF lifts] maintains_bind [OF calls] rets)

lemma get_tx: "maintains I (handle_get_tx E p) (\<lambda>_. True)"
  unfolding handle_get_tx_def by (intro maintains_bind [OF lifts] maintains_bind [OF calls] rets)

end

text \<open>The state paths that the parameters of a command name.\<close>

definition state_paths :: "'v wallet_json \<Rightarrow> 'v \<Rightarrow> str list" where
  "state_paths J v =
     (case wj_create_wallet J v of None \<Rightarrow> [] | Some p \<Rightarrow> [cw_state_path p]) @
     (case wj_get_balance J v of None \<Rightarrow> [] | Some p \<Rightarrow> [gb_state_path p]) @
     (case wj_get_address J v of None \<Rightarrow> [] | Some p \<Rightarrow> [ga_state_path p]) @
     (case wj_send J v of None \<Rightarrow> [] | Some p \<Rightarrow> [sp_state_path p]) @
     (case wj_get_tx_history J v of None \<Rightarrow> [] | Some p \<Rightarrow> [gh_state_path p])"

text \<open>Every command that the parser can deliver names paths in \<open>may\<close> only.\<close>

definition confined :: "'v wallet_json \<Rightarrow> (str \<Rightarrow> bool) \<Rightarrow> bool" where
  "confined J may \<longleftrightarrow> (\<forall>line cmd. wj_command J line = Some cmd \<longrightarrow> (\<forall>p\<in>set (state_paths J (wc_params cmd)). may p))"

context wallet_invariant begin

lemma create_new:
  "may (cw_state_path p) \<Longrightarrow> \<forall>s. S (cw_state_path p) s \<Longrightarrow> maintains I (create_new_wallet E entropy p) (\<lambda>_. True)"
  unfolding create_new_wallet_def Let_def
  by (intro maintains_bind [OF lifts] maintains_bind [OF save] rets) auto

lemma create_wallet: "may (cw_state_path p) \<Longrightarrow> maintains I (handle_create_wallet E entropy p) (\<lambda>_. True)"
proof (unfold maintains_def, intro allI impI conjI TrueI)
  fix w w' r
  assume may: "may (cw_state_path p)" and I: "I w" and run: "handle_create_wallet E entropy p w = Some (w', r)"
  show "I w'"
  proof (cases "if bd_readable E (cw_state_path p) then wallet_at E w (cw_state_path p) else None")
    case None
    then have "create_new_wallet E entropy p w = Some (w', r)"
      using run by (simp add: handle_create_wallet_def load_wallet_state_cases)
    moreover have "\<not> bd_readable E (cw_state_path p) \<or> wallet_at E w (cw_state_path p) = None"
      using None by (auto split: if_splits)
    ultimately show ?thesis
      using maintainsD [OF create_new I] may create [OF may I] by blast
  next
    case (Some s)
    with run I show ?thesis
      by (simp add: handle_create_wallet_def load_wallet_state_cases)
  qed
qed

lemma params: "(\<And>q. from v = Some q \<Longrightarrow> maintains I (h q) (\<lambda>_. True)) \<Longrightarrow> maintains I (cparams from h v) (\<lambda>_. True)"
  unfolding cparams_def by (cases "from v") (auto intro: maintains_bind)

lemma dispatch: "\<forall>p\<in>set (state_paths J (wc_params cmd)). may p \<Longrightarrow> maintains I (wallet_dispatch E J entropy cmd) (\<lambda>_. True)"
  unfolding wallet_dispatch_def Let_def
  by (intro maintains_if params create_wallet get_balance get_balance_fast get_address send faucet get_tx
      get_tx_history rets lifts) (auto simp: state_paths_def)

lemma answer:
  assumes "confined J may" "I w" "wallet_answer E J entropy line w = Some (w', out)"
  shows "I w'"
proof (cases "wj_command J line")
  case None
  then show ?thesis
    using assms(2,3) by (simp add: wallet_answer_def)
next
  case (Some cmd)
  then have "\<forall>p\<in>set (state_paths J (wc_params cmd)). may p"
    using assms(1) by (simp add: confined_def)
  moreover obtain r where "wallet_dispatch E J entropy cmd w = Some (w', r)"
    using assms(3) Some by (auto simp: wallet_answer_def)
  ultimately show ?thesis
    using maintainsD [OF dispatch assms(2)] by blast
qed

end

text \<open>What every command keeps, whatever surrounds it, the daemon keeps.\<close>

lemma daemon_keeps:
  assumes step: "\<And>k line v v' out. I v \<Longrightarrow>
      wallet_answer (surrounded E (S k)) J (su_entropy (S k)) line (v\<lparr>w_node := su_node (S k) (w_node v)\<rparr>) = Some (v', out) \<Longrightarrow> I v'"
    and "I w" and "wallet_daemon E J S k reads w = Some (w', outs)"
  shows "I w'"
  using assms(2,3)
proof (induction reads arbitrary: k w outs)
  case Nil
  then show ?case by simp
next
  case (Cons read reads)
  show ?case
  proof (cases read)
    case (Inl e)
    with Cons.prems show ?thesis by simp
  next
    case (Inr line)
    note kept = step [OF Cons.prems(1), of k line]
    with Inr Cons.prems Cons.IH show ?thesis
      by (auto split: if_splits option.splits)
  qed
qed

lemma wallet_at_surrounded [simp]: "wallet_at (surrounded E s) = wallet_at E"
  by (intro ext) (simp add: wallet_at_def surrounded_def cong: option.case_cong if_cong)

lemma state_laws_surrounded [simp]: "state_laws (surrounded E s) = state_laws E"
  by (simp add: state_laws_def surrounded_def)

text \<open>Commands change no file but the state files they are given: the files outside \<open>may\<close> are
  as they were.\<close>

definition same_files :: "(str \<rightharpoonup> bytes) \<Rightarrow> (str \<Rightarrow> bool) \<Rightarrow> 'n world \<Rightarrow> bool" where
  "same_files F may w \<longleftrightarrow> (\<forall>q. \<not> may q \<longrightarrow> w_files w q = F q)"

interpretation files: wallet_invariant E "same_files F may" may "\<lambda>_ _. True"
  for E :: "('f, 'o, 'w, 'n) bdk" and F may
  by unfold_locales
    (auto simp: maintains_def same_files_def save_wallet_state_cases split: write_outcome.splits)

text \<open>A wallet once stored stays: \<open>M\<close> are the states stored at some moment, at paths that can be read
  and where no write stops half-way.\<close>

definition steady :: "('f, 'o, 'w, 'n) bdk \<Rightarrow> str \<Rightarrow> bool" where
  "steady E p \<longleftrightarrow> bd_readable E p \<and> (\<forall>d n. bd_write E p d \<noteq> Cut n)"

definition wallets_stored :: "('f, 'o, 'w, 'n) bdk \<Rightarrow> (str \<rightharpoonup> wallet_state) \<Rightarrow> 'n world \<Rightarrow> bool" where
  "wallets_stored E M w \<longleftrightarrow>
     state_laws E \<and> (\<forall>p s. M p = Some s \<longrightarrow> (\<exists>s'. wallet_at E w p = Some s' \<and> same_wallet s s'))"

definition wallets_kept :: "('f, 'o, 'w, 'n) bdk \<Rightarrow> (str \<rightharpoonup> wallet_state) \<Rightarrow> 'n world \<Rightarrow> bool" where
  "wallets_kept E M w \<longleftrightarrow> wallets_stored E M w \<and> (\<forall>p\<in>dom M. steady E p)"

lemma wallets_stored_surrounded [simp]: "wallets_stored (surrounded E s) M = wallets_stored E M"
  by (intro ext) (simp add: wallets_stored_def)

interpretation wallets: wallet_invariant E "wallets_kept E M" "\<lambda>_. True"
    "\<lambda>p s'. \<forall>s. M p = Some s \<longrightarrow> same_wallet s s'"
  for E :: "('f, 'o, 'w, 'n) bdk" and M
proof
  fix p s
  assume S: "\<forall>s0. M p = Some s0 \<longrightarrow> same_wallet s0 s"
  show "maintains (wallets_kept E M) (save_wallet_state E p s) (\<lambda>_. True)"
    unfolding maintains_def
  proof (intro allI impI conjI TrueI)
    fix w w' r
    assume kept: "wallets_kept E M w" and run: "save_wallet_state E p s w = Some (w', r)"
    show "wallets_kept E M w'"
    proof (cases "bd_write E p (bd_print_state E s)")
      case Written
      then show ?thesis
        using kept run S by (auto simp: wallets_kept_def wallets_stored_def wallet_at_saved save_wallet_state_cases)
    next
      case Refused
      then show ?thesis
        using kept run by (simp add: save_wallet_state_cases)
    next
      case (Cut n)
      then have "M p = None"
        using kept by (cases "M p") (auto simp: wallets_kept_def steady_def)
      then have "wallet_at E w' q = wallet_at E w q" if "M q = Some s0" for q s0
        using that run Cut by (cases "q = p") (auto simp: wallet_at_other save_wallet_state_cases)
      then show ?thesis
        using kept by (simp add: wallets_kept_def wallets_stored_def)
    qed
  qed
next
  show "\<forall>s. M p = Some s \<longrightarrow> same_wallet s s'" if "wallets_kept E M w" "wallet_at E w p = Some s'" for p w s'
    using that by (fastforce simp: wallets_kept_def wallets_stored_def)
  show "\<forall>s. M p = Some s \<longrightarrow> same_wallet s s'"
    if "wallets_kept E M w" "\<not> bd_readable E p \<or> wallet_at E w p = None" for p w s'
    using that by (fastforce simp: wallets_kept_def wallets_stored_def steady_def)
qed (auto simp: wallets_kept_def wallets_stored_def intro: same_wallet_trans)

lemma wallets_keptD:
  "wallets_kept E M w \<Longrightarrow> M p = Some s0 \<Longrightarrow> wallet_at E w p = Some s \<Longrightarrow> same_wallet s0 s"
  unfolding wallets_kept_def wallets_stored_def by fastforce

text \<open>C17. No command loses a wallet. Whatever lines the daemon is sent, whatever they answer, fail or
  panic, however the node changes between the commands and whatever files cannot be read or written
  at one command or another: a state file that held a wallet holds one with the same mnemonic, name,
  descriptors and network afterwards, unless that file cannot be read at some command or a write of
  it stops half-way (see \<open>cut_write_loses_wallet\<close>), and files that no command names are unchanged.\<close>

theorem wallets_never_lost:
  assumes "state_laws E" and "wallet_daemon E J S k reads w = Some (w', outs)"
  shows "(\<forall>p s. wallet_at E w p = Some s \<longrightarrow> (\<forall>i. steady (surrounded E (S i)) p) \<longrightarrow>
      (\<exists>s'. wallet_at E w' p = Some s' \<and> same_wallet s s')) \<and>
    (\<forall>q. (\<forall>line cmd. wj_command J line = Some cmd \<longrightarrow> q \<notin> set (state_paths J (wc_params cmd))) \<longrightarrow>
       w_files w' q = w_files w q)"
proof -
  let ?M = "\<lambda>p. if \<forall>i. steady (surrounded E (S i)) p then wallet_at E w p else None"
  have kept: "wallets_kept (surrounded E (S i)) ?M v \<longleftrightarrow> wallets_stored E ?M v" for i v
    by (auto simp: wallets_kept_def split: if_splits)
  have "wallets_stored E ?M w'"
  proof (rule daemon_keeps [OF _ _ assms(2)])
    show "wallets_stored E ?M w"
      using assms(1) by (simp add: wallets_stored_def)
    fix i line v v' out
    assume "wallets_stored E ?M v" and run: "wallet_answer (surrounded E (S i)) J (su_entropy (S i)) line
      (v\<lparr>w_node := su_node (S i) (w_node v)\<rparr>) = Some (v', out)"
    then have "wallets_kept (surrounded E (S i)) ?M (v\<lparr>w_node := su_node (S i) (w_node v)\<rparr>)"
      unfolding kept by (simp add: wallets_stored_def)
    then show "wallets_stored E ?M v'"
      unfolding kept [of i, symmetric] by (intro wallets.answer [OF _ _ run]) (simp_all add: confined_def)
  qed
  moreover have "same_files (w_files w) (\<lambda>q. \<exists>line cmd. wj_command J line = Some cmd \<and> q \<in> set (state_paths J (wc_params cmd))) w'"
  proof (rule daemon_keeps [OF _ _ assms(2)])
    fix i line v v' out
    assume "same_files (w_files w) (\<lambda>q. \<exists>line cmd. wj_command J line = Some cmd \<and> q \<in> set (state_paths J (wc_params cmd))) v"
      and run: "wallet_answer (surrounded E (S i)) J (su_entropy (S i)) line
        (v\<lparr>w_node := su_node (S i) (w_node v)\<rparr>) = Some (v', out)"
    then show "same_files (w_files w) (\<lambda>q. \<exists>line cmd. wj_command J line = Some cmd \<and> q \<in> set (state_paths J (wc_params cmd))) v'"
      by (intro files.answer [OF _ _ run]) (auto simp: same_files_def confined_def)
  qed (simp add: same_files_def)
  ultimately show ?thesis
    by (auto simp: wallets_stored_def same_files_def)
qed

section \<open>Creating a wallet\<close>

text \<open>Creating a wallet is idempotent, as long as the file can be read. Once \<open>create-wallet\<close> has answered, every further one for
  that path, under whatever name and with whatever entropy, answers the address, mnemonic and
  name that the file holds, marks them as existing, and changes nothing.\<close>

theorem create_wallet_idempotent:
  assumes "state_laws E" and "handle_create_wallet E entropy p w = Some (w', Inr (WalletCreated a m n x))"
    and "cw_state_path q = cw_state_path p" and readable: "bd_readable E (cw_state_path p)"
  shows "handle_create_wallet E entropy' q w' = Some (w', Inr (WalletCreated a m n (Some True))) \<and>
    (x = Some True \<and> w' = w \<or> x = None \<and> wallet_at E w (cw_state_path p) = None \<and> n = cw_name p)"
proof (cases "wallet_at E w (cw_state_path p)")
  case (Some s)
  then show ?thesis
    using assms(2,3) readable by (auto simp: handle_create_wallet_def load_wallet_state_cases)
next
  case None
  then have "create_new_wallet E entropy p w = Some (w', Inr (WalletCreated a m n x))"
    using assms(2) readable by (simp add: handle_create_wallet_def load_wallet_state_cases)
  then obtain s where w': "w' = w\<lparr>w_files := (w_files w)(cw_state_path p \<mapsto> bd_print_state E s)\<rparr>"
    and s: "wt_address s = a" "wt_mnemonic s = m" "wt_wallet_name s = n" "n = cw_name p" "x = None"
    by (auto simp: create_new_wallet_def cbind_Inr Let_def save_wallet_state_Inr)
  have "wallet_at E w' (cw_state_path p) = Some s"
    using wallet_at_saved [OF assms(1), of w "cw_state_path p" s "cw_state_path p"] by (simp add: w')
  then show ?thesis
    using None s assms(3) readable by (simp add: handle_create_wallet_def load_wallet_state_cases)
qed

section \<open>Balances\<close>

text \<open>What BDK documents of a wallet made from keys alone, with nothing persisted: with addresses
  revealed, a checkpoint above the genesis block can be inserted and applied; the wallet then has that
  checkpoint and no balance, and unconfirmed transactions change neither the checkpoint nor the confirmed
  balance. No transactions change nothing. A block hash reads back from its text, which is long
  hexadecimal.\<close>

definition fresh_wallet_laws :: "('f, 'o, 'w, 'n) bdk \<Rightarrow> bool" where
  "fresh_wallet_laws E \<longleftrightarrow>
     (\<forall>k w i cp. bd_create E k = Inr w \<longrightarrow> 0 < fst cp \<longrightarrow>
        (\<exists>u v. bd_insert_checkpoint E (bd_reveal_to E w i) cp = Inr u \<and>
           bd_apply_update E (bd_reveal_to E w i) u = (v, Inr ()) \<and> unconfirmed_of (bd_balance E v) = 0 \<and>
           (\<forall>txs. bd_checkpoint E (bd_apply_unconfirmed E v txs) = cp \<and>
              bb_confirmed (bd_balance E (bd_apply_unconfirmed E v txs)) = 0))) \<and>
     (\<forall>b. bd_parse_hash E (bd_hash_string E b) = Some b \<and> 12 \<le> length (bd_hash_string E b) \<and>
        ascii_only (bd_hash_string E b)) \<and>
     (\<forall>w. bd_apply_unconfirmed E w [] = w)"

text \<open>The node has no block after a checkpoint, and this in its mempool.\<close>

definition no_block_after :: "('f, 'o, 'w, 'n) bdk \<Rightarrow> 'o \<Rightarrow> 'n \<Rightarrow> u32 \<times> bytes \<Rightarrow> bool" where
  "no_block_after E rpc n cp \<longleftrightarrow> bd_next_block E n (bd_emitter E rpc n cp) = Inr None"

definition pending_after :: "('f, 'o, 'w, 'n) bdk \<Rightarrow> 'o \<Rightarrow> 'n \<Rightarrow> u32 \<times> bytes \<Rightarrow> string + 'o list" where
  "pending_after E rpc n cp = bd_mempool E n (bd_emitter E rpc n cp)"

lemma sync_no_block:
  assumes "bd_checkpoint E wallet = cp" "no_block_after E rpc n cp" "pending_after E rpc n cp = Inr txs"
  shows "sync_wallet E rpc wallet n = Some (Inr (bd_apply_unconfirmed E wallet txs))"
proof -
  have "sync_blocks E n (bd_emitter E rpc n cp) wallet = Some (Inr (wallet, bd_emitter E rpc n cp))"
    using assms(2) by (subst sync_blocks.simps) (simp add: no_block_after_def)
  then show ?thesis
    using assms by (simp add: sync_wallet_def Let_def pending_after_def)
qed

lemma recreate_wallet_at_checkpoint:
  assumes "fresh_wallet_laws E" "recreate_wallet E s = Inr v" "same_wallet s s'"
    and "wt_checkpoint_height s' = Some h" "wt_checkpoint_hash s' = Some (bd_hash_string E b)" "0 < h"
  obtains v' where "recreate_wallet E s' = Inr v'" "unconfirmed_of (bd_balance E v') = 0"
    "\<And>txs. bd_checkpoint E (bd_apply_unconfirmed E v' txs) = (h, b)"
    "\<And>txs. bb_confirmed (bd_balance E (bd_apply_unconfirmed E v' txs)) = 0"
proof -
  obtain m k w where keys: "bd_parse_mnemonic E (wt_mnemonic s) = Inr m" "bd_master E m = Inr k" "bd_create E k = Inr w"
    using assms(2) by (auto simp: recreate_wallet_def rbind_Inr_iff)
  obtain u v' where v': "bd_insert_checkpoint E (bd_reveal_to E w (wt_address_index s')) (h, b) = Inr u"
      "bd_apply_update E (bd_reveal_to E w (wt_address_index s')) u = (v', Inr ())"
      "unconfirmed_of (bd_balance E v') = 0"
      "\<And>txs. bd_checkpoint E (bd_apply_unconfirmed E v' txs) = (h, b)"
      "\<And>txs. bb_confirmed (bd_balance E (bd_apply_unconfirmed E v' txs)) = 0"
    using assms(1,6) keys(3) unfolding fresh_wallet_laws_def by (metis fst_conv)
  have "str_prefix 12 (bd_hash_string E b) = Inr (take 12 (bd_hash_string E b))"
    using assms(1) by (intro str_prefix_ascii) (simp_all add: fresh_wallet_laws_def)
  then have "recreate_wallet E s' = Inr v'"
    using keys v' assms by (simp add: recreate_wallet_def Let_def same_wallet_def fresh_wallet_laws_def)
  then show ?thesis
    using that v' by blast
qed

text \<open>C18. A confirmed balance is forgotten by asking for it. Let a \<open>get-balance\<close> have saved its checkpoint, above
  the genesis block, in a file that can be written, and let the node have no block after it. Then the next
  \<open>get-balance\<close> answers and caches a confirmed balance of zero, whatever the first one found: the wallet
  is made anew without its coins, and the synchronization starts above the blocks that pay it. It counts
  only what is pending in the mempool now, so with no pending transaction it answers zero throughout.\<close>

theorem get_balance_forgets:
  assumes laws: "state_laws E" "fresh_wallet_laws E"
    and first: "handle_get_balance E p w = Some (w', Inr (BalanceResponse c u t))"
    and saved: "wallet_at E w' (gb_state_path p) = Some s" "wt_checkpoint_height s = Some h"
      "wt_checkpoint_hash s = Some (bd_hash_string E b)" "0 < h"
    and writable: "\<forall>d. bd_write E (gb_state_path p) d = Written"
    and rpc: "rpc_of E (gb_rpc p) = Inr rpc" and quiet: "no_block_after E rpc (w_node w') (h, b)"
    and pending: "pending_after E rpc (w_node w') (h, b) = Inr txs"
  shows "\<exists>w'' v x s'. recreate_wallet E s = Inr v \<and>
    x = unconfirmed_of (bd_balance E (bd_apply_unconfirmed E v txs)) \<and> (txs = [] \<longrightarrow> x = 0) \<and>
    handle_get_balance E p w' = Some (w'', Inr (BalanceResponse 0 x x)) \<and>
    wallet_at E w'' (gb_state_path p) = Some s' \<and>
    wt_cached_balance s' = Some \<lparr>cb_confirmed = 0, cb_unconfirmed = x, cb_total = x\<rparr> \<and>
    wt_checkpoint_height s' = Some h \<and> wt_checkpoint_hash s' = Some (bd_hash_string E b)"
proof -
  obtain s0 v where s0: "wallet_at E w (gb_state_path p) = Some s0" and v: "recreate_wallet E s0 = Inr v"
    and readable: "bd_readable E (gb_state_path p)"
    using first by (auto simp: handle_get_balance_def cbind_Inr load_wallet_state_Inr)
  then have whole: "steady E (gb_state_path p)"
    using writable by (simp add: steady_def)
  have "wallets_kept E [gb_state_path p \<mapsto> s0] w'"
    by (rule maintainsD [OF wallets.get_balance _ first]) (simp_all add: wallets_kept_def wallets_stored_def laws(1) s0 whole)
  then have same: "same_wallet s0 s"
    by (rule wallets_keptD [OF _ _ saved(1)]) simp
  obtain v' where again: "recreate_wallet E s = Inr v'" and none: "unconfirmed_of (bd_balance E v') = 0"
    and v': "\<And>txs. bd_checkpoint E (bd_apply_unconfirmed E v' txs) = (h, b)"
      "\<And>txs. bb_confirmed (bd_balance E (bd_apply_unconfirmed E v' txs)) = 0"
    using recreate_wallet_at_checkpoint [OF laws(2) v same saved(2-4)] by blast
  have keep: "bd_apply_unconfirmed E v' [] = v'"
    using laws(2) by (simp add: fresh_wallet_laws_def)
  have sync: "sync_wallet E rpc v' (w_node w') = Some (Inr (bd_apply_unconfirmed E v' txs))"
    using sync_no_block [OF _ quiet pending] v'(1) [of "[]"] keep by simp
  define x where "x = unconfirmed_of (bd_balance E (bd_apply_unconfirmed E v' txs))"
  define s' where "s' = s\<lparr>wt_checkpoint_height := Some h, wt_checkpoint_hash := Some (bd_hash_string E b),
    wt_cached_balance := Some \<lparr>cb_confirmed = 0, cb_unconfirmed = x, cb_total = x\<rparr>\<rparr>"
  define w'' where "w'' = w'\<lparr>w_files := (w_files w')(gb_state_path p \<mapsto> bd_print_state E s')\<rparr>"
  have "handle_get_balance E p w' = Some (w'', Inr (BalanceResponse 0 x x))"
    using writable readable rpc again sync v' saved(1)
    by (simp add: handle_get_balance_def cbind_def load_wallet_state_cases clift_def csync_def cnode_def cloop_def
        cignore_def save_wallet_state_cases cret_def Let_def x_def s'_def w''_def)
  moreover have "wallet_at E w'' (gb_state_path p) = Some s'"
    using wallet_at_saved [OF laws(1)] by (simp add: w''_def)
  moreover have "txs = [] \<longrightarrow> x = 0"
    using keep none by (simp add: x_def)
  ultimately show ?thesis
    using again by (auto simp: s'_def x_def)
qed

section \<open>Writes that stop half-way\<close>

lemma wallet_at_write [simp]: "wallet_at (E\<lparr>bd_write := io\<rparr>) = wallet_at E"
  by (intro ext) (simp add: wallet_at_def cong: option.case_cong if_cong)

lemma wallet_at_cut:
  "bd_parse_state E (take n d) = None \<Longrightarrow> wallet_at E (w\<lparr>w_files := (w_files w)(path \<mapsto> take n d)\<rparr>) path = None"
  by (simp add: wallet_at_def)

lemma get_balance_writes:
  assumes "handle_get_balance E p w = Some (w', Inr resp)" and "\<forall>d. bd_write E (gb_state_path p) d = Cut n"
  shows "(\<exists>s. wallet_at E w (gb_state_path p) = Some s) \<and>
    (\<exists>s. w' = w\<lparr>w_files := (w_files w)(gb_state_path p \<mapsto> take n (bd_print_state E s))\<rparr>)"
  using assms
  by (auto simp: handle_get_balance_def cbind_Inr load_wallet_state_Inr csync_def Let_def cignore_Some save_wallet_state_cases)

lemma create_wallet_anew:
  assumes "handle_create_wallet E entropy q w = Some (w', Inr r)"
    and "\<not> bd_readable E (cw_state_path q) \<or> wallet_at E w (cw_state_path q) = None" and "state_laws E"
  shows "\<exists>m s. bd_from_entropy E entropy = Inr m \<and> wallet_at E w' (cw_state_path q) = Some s \<and>
    wt_mnemonic s = bd_mnemonic_string E m \<and> r = WalletCreated (wt_address s) (wt_mnemonic s) (cw_name q) None"
proof -
  have "(if bd_readable E (cw_state_path q) then wallet_at E w (cw_state_path q) else None) = None"
    using assms(2) by auto
  then have "create_new_wallet E entropy q w = Some (w', Inr r)"
    using assms(1) by (simp add: handle_create_wallet_def load_wallet_state_cases)
  then show ?thesis
    using assms(3)
    by (auto simp: create_new_wallet_def cbind_Inr Let_def save_wallet_state_Inr wallet_at_saved)
qed

text \<open>A wallet can be made from this entropy: the keys, the wallet and its descriptors.\<close>

definition makes_wallet :: "('f, 'o, 'w, 'n) bdk \<Rightarrow> bytes \<Rightarrow> bool" where
  "makes_wallet E entropy \<longleftrightarrow>
     rbind (bd_from_entropy E entropy) (\<lambda>m. rbind (bd_master E m) (\<lambda>xprv. rbind (bd_create E xprv) (\<lambda>_.
       rbind (bd_descriptor E xprv) (\<lambda>_. rbind (bd_change_descriptor E xprv) (\<lambda>_. Inr ()))))) = Inr ()"

lemma create_wallet_succeeds:
  assumes "makes_wallet E entropy" "\<forall>d. bd_write E (cw_state_path q) d = Written"
    and "wallet_at E w (cw_state_path q) = None"
  shows "\<exists>w' r. handle_create_wallet E entropy q w = Some (w', Inr r)"
  using assms
  by (auto simp: makes_wallet_def rbind_Inr_iff handle_create_wallet_def load_wallet_state_cases create_new_wallet_def
      cbind_def clift_def save_wallet_state_cases cret_def Let_def)

text \<open>Nothing but the writes depends on how they end.\<close>

lemma recreate_wallet_write [simp]: "recreate_wallet (E\<lparr>bd_write := io\<rparr>) = recreate_wallet E"
  by (intro ext) (simp add: recreate_wallet_def Let_def cong: option.case_cong)

lemma rpc_of_write [simp]: "rpc_of (E\<lparr>bd_write := io\<rparr>) = rpc_of E"
  by (intro ext) (simp add: rpc_of_def rpc_client_def Let_def)

lemma sync_blocks_write:
  assumes "sync_blocks E n e v = Some r"
  shows "sync_blocks (E\<lparr>bd_write := io\<rparr>) n e v = Some r"
proof (rule sync_blocks.raw_induct [OF _ assms, where P = "\<lambda>E n e v r. sync_blocks (E\<lparr>bd_write := io\<rparr>) n e v = Some r"])
  fix sync and E :: "('f, 'o, 'w, 'n) bdk" and n e v r
  assume IH: "\<And>E n e v r. sync E n e v = Some r \<Longrightarrow> sync_blocks (E\<lparr>bd_write := io\<rparr>) n e v = Some r"
    and step: "(case bd_next_block E n e of Inl e \<Rightarrow> Some (Inl (Err e)) | Inr None \<Rightarrow> Some (Inr (v, e))
      | Inr (Some (e', b)) \<Rightarrow> (case bd_apply_block E v b of Inl e \<Rightarrow> Some (Inl (Err e)) | Inr v' \<Rightarrow> sync E n e' v')) = Some r"
  show "sync_blocks (E\<lparr>bd_write := io\<rparr>) n e v = Some r"
    using step by (subst sync_blocks.simps) (auto split: sum.splits option.splits dest: IH)
qed

lemma sync_wallet_write: "sync_wallet (E\<lparr>bd_write := io\<rparr>) rpc v n = Some r \<Longrightarrow> sync_wallet E rpc v n = Some r"
  using sync_blocks_write [of "E\<lparr>bd_write := io\<rparr>" n _ v _ "bd_write E"]
  by (auto simp: sync_wallet_def Let_def split: option.splits)

lemma get_balance_cut:
  assumes "handle_get_balance (E\<lparr>bd_write := io\<rparr>) p w = Some (v, Inr resp)" and "\<forall>d. bd_write E (gb_state_path p) d = Cut n"
  shows "\<exists>w'. handle_get_balance E p w = Some (w', Inr resp)"
proof -
  obtain s rpc v0 v1 where pieces: "bd_readable E (gb_state_path p)" "wallet_at E w (gb_state_path p) = Some s"
      "rpc_of E (gb_rpc p) = Inr rpc" "recreate_wallet E s = Inr v0"
    and sync: "sync_wallet (E\<lparr>bd_write := io\<rparr>) rpc v0 (w_node w) = Some (Inr v1)"
    and resp: "resp = BalanceResponse (bb_confirmed (bd_balance E v1)) (unconfirmed_of (bd_balance E v1))
        (bb_confirmed (bd_balance E v1) + unconfirmed_of (bd_balance E v1))"
    using assms(1) by (auto simp: handle_get_balance_def cbind_Inr load_wallet_state_Inr csync_def Let_def)
  show ?thesis
    using pieces sync_wallet_write [OF sync] assms(2)
    by (simp add: handle_get_balance_def cbind_def load_wallet_state_cases clift_def csync_def cnode_def cloop_def
        cignore_def save_wallet_state_cases cret_def Let_def resp)
qed

text \<open>C19. A write that stops half-way loses the wallet. The state file is overwritten in place, and only
  there are the words kept. Take a \<open>get-balance\<close> that answers when its write is complete. If the write
  stops after \<open>n\<close> bytes, of which no state can be read, it still gives the same answer, and the file
  holds no wallet any more. The next \<open>create-wallet\<close>, once files can be written again, then succeeds
  whenever a wallet can be made of its new entropy, and puts a wallet there whose words are not those
  of the old one.\<close>

theorem cut_write_loses_wallet:
  fixes E :: "('f, 'o, 'w, 'n) bdk" and resp :: "'f wallet_response"
  defines "E' \<equiv> E\<lparr>bd_write := \<lambda>_ _. Written\<rparr>"
  assumes laws: "state_laws E" "mnemonic_laws E"
    and whole: "handle_get_balance E' p w = Some (w0, Inr resp)"
    and cut: "\<forall>d. bd_write E (gb_state_path p) d = Cut n" "\<forall>s. bd_parse_state E (take n (bd_print_state E s)) = None"
    and old: "wallet_at E w (gb_state_path p) = Some s" "bd_from_entropy E entropy0 = Inr m0"
      "wt_mnemonic s = bd_mnemonic_string E m0" "length entropy0 = 16"
    and new: "cw_state_path q = gb_state_path p" "makes_wallet E entropy" "length entropy = 16" "entropy \<noteq> entropy0"
  shows "\<exists>w'. handle_get_balance E p w = Some (w', Inr resp) \<and> wallet_at E w' (gb_state_path p) = None \<and>
    (\<exists>w'' m s'. (handle_create_wallet E' entropy q w' :: ('n world \<times> (failure + 'f wallet_response)) option) =
         Some (w'', Inr (WalletCreated (wt_address s') (wt_mnemonic s') (cw_name q) None)) \<and>
       bd_from_entropy E entropy = Inr m \<and> wt_mnemonic s' = bd_mnemonic_string E m \<and>
       wallet_at E w'' (gb_state_path p) = Some s' \<and> wt_mnemonic s' \<noteq> wt_mnemonic s)"
proof -
  obtain w' where first: "handle_get_balance E p w = Some (w', Inr resp)"
    using get_balance_cut [OF whole [unfolded E'_def] cut(1)] by blast
  have lost: "wallet_at E w' (gb_state_path p) = None"
    using get_balance_writes [OF first cut(1)] cut(2) by (auto simp: wallet_at_cut)
  have E': "state_laws E'" "makes_wallet E' entropy" "wallet_at E' = wallet_at E" "bd_from_entropy E' = bd_from_entropy E"
    "bd_mnemonic_string E' = bd_mnemonic_string E"
    using laws(1) new(2) by (simp_all add: E'_def state_laws_def makes_wallet_def)
  obtain w'' and r :: "'f wallet_response" where second: "handle_create_wallet E' entropy q w' = Some (w'', Inr r)"
    using create_wallet_succeeds [OF E'(2), of q w'] lost new(1) E'(3) by (auto simp: E'_def)
  then obtain m s' where "bd_from_entropy E entropy = Inr m" "wallet_at E w'' (gb_state_path p) = Some s'"
      "wt_mnemonic s' = bd_mnemonic_string E m" "r = WalletCreated (wt_address s') (wt_mnemonic s') (cw_name q) None"
    using create_wallet_anew [OF second _ E'(1)] lost new(1) E'(3-5) by auto
  moreover from this have "wt_mnemonic s' \<noteq> wt_mnemonic s"
    using laws(2) old(2-4) new(3,4) unfolding mnemonic_laws_def by metis
  ultimately show ?thesis
    using first lost second by blast
qed

text \<open>A wallet whose file cannot be read at the moment is replaced as well: \<open>create-wallet\<close> does not ask why
  the state did not load.\<close>

theorem unreadable_wallet_replaced:
  assumes "state_laws E" and "wallet_at E w (cw_state_path q) = Some s" and "\<not> bd_readable E (cw_state_path q)"
    and "handle_create_wallet E entropy q w = Some (w', Inr r)"
  shows "\<exists>m s'. bd_from_entropy E entropy = Inr m \<and> wallet_at E w' (cw_state_path q) = Some s' \<and>
    wt_mnemonic s' = bd_mnemonic_string E m \<and> r = WalletCreated (wt_address s') (wt_mnemonic s') (cw_name q) None"
  by (rule create_wallet_anew [OF assms(4) _ assms(1)]) (simp add: assms(3))

definition sample_get_balance :: get_balance_params where
  "sample_get_balance = \<lparr>gb_state_path = [1], gb_rpc = sample_rpc\<rparr>"

lemma sample_wallet_at: "wallet_at sample_bdk sample_world [1] = Some sample_wallet_state"
  by (simp add: wallet_at_def sample_world_def parse_state_text utf8_state_text)

lemma sample_recreate: "recreate_wallet sample_bdk sample_wallet_state = Inr ((0, []), [], 0)"
  by (simp add: recreate_wallet_def sample_wallet_state_def) (simp add: sample_bdk_def)

lemma sample_rpc_of: "rpc_of sample_bdk sample_rpc = Inr []"
  by (simp add: rpc_of_def rpc_client_def sample_bdk_def)

lemma sample_sync: "sync_wallet sample_bdk [] ((0, []), [], 0) [0, 50] = Some (Inr ((2, [2]), [50, 0], 0))"
  unfolding sync_wallet_def sample_bdk_def
  by (simp add: sync_blocks.simps)

text \<open>Surroundings in which nothing fails and the node stands still.\<close>

definition calm :: "'n surroundings" where
  "calm = \<lparr>su_entropy = [], su_node = (\<lambda>n. n), su_readable = (\<lambda>_. True), su_write = (\<lambda>_ _. Written), su_printed = True\<rparr>"

lemma calm_sel [simp]: "su_node calm n = n" "su_printed calm" "su_entropy calm = []"
  by (simp_all add: calm_def)

lemma surrounded_calm [simp]: "surrounded sample_bdk calm = sample_bdk"
  by (simp add: surrounded_def calm_def sample_bdk_def)

lemma sample_steady: "steady (surrounded sample_bdk calm) p"
  by (simp add: steady_def)

definition sample_saved :: wallet_state where
  "sample_saved = sample_wallet_state\<lparr>wt_checkpoint_height := Some 2,
     wt_checkpoint_hash := Some (bd_hash_string sample_bdk [2]),
     wt_cached_balance := Some \<lparr>cb_confirmed = 50, cb_unconfirmed = 0, cb_total = 50\<rparr>\<rparr>"

lemma sample_first_balance:
  "handle_get_balance sample_bdk sample_get_balance sample_world =
     Some (sample_world\<lparr>w_files := (w_files sample_world)([1] \<mapsto> state_text sample_saved)\<rparr>, Inr (BalanceResponse 50 0 50))"
proof -
  have b: "bd_balance sample_bdk ((2, [2]), [50, 0], 0) = \<lparr>bb_confirmed = 50, bb_trusted_pending = 0,
      bb_untrusted_pending = 0, bb_immature = 0\<rparr>" "bd_checkpoint sample_bdk ((2, [2]), [50, 0], 0) = (2, [2])"
    by (simp_all add: sample_bdk_def)
  have n: "w_node sample_world = [0, 50]"
    by (simp add: sample_world_def)
  show ?thesis
    by (simp add: handle_get_balance_def cbind_def load_wallet_state_cases clift_def csync_def cnode_def cloop_def
        cignore_def save_wallet_state_cases cret_def Let_def sample_get_balance_def sample_wallet_at sample_recreate
        sample_rpc_of sample_sync b n unconfirmed_of_def sample_saved_def)
qed

lemma sample_fresh_wallet_laws: "fresh_wallet_laws sample_bdk"
proof -
  have "sample_unhex (sample_hex b) = Some b" for b
    using sample_hex_laws by (simp add: hex_laws_def)
  moreover have "ascii_only (replicate 12 48 @ sample_hex b)" for b
    using sample_hex_ascii by (auto simp: ascii_only_def list_all_iff)
  ultimately show ?thesis
    by (auto simp: fresh_wallet_laws_def sample_bdk_def unconfirmed_of_def Let_def map_idI comp_def)
qed

theorem get_balance_forgets_witness:
  "\<exists>w' w''. handle_get_balance sample_bdk sample_get_balance sample_world = Some (w', Inr (BalanceResponse 50 0 50)) \<and>
     handle_get_balance sample_bdk sample_get_balance w' = Some (w'', Inr (BalanceResponse 0 0 0))"
proof -
  define w' where "w' = sample_world\<lparr>w_files := (w_files sample_world)([1] \<mapsto> state_text sample_saved)\<rparr>"
  have first: "handle_get_balance sample_bdk sample_get_balance sample_world = Some (w', Inr (BalanceResponse 50 0 50))"
    using sample_first_balance by (simp add: w'_def)
  have at: "wallet_at sample_bdk w' (gb_state_path sample_get_balance) = Some sample_saved"
    by (simp add: w'_def wallet_at_def parse_state_text utf8_state_text sample_get_balance_def)
  have rpc: "rpc_of sample_bdk (gb_rpc sample_get_balance) = Inr []"
    by (simp add: sample_get_balance_def sample_rpc_of)
  have "no_block_after sample_bdk [] (w_node w') (2, [2])" "pending_after sample_bdk [] (w_node w') (2, [2]) = Inr []"
    by (simp_all add: no_block_after_def pending_after_def w'_def sample_world_def) (simp_all add: sample_bdk_def)
  then show ?thesis
    using get_balance_forgets [OF sample_state_laws sample_fresh_wallet_laws first at _ _ _ _ rpc, of 2 "[2]" "[]"] first
    by (auto simp: sample_saved_def)
qed

text \<open>A full disk, later with space again.\<close>

abbreviation full_disk :: "(nat, nat list, sample_bdk_wallet, nat list) bdk" where
  "full_disk \<equiv> sample_bdk\<lparr>bd_write := \<lambda>_ _. Cut 0\<rparr>"

theorem cut_write_loses_wallet_witness:
  "\<exists>w' w'' a m n. handle_get_balance full_disk sample_get_balance sample_world = Some (w', Inr (BalanceResponse 50 0 50)) \<and>
     handle_create_wallet sample_bdk (replicate 16 7) \<lparr>cw_state_path = [1], cw_name = ascii ''alice'', cw_rpc = sample_rpc\<rparr> w' =
       Some (w'', Inr (WalletCreated a m n None :: nat wallet_response)) \<and>
     wallet_at sample_bdk sample_world [1] = Some sample_wallet_state \<and> wallet_at full_disk w' [1] = None \<and>
     (\<exists>s. wallet_at full_disk w'' [1] = Some s \<and> wt_mnemonic s \<noteq> wt_mnemonic sample_wallet_state)"
proof -
  let ?q = "\<lparr>cw_state_path = [1], cw_name = ascii ''alice'', cw_rpc = sample_rpc\<rparr>"
  have again: "full_disk\<lparr>bd_write := \<lambda>_ _. Written\<rparr> = sample_bdk"
    by (simp add: sample_bdk_def)
  have laws: "state_laws full_disk" "mnemonic_laws full_disk"
    using sample_state_laws sample_mnemonic_laws by (simp_all add: state_laws_def mnemonic_laws_def)
  have cut: "\<forall>d. bd_write full_disk (gb_state_path sample_get_balance) d = Cut 0"
    "\<forall>s. bd_parse_state full_disk (take 0 (bd_print_state full_disk s)) = None"
    by (simp_all add: parse_state_def)
  have old: "wallet_at full_disk sample_world (gb_state_path sample_get_balance) = Some sample_wallet_state"
    using sample_wallet_at by (simp add: sample_get_balance_def)
  have words: "bd_from_entropy full_disk (replicate 16 1) = Inr (replicate 16 1)"
    "wt_mnemonic sample_wallet_state = bd_mnemonic_string full_disk (replicate 16 1)"
    by (simp_all add: sample_bdk_def sample_wallet_state_def)
  have new: "cw_state_path ?q = gb_state_path sample_get_balance" "makes_wallet full_disk (replicate 16 7)"
    "length (replicate 16 (7 :: u8)) = 16" "replicate 16 (7 :: u8) \<noteq> replicate 16 1"
    by (simp_all add: sample_get_balance_def makes_wallet_def) (simp add: sample_bdk_def)
  have first: "handle_get_balance (full_disk\<lparr>bd_write := \<lambda>_ _. Written\<rparr>) sample_get_balance sample_world =
      Some (sample_world\<lparr>w_files := (w_files sample_world)([1] \<mapsto> state_text sample_saved)\<rparr>, Inr (BalanceResponse 50 0 50))"
    unfolding again by (rule sample_first_balance)
  show ?thesis
    using cut_write_loses_wallet [OF laws first cut old words _ new] sample_wallet_at
    unfolding again by (auto simp: sample_get_balance_def)
qed

theorem create_wallet_idempotent_witness:
  "\<exists>w' a m n. handle_create_wallet sample_bdk [7] \<lparr>cw_state_path = [2], cw_name = ascii ''bob'', cw_rpc = sample_rpc\<rparr> sample_world =
       Some (w', Inr (WalletCreated a m n None :: nat wallet_response)) \<and>
     handle_create_wallet sample_bdk [8] \<lparr>cw_state_path = [2], cw_name = ascii ''eve'', cw_rpc = sample_rpc\<rparr> w' =
       Some (w', Inr (WalletCreated a m n (Some True) :: nat wallet_response))"
proof -
  have "wallet_at sample_bdk sample_world [2] = None"
    by (simp add: wallet_at_def sample_world_def)
  then obtain w' a m n where first: "handle_create_wallet sample_bdk [7] \<lparr>cw_state_path = [2], cw_name = ascii ''bob'', cw_rpc = sample_rpc\<rparr> sample_world =
       Some (w', Inr (WalletCreated a m n None :: nat wallet_response))"
    by (simp add: handle_create_wallet_def load_wallet_state_cases create_new_wallet_def cbind_def clift_def
        save_wallet_state_cases cret_def Let_def) (simp add: sample_bdk_def)
  then show ?thesis
    using create_wallet_idempotent [OF sample_state_laws first] by fastforce
qed

theorem wallets_never_lost_witness:
  "\<exists>w' outs s. wallet_daemon sample_bdk
       \<lparr>wj_command = (\<lambda>_. Some \<lparr>wc_name = ascii ''get-balance'', wc_params = ()\<rparr>), wj_create_wallet = (\<lambda>_. None),
        wj_get_balance = (\<lambda>_. Some sample_get_balance), wj_get_address = (\<lambda>_. None), wj_send = (\<lambda>_. None),
        wj_faucet = (\<lambda>_. None), wj_get_tx = (\<lambda>_. None), wj_get_tx_history = (\<lambda>_. None)\<rparr>
       (\<lambda>_. calm) 0 [Inr (ascii ''{}'')] sample_world = Some (w', outs) \<and>
     outs = [BalanceResponse 50 0 50] \<and> wallet_at sample_bdk w' [1] = Some s \<and> wt_mnemonic s = replicate 16 1"
    (is "\<exists>w' outs s. wallet_daemon _ ?J _ _ _ _ = _ \<and> _")
proof -
  obtain w' where run: "wallet_daemon sample_bdk ?J (\<lambda>_. calm) 0 [Inr (ascii ''{}'')] sample_world =
      Some (w', [BalanceResponse 50 0 50])"
    by (simp add: wallet_answer_def wallet_dispatch_def cparams_def cbind_def clift_def sample_first_balance ascii_def byte_in_def)
  then show ?thesis
    using wallets_never_lost [OF sample_state_laws run, THEN conjunct1, rule_format, OF sample_wallet_at sample_steady]
    by (auto simp: same_wallet_def sample_wallet_state_def)
qed

theorem sync_terminates_witness:
  "sync_wallet sample_bdk [] ((0, []), [], 0) [0, 50] = Some (Inr ((2, [2]), [50, 0], 0))"
proof -
  have "emitter_progress sample_bdk [0, 50] (\<lambda>e. 2 - hd e)"
    by (auto simp: emitter_progress_def sample_bdk_def split: if_splits)
  then show ?thesis
    using sync_terminates [of sample_bdk "[0, 50]" "\<lambda>e. 2 - hd e" "[]" "((0, []), [], 0)" 3]
    by (simp add: sample_bdk_def eval_nat_numeral)
qed

section \<open>Addresses\<close>

text \<open>What BDK documents of revealing addresses: after the addresses up to \<open>i\<close>, the next one has index
  \<open>i + 1\<close> and is the one that peeking at that index shows, with or without a checkpoint; indices
  are below \<open>2\<^sup>3\<^sup>1\<close>.\<close>

definition reveal_laws :: "('f, 'o, 'w, 'n) bdk \<Rightarrow> bool" where
  "reveal_laws E \<longleftrightarrow>
     (\<forall>k w i cp. bd_create E k = Inr w \<longrightarrow> unat i + 1 < 2 ^ 31 \<longrightarrow>
        snd (bd_reveal_next E (bd_reveal_to E w i)) = (i + 1, bd_peek_external E w (i + 1)) \<and>
        (\<forall>u. bd_insert_checkpoint E (bd_reveal_to E w i) cp = Inr u \<longrightarrow>
           snd (bd_reveal_next E (fst (bd_apply_update E (bd_reveal_to E w i) u))) = (i + 1, bd_peek_external E w (i + 1))))"

text \<open>The wallet library's wallet of a stored one: a function of its mnemonic.\<close>

definition keys_wallet :: "('f, 'o, 'w, 'n) bdk \<Rightarrow> wallet_state \<Rightarrow> failure + 'w" where
  "keys_wallet E s =
     rbind (map_err Err (bd_parse_mnemonic E (wt_mnemonic s))) (\<lambda>mnemonic.
     rbind (map_err Err (bd_master E mnemonic)) (\<lambda>xprv. map_err Err (bd_create E xprv)))"

lemma recreate_reveal_next:
  assumes "reveal_laws E" "recreate_wallet E s = Inr v" "unat (wt_address_index s) + 1 < 2 ^ 31"
  obtains w0 where "keys_wallet E s = Inr w0"
    "snd (bd_reveal_next E v) = (wt_address_index s + 1, bd_peek_external E w0 (wt_address_index s + 1))"
proof -
  obtain m k w0 where keys: "bd_parse_mnemonic E (wt_mnemonic s) = Inr m" "bd_master E m = Inr k" "bd_create E k = Inr w0"
    using assms(2) by (auto simp: recreate_wallet_def rbind_Inr_iff)
  have "v = bd_reveal_to E w0 (wt_address_index s) \<or>
      (\<exists>cp u. bd_insert_checkpoint E (bd_reveal_to E w0 (wt_address_index s)) cp = Inr u \<and>
         v = fst (bd_apply_update E (bd_reveal_to E w0 (wt_address_index s)) u))"
    using assms(2) keys
    by (auto simp: recreate_wallet_def Let_def rbind_Inr_iff case_prod_beta split: option.splits)
  then have "snd (bd_reveal_next E v) = (wt_address_index s + 1, bd_peek_external E w0 (wt_address_index s + 1))"
    using assms(1,3) keys(3) unfolding reveal_laws_def by blast
  moreover have "keys_wallet E s = Inr w0"
    by (simp add: keys_wallet_def keys)
  ultimately show ?thesis using that by blast
qed

lemma keys_wallet_same: "same_wallet s s' \<Longrightarrow> keys_wallet E s' = keys_wallet E s"
  by (simp add: keys_wallet_def same_wallet_def)

text \<open>\<open>n\<close> successful \<open>get-address\<close> commands in a row.\<close>

fun get_addresses ::
    "('f, 'o, 'w, 'n) bdk \<Rightarrow> get_address_params \<Rightarrow> nat \<Rightarrow> 'n world \<Rightarrow> ('n world \<times> str list) option" where
  "get_addresses E p 0 w = Some (w, [])"
| "get_addresses E p (Suc n) w =
     (case (handle_get_address E p w :: ('n world \<times> (failure + 'f wallet_response)) option) of
        Some (w', Inr (AddressResponse a)) \<Rightarrow> map_option (apsnd (Cons a)) (get_addresses E p n w')
      | _ \<Rightarrow> None)"

lemma handle_get_address_step:
  fixes E :: "('f, 'o, 'w, 'n) bdk"
  assumes "state_laws E" "reveal_laws E" "wallet_at E w (ga_state_path p) = Some s"
    and "unat (wt_address_index s) + 1 < 2 ^ 31"
    and "handle_get_address E p w = Some (w', Inr (AddressResponse a :: 'f wallet_response))"
  shows "\<exists>w0. keys_wallet E s = Inr w0 \<and> a = bd_peek_external E w0 (wt_address_index s + 1) \<and>
    wallet_at E w' (ga_state_path p) = Some (s\<lparr>wt_address_index := wt_address_index s + 1, wt_address := a\<rparr>)"
proof -
  obtain v where v: "recreate_wallet E s = Inr v"
    using assms(3,5) by (auto simp: handle_get_address_def cbind_Inr load_wallet_state_Inr)
  obtain w0 where w0: "keys_wallet E s = Inr w0"
    "snd (bd_reveal_next E v) = (wt_address_index s + 1, bd_peek_external E w0 (wt_address_index s + 1))"
    by (rule recreate_reveal_next [OF assms(2) v assms(4)])
  obtain v' where "bd_reveal_next E v = (v', wt_address_index s + 1, bd_peek_external E w0 (wt_address_index s + 1))"
    using w0(2) by (cases "bd_reveal_next E v") auto
  then have "a = bd_peek_external E w0 (wt_address_index s + 1)"
    and "w' = w\<lparr>w_files := (w_files w)(ga_state_path p \<mapsto>
      bd_print_state E (s\<lparr>wt_address_index := wt_address_index s + 1, wt_address := bd_peek_external E w0 (wt_address_index s + 1)\<rparr>))\<rparr>"
    using assms(3,5) v
    by (auto simp: handle_get_address_def cbind_Inr load_wallet_state_Inr save_wallet_state_Inr)
  then show ?thesis
    using w0(1) wallet_at_saved [OF assms(1)] by simp
qed

text \<open>Fresh addresses come in order. Any number of successful \<open>get-address\<close> commands in a row
  answer the addresses of the wallet's mnemonic at the following indices, one after the other, and
  leave the index and the address of the last one in the file, so no address is handed out twice.\<close>

theorem get_addresses_in_order:
  fixes E :: "('f, 'o, 'w, 'n) bdk"
  assumes "state_laws E" "reveal_laws E" "wallet_at E w (ga_state_path p) = Some s"
    and "unat (wt_address_index s) + n < 2 ^ 31" and "0 < n" and "get_addresses E p n w = Some (w', addresses)"
  shows "\<exists>w0 s'. keys_wallet E s = Inr w0 \<and>
    addresses = map (\<lambda>i. bd_peek_external E w0 (wt_address_index s + 1 + word_of_nat i)) [0..<n] \<and>
    wallet_at E w' (ga_state_path p) = Some s' \<and> same_wallet s s' \<and>
    unat (wt_address_index s') = unat (wt_address_index s) + n \<and> wt_address s' = last addresses"
  using assms(3-6)
proof (induction n arbitrary: w s addresses)
  case 0
  then show ?case by simp
next
  case (Suc n)
  obtain v a rest where first: "handle_get_address E p w = Some (v, Inr (AddressResponse a :: 'f wallet_response))"
    and rest: "get_addresses E p n v = Some (w', rest)" "addresses = a # rest"
    using Suc.prems(4) by (auto split: option.splits prod.splits sum.splits wallet_response.splits)
  define s1 where "s1 = s\<lparr>wt_address_index := wt_address_index s + 1, wt_address := a\<rparr>"
  obtain w0 where w0: "keys_wallet E s = Inr w0" "a = bd_peek_external E w0 (wt_address_index s + 1)"
    and at: "wallet_at E v (ga_state_path p) = Some s1"
    using handle_get_address_step [OF assms(1,2) Suc.prems(1) _ first] Suc.prems(2) by (auto simp: s1_def)
  have same: "same_wallet s s1"
    by (simp add: s1_def)
  have index: "unat (wt_address_index s1) = unat (wt_address_index s) + 1"
    using Suc.prems(2) by (simp add: s1_def unat_word_ariths)
  show ?case
  proof (cases n)
    case 0
    then show ?thesis
      using rest w0 at same index by (auto simp: s1_def)
  next
    case (Suc k)
    obtain w1 s' where IH: "keys_wallet E s1 = Inr w1"
        "rest = map (\<lambda>i. bd_peek_external E w1 (wt_address_index s1 + 1 + word_of_nat i)) [0..<n]"
        "wallet_at E w' (ga_state_path p) = Some s'" "same_wallet s1 s'"
        "unat (wt_address_index s') = unat (wt_address_index s1) + n" "wt_address s' = last rest"
      using Suc.IH [OF at _ _ rest(1)] Suc.prems(2) index Suc by auto
    have "w1 = w0"
      using IH(1) w0(1) keys_wallet_same [OF same, of E] by simp
    moreover have "map f [0..<Suc n] = f 0 # map (\<lambda>i. f (Suc i)) [0..<n]" for f :: "nat \<Rightarrow> str"
      by (simp add: upt_conv_Cons map_Suc_upt [symmetric] del: upt_Suc)
    ultimately show ?thesis
      using IH rest w0 index same_wallet_trans [OF same IH(4)] Suc
      by (auto simp: s1_def add.assoc simp del: upt_Suc)
  qed
qed

lemma sint_difference:
  fixes a b :: u64
  assumes "unat a < 2 ^ 63" "unat b < 2 ^ 63"
  shows "sint (b - a) = int (unat b) - int (unat a)"
proof -
  define x where "x = uint b - uint a"
  have "int (unat a) < int (2 ^ 63)" "int (unat b) < int (2 ^ 63)"
    using assms by (simp_all only: of_nat_less_iff)
  then have "uint a < 9223372036854775808" "uint b < 9223372036854775808"
    by simp_all
  then have "- 9223372036854775808 \<le> x \<and> x < 9223372036854775808"
    using uint_ge_0 [of a] uint_ge_0 [of b] unfolding x_def by linarith
  then have "signed_take_bit 63 x = x"
    by (intro signed_take_bit_int_eq_self) simp_all
  moreover have "sint (b - a) = sint (word_of_int x :: u64)"
    by (simp add: x_def)
  moreover have "sint (word_of_int x :: u64) = signed_take_bit 63 x"
    by (subst sint_sbintrunc') simp
  ultimately show ?thesis
    by (simp add: x_def)
qed

lemma unat_difference: "a \<le> b \<Longrightarrow> unat (b - a) = unat b - unat (a :: u64)"
  by (rule unat_sub)
section \<open>Further answers\<close>

text \<open>A short address is a panic, not an error. \<open>faucet\<close> and \<open>send\<close> cut the address at 20 bytes
  for their log line before anything looks at it: below that length the first stops after
  connecting and the second after loading the state, with the world as it was.\<close>

theorem short_address_panics:
  assumes "length address < 20"
  shows "handle_faucet E \<lparr>fp_address = address, fp_blocks = blocks, fp_rpc = r\<rparr> w =
      Some (w, Inl (case rpc_of E r of Inl e \<Rightarrow> e | Inr _ \<Rightarrow> Panic ''byte index is not a char boundary'')) \<and>
    (bd_readable E path \<longrightarrow> wallet_at E w path = Some s \<longrightarrow>
      handle_send E \<lparr>sp_state_path = path, sp_to_address = address, sp_amount_sats = amount, sp_rpc = r\<rparr> w =
      Some (w, Inl (Panic ''byte index is not a char boundary'')))"
  using str_prefix_short [of 20 address] assms
  by (auto simp: handle_faucet_def handle_send_def cbind_def clift_def load_wallet_state_cases Let_def split: sum.splits)

text \<open>The history reports net amounts. For amounts below \<open>2\<^sup>6\<^sup>3\<close> satoshis the entry of a
  transaction has the difference of what it pays to and takes from the wallet, with the
  direction that the sign of the difference says.\<close>

theorem history_entry_net:
  assumes "bd_sent_and_received E wallet tx = (sent, received)" and "unat sent < 2 ^ 63" "unat received < 2 ^ 63"
  shows "int (unat (he_amount_sats (history_entry_of E wallet (tx, c)))) = \<bar>int (unat received) - int (unat sent)\<bar> \<and>
    he_direction (history_entry_of E wallet (tx, c)) = (if sent \<le> received then ''incoming'' else ''outgoing'') \<and>
    he_category (history_entry_of E wallet (tx, c)) = (if sent \<le> received then ''receive'' else ''send'')"
proof -
  have net: "sint (received - sent) = int (unat received) - int (unat sent)"
    using assms(2,3) by (rule sint_difference)
  show ?thesis
  proof (cases "sent \<le> received")
    case True
    then have "unat sent \<le> unat received" "unat (received - sent) = unat received - unat sent"
      by (simp_all add: word_le_nat_alt unat_difference)
    then show ?thesis
      using True by (simp add: history_entry_of_def assms(1) Let_def net del: of_nat_unat)
  next
    case False
    then have "unat received < unat sent" "unat (sent - received) = unat sent - unat received"
      using unat_difference [of received sent] by (simp_all add: word_less_nat_alt word_le_nat_alt not_le)
    then show ?thesis
      using False by (simp add: history_entry_of_def assms(1) Let_def net del: of_nat_unat)
  qed
qed

text \<open>The fast balance looks at every address handed out. Unless the index is within five of
  \<open>2\<^sup>3\<^sup>2\<close>, where the number of addresses wraps, the addresses scanned contain those of all
  indices up to the stored one and at least four more, and 20 change addresses.\<close>

theorem scan_covers_addresses:
  assumes "unat (wt_address_index s) + 5 < 2 ^ 32"
  shows "(\<forall>i\<le>unat (wt_address_index s) + 4. addr_descriptor (bd_peek_external E v (word_of_nat i)) \<in> set (scan_descriptors E s v)) \<and>
    length (scan_descriptors E s v) = max (unat (wt_address_index s)) 5 + 25"
proof -
  have "unat (max (wt_address_index s) 5 + 5) = unat (max (wt_address_index s) 5) + 5"
    using assms by (subst unat_add_lem [THEN iffD1]) (simp_all add: max_def)
  also have "unat (max (wt_address_index s) 5) = max (unat (wt_address_index s)) 5"
    by (simp add: max_def word_le_nat_alt)
  finally have count: "unat (max (wt_address_index s) 5 + 5) = max (unat (wt_address_index s)) 5 + 5" .
  then show ?thesis
    by (auto simp: scan_descriptors_def Let_def)
qed

theorem scan_covers_addresses_witness:
  "addr_descriptor (bd_peek_external sample_bdk ((0, []), [], 0) (word_of_nat 4)) \<in>
     set (scan_descriptors sample_bdk sample_wallet_state ((0, []), [], 0))"
proof -
  have "unat (wt_address_index sample_wallet_state) + 5 < 2 ^ 32"
    by (simp add: sample_wallet_state_def)
  then show ?thesis
    by (rule conjunct1 [OF scan_covers_addresses, THEN spec, THEN mp]) simp
qed

theorem history_entry_net_witness:
  "he_direction (history_entry_of sample_bdk ((0, []), [], 0) ([7], True)) = ''incoming'' \<and>
   int (unat (he_amount_sats (history_entry_of sample_bdk ((0, []), [], 0) ([7], True)))) = 7"
  using history_entry_net [of sample_bdk "((0, []), [], 0)" "[7]" 0 7 True] by (simp add: sample_bdk_def)

theorem short_address_panics_witness:
  "(handle_faucet sample_bdk \<lparr>fp_address = ascii ''bcrt1'', fp_blocks = None, fp_rpc = sample_rpc\<rparr> sample_world
      :: (nat list world \<times> (failure + nat wallet_response)) option) =
     Some (sample_world, Inl (Panic ''byte index is not a char boundary'')) \<and>
   (handle_send sample_bdk \<lparr>sp_state_path = [1], sp_to_address = ascii ''bcrt1'', sp_amount_sats = 1, sp_rpc = sample_rpc\<rparr>
      sample_world :: (nat list world \<times> (failure + nat wallet_response)) option) =
     Some (sample_world, Inl (Panic ''byte index is not a char boundary''))"
  using short_address_panics [of "ascii ''bcrt1''" sample_bdk None sample_rpc sample_world "[1]" sample_wallet_state 1]
  by (simp add: sample_rpc_of sample_wallet_at)

lemma sample_reveal_laws: "reveal_laws sample_bdk"
  by (simp add: reveal_laws_def sample_bdk_def)

theorem get_addresses_in_order_witness:
  "\<exists>w' a b s'. get_addresses sample_bdk \<lparr>ga_state_path = [1], ga_rpc = sample_rpc\<rparr> 2 sample_world = Some (w', [a, b]) \<and>
     wallet_at sample_bdk w' [1] = Some s' \<and> unat (wt_address_index s') = 2 \<and> wt_address s' = b"
proof -
  have step: "\<exists>a v. (handle_get_address sample_bdk \<lparr>ga_state_path = [1], ga_rpc = sample_rpc\<rparr> w :: (nat list world \<times> (failure + nat wallet_response)) option) =
      Some (v, Inr (AddressResponse a)) \<and> (\<exists>s'. wallet_at sample_bdk v [1] = Some s' \<and> wt_checkpoint_height s' = None)"
    if s: "wallet_at sample_bdk w [1] = Some s" "wt_checkpoint_height s = None" for w :: "nat list world" and s
  proof -
    obtain v where "recreate_wallet sample_bdk s = Inr v"
      using s(2) by (simp add: recreate_wallet_def) (simp add: sample_bdk_def)
    then show ?thesis
      using s
      by (simp add: handle_get_address_def cbind_def load_wallet_state_cases clift_def save_wallet_state_cases cret_def
          case_prod_beta Let_def wallet_at_def parse_state_text utf8_state_text)
  qed
  obtain a v s1 where a: "(handle_get_address sample_bdk \<lparr>ga_state_path = [1], ga_rpc = sample_rpc\<rparr> sample_world
      :: (nat list world \<times> (failure + nat wallet_response)) option) = Some (v, Inr (AddressResponse a))"
      "wallet_at sample_bdk v [1] = Some s1" "wt_checkpoint_height s1 = None"
    using step [OF sample_wallet_at] by (auto simp: sample_wallet_state_def)
  obtain b w' where b: "(handle_get_address sample_bdk \<lparr>ga_state_path = [1], ga_rpc = sample_rpc\<rparr> v
      :: (nat list world \<times> (failure + nat wallet_response)) option) = Some (w', Inr (AddressResponse b))"
    using step [OF a(2,3)] by blast
  have run: "get_addresses sample_bdk \<lparr>ga_state_path = [1], ga_rpc = sample_rpc\<rparr> 2 sample_world = Some (w', [a, b])"
    by (simp add: numeral_2_eq_2 a b)
  show ?thesis
    using get_addresses_in_order [OF sample_state_laws sample_reveal_laws _ _ _ run, of sample_wallet_state] sample_wallet_at run
    by (fastforce simp: sample_wallet_state_def)
qed

end
