(* ===== verification/Registry_Funding.thy ===== *)
theory Registry_Funding
  imports Wallet_Properties
begin

text \<open>
  The registry's wallet over the BDK library: how \<open>fund_and_broadcast\<close> of \<open>src/src/registry/wallet.rs\<close>
  uses \<open>create_bdk_wallet\<close> and \<open>sync_bdk_wallet\<close> of the same file. Theory Registry_Wallet names the two
  calls as fields of a client; here they are the functions of the file, over the environment of theory
  Wallet_Commands. What remains of the client is the library (transaction builder, signer) and the node.
\<close>

text \<open>What the client's opaque values are: the words, a wallet, or a partially signed transaction.\<close>

datatype ('o, 'w) handle = Words 'o | Bdk 'w | Psbt 'o

definition string_result :: "failure + 'a \<Rightarrow> string + 'a" where
  "string_result r = (case r of Inl (Err e) \<Rightarrow> Inl e | Inl (Panic e) \<Rightarrow> Inl e | Inr x \<Rightarrow> Inr x)"

text \<open>The client over the library. The case of a synchronization that does not return is never the
  answer of the code; the lemma below excludes it.\<close>

definition bdk_client ::
    "('f, 'o, 'w, 'n) bdk \<Rightarrow> 'o \<Rightarrow> 'n \<Rightarrow> ('f, ('o, 'w) handle) client \<Rightarrow> ('f, ('o, 'w) handle) client" where
  "bdk_client E rpc node c =
     c\<lparr>cl_parse_mnemonic := (\<lambda>s. rbind (bd_parse_mnemonic E s) (\<lambda>m. Inr (Words m))),
       cl_create_wallet := (\<lambda>h. case h of
           Words m \<Rightarrow> rbind (string_result (create_bdk_wallet E m)) (\<lambda>w. Inr (Bdk w))
         | _ \<Rightarrow> Inl ''no mnemonic''),
       cl_sync := (\<lambda>h. case h of
           Bdk w \<Rightarrow> (case sync_bdk_wallet E rpc w node of
               Some r \<Rightarrow> rbind (string_result r) (\<lambda>w'. Inr (Bdk w'))
             | None \<Rightarrow> Inl ''no answer'')
         | _ \<Rightarrow> Inl ''no wallet'')\<rparr>"

lemma bdk_client_sel [simp]:
  "cl_parse_mnemonic (bdk_client E rpc node c) s = rbind (bd_parse_mnemonic E s) (\<lambda>m. Inr (Words m))"
  "cl_create_wallet (bdk_client E rpc node c) (Words m) = rbind (string_result (create_bdk_wallet E m)) (\<lambda>w. Inr (Bdk w))"
  "sync_bdk_wallet E rpc v node = Some r \<Longrightarrow>
     cl_sync (bdk_client E rpc node c) (Bdk v) = rbind (string_result r) (\<lambda>w'. Inr (Bdk w'))"
  "cl_build_tx (bdk_client E rpc node c) = cl_build_tx c" "cl_sign (bdk_client E rpc node c) = cl_sign c"
  "cl_extract_tx (bdk_client E rpc node c) = cl_extract_tx c" "cl_send (bdk_client E rpc node c) = cl_send c"
  by (simp_all add: bdk_client_def)

text \<open>The end of \<open>fund_and_broadcast\<close>, with the synchronized wallet at hand.\<close>

definition pay_from ::
    "('k, 'x) btc \<Rightarrow> ('f, 'h) client \<Rightarrow> 'h \<Rightarrow> bytes \<Rightarrow> u64 \<Rightarrow> wallet_error + bytes" where
  "pay_from T c bdk output_script output_amount =
     rbind (map_err BuildFailed (cl_build_tx c bdk output_script output_amount)) (\<lambda>psbt.
     rbind (map_err SignFailed (cl_sign c bdk psbt)) (\<lambda>(finalized, psbt).
     if \<not> finalized then Inl SigningIncomplete
     else
     rbind (map_err ExtractFailed (cl_extract_tx c psbt)) (\<lambda>tx.
     let txid = bt_compute_txid T tx in
     rbind (map_err BroadcastFailed (cl_send c tx)) (\<lambda>_. Inr txid))))"

text \<open>The registry pays for the commitment from a wallet that has seen the whole chain: it is made anew
  from the words for every payment, and the blocks applied to it are all those that the emitter gives
  from its first checkpoint to the tip, and then the mempool. Nothing is cached between payments, unlike
  the balance of the wallet helper.\<close>

theorem commitment_paid_from_whole_chain:
  assumes client: "wl_client w = Some (bdk_client E rpc node c)"
    and words: "bd_parse_mnemonic E (wl_mnemonic w) = Inr m" "create_bdk_wallet E m = Inr bdk"
    and progress: "emitter_progress E node p" "p (bd_emitter E rpc node (bd_checkpoint E bdk)) < k"
    and chain: "emitted E node k (bd_emitter E rpc node (bd_checkpoint E bdk)) = (blocks, Inr e)"
      "apply_blocks E bdk blocks = Inr bdk'" "bd_mempool E node e = Inr update"
  shows "fund_and_broadcast T w script amount = pay_from T c (Bdk (bd_apply_unconfirmed E bdk' update)) script amount"
proof -
  have "sync_bdk_wallet E rpc bdk node = Some (Inr (bd_apply_unconfirmed E bdk' update))"
    using synchronized [OF progress] chain by (simp add: sync_bdk_sync_wallet)
  then show ?thesis
    using words by (simp add: fund_and_broadcast_def client pay_from_def string_result_def cong: if_cong)
qed

end
