(* ===== verification/Registry_Server.thy ===== *)
theory Registry_Server
  imports Database_Properties Client Sample_Wallet
begin

text \<open>
  \<open>src/src/bin/registry_grpc.rs\<close>: what the registry's process does before it serves, and what
  follows from it for the service. The arguments are those that clap has parsed; the socket
  address parser, the RPC client's constructor and the opening of the SQLite file are the fields
  of the host. Serving is a run of the critical sections of theory Service.
\<close>

section \<open>Start\<close>

record server_args =
  sa_listen :: str
  sa_rpc_url :: str
  sa_rpc_user :: str
  sa_rpc_pass :: str
  sa_beneficiary_fee :: u64
  sa_merchant_fee :: u64
  sa_min_merchants :: nat
  sa_beneficiary_capacity :: nat
  sa_db_path :: str

text \<open>The values of an argument that is given neither as an option nor in the environment.\<close>

definition args_default :: server_args where
  "args_default =
     \<lparr>sa_listen = ascii ''[::1]:50051'', sa_rpc_url = ascii ''http://localhost:18443'',
      sa_rpc_user = ascii ''veiled'', sa_rpc_pass = ascii ''veiled'', sa_beneficiary_fee = 1000,
      sa_merchant_fee = 3000, sa_min_merchants = 2, sa_beneficiary_capacity = 4,
      sa_db_path = ascii ''registry.db''\<rparr>"

record ('a, 'f, 'o) host =
  ho_parse_addr :: "str \<Rightarrow> 'a option"
  ho_client :: "str \<Rightarrow> str \<Rightarrow> str \<Rightarrow> string + ('f, 'o) client"
  ho_open_file :: "str \<Rightarrow> string + db option"

text \<open>\<open>db::open_db\<close>: open the file, then create the tables that are missing.\<close>

definition open_db :: "('a, 'f, 'o) host \<Rightarrow> str \<Rightarrow> string + db" where
  "open_db H path = rbind (ho_open_file H path) (\<lambda>file. Inr (create_tables file))"

definition server_config :: "server_args \<Rightarrow> config" where
  "server_config args =
     \<lparr>cf_min_sats_per_user = sa_beneficiary_fee args, cf_merchant_registration_fee = sa_merchant_fee args,
      cf_beneficiary_capacity = sa_beneficiary_capacity args, cf_merchant_capacity = sa_min_merchants args\<rparr>"

text \<open>\<open>main\<close> up to \<open>serve\<close>: an error ends the process with a message, a panic inside the
  constructors aborts it. \<open>entropy\<close> and \<open>sk_bytes\<close> are what the wallet and the registry draw.\<close>

definition registry_main ::
    "('s, 'p) backend \<Rightarrow> ('k, 'x) btc \<Rightarrow> ('f, 'o, 'w, 'n) bdk \<Rightarrow> ('a, 'f, 'c) host \<Rightarrow> bytes \<Rightarrow> bytes \<Rightarrow> server_args \<Rightarrow>
      failure + ('a \<times> ('p, 'x, 'f, 'c, db) service)" where
  "registry_main B T E H entropy sk_bytes args =
     rbind (ok_or (ho_parse_addr H (sa_listen args)) (Err ''invalid socket address syntax'')) (\<lambda>addr.
     rbind (map_err (\<lambda>e. Err (''Failed to connect to bitcoind: '' @ e))
              (ho_client H (sa_rpc_url args) (sa_rpc_user args) (sa_rpc_pass args))) (\<lambda>rpc.
     let config = server_config args in
     rbind (map_err (\<lambda>e. Err (''Failed to open database: '' @ e)) (open_db H (sa_db_path args))) (\<lambda>conn.
     rbind (registry_wallet_new E (Some rpc) entropy) (\<lambda>w.
     rbind (service_new B T sk_bytes (store_new w (Some conn)) config) (\<lambda>registry_service.
     Inr (addr, registry_service))))))"

section \<open>The state at the start\<close>

lemma registry_wallet_new_mnemonic:
  "registry_wallet_new E c entropy = Inr w \<Longrightarrow>
     \<exists>m. bd_from_entropy E entropy = Inr m \<and> wl_mnemonic w = bd_mnemonic_string E m"
  by (auto simp: registry_wallet_new_def generate_mnemonic_def rbind_Inr_iff)

lemma registry_main_start:
  assumes "registry_main B T E H entropy sk args = Inr (addr, sv)"
  shows "service_ok B sv" and "sv_config sv = server_config args"
    and "st_merchant_pool (sv_store sv) = Map.empty" and "st_active_sets (sv_store sv) = Map.empty"
    and "rg_merchants (sv_registry sv) = []" and "rg_anonymity_set (sv_registry sv) = []"
    and "\<exists>m. bd_from_entropy E entropy = Inr m \<and> wl_mnemonic (st_wallet (sv_store sv)) = bd_mnemonic_string E m"
    and "\<exists>file. ho_open_file H (sa_db_path args) = Inr file \<and> st_db (sv_store sv) = Some (create_tables file)"
proof -
  obtain c w f r where w: "registry_wallet_new E (Some c) entropy = Inr w"
    and opened: "ho_open_file H (sa_db_path args) = Inr f"
    and r: "registry_new B T sk (sa_beneficiary_capacity args) (sa_beneficiary_fee args) = Inr r"
    and sv: "sv = \<lparr>sv_store = store_new w (Some (create_tables f)), sv_registry = r,
        sv_config = server_config args, sv_state = Empty\<rparr>"
    using assms
    by (auto simp: registry_main_def open_db_def rbind_Inr_iff Let_def service_new_def server_config_def)
  show "service_ok B sv"
    by (simp add: sv service_ok_def store_new_def pending_ok_new [OF r])
  show "rg_merchants (sv_registry sv) = []" "rg_anonymity_set (sv_registry sv) = []"
    using r by (auto simp: sv registry_new_def rbind_Inr_iff)
  show "\<exists>m. bd_from_entropy E entropy = Inr m \<and> wl_mnemonic (st_wallet (sv_store sv)) = bd_mnemonic_string E m"
    using registry_wallet_new_mnemonic [OF w] by (simp add: sv store_new_def)
  show "\<exists>file. ho_open_file H (sa_db_path args) = Inr file \<and> st_db (sv_store sv) = Some (create_tables file)"
    using opened by (simp add: sv store_new_def)
  show "sv_config sv = server_config args" "st_merchant_pool (sv_store sv) = Map.empty"
    "st_active_sets (sv_store sv) = Map.empty"
    by (simp_all add: sv store_new_def)
qed

section \<open>A server for the witnesses\<close>

definition sample_client :: "(nat, nat list) client" where
  "sample_client =
     \<lparr>cl_getrawtransaction = (\<lambda>_. Inr JNull), cl_from_btc = (\<lambda>v. Inr (word_of_nat v)), cl_parse_mnemonic = (\<lambda>s. Inr (map unat s)),
      cl_create_wallet = Inr, cl_sync = Inr, cl_build_tx = (\<lambda>_ _ v. Inr [unat v]), cl_sign = (\<lambda>_ p. Inr (True, p)),
      cl_extract_tx = (\<lambda>p. Inr \<lparr>tx_version = 2, tx_lock_time = 0, tx_input = [],
        tx_output = [\<lparr>to_value = word_of_nat (hd p), to_script_pubkey = [1]\<rparr>]\<rparr>), cl_send = (\<lambda>_. Inr ())\<rparr>"

definition sample_host :: "db option \<Rightarrow> (str, nat, nat list) host" where
  "sample_host file = \<lparr>ho_parse_addr = Some, ho_client = (\<lambda>_ _ _. Inr sample_client), ho_open_file = (\<lambda>_. Inr file)\<rparr>"

lemma sample_main:
  "\<exists>sv. registry_main sample sample_btc sample_bdk (sample_host file) entropy (replicate 32 1) args = Inr (sa_listen args, sv) \<and>
     wl_client (st_wallet (sv_store sv)) = Some sample_client \<and> st_db (sv_store sv) = Some (create_tables file) \<and>
     rg_keypair (sv_registry sv) = replicate 32 1"
  by (simp add: registry_main_def open_db_def sample_host_def registry_wallet_new_def generate_mnemonic_def
      derive_wallet_address_def create_bdk_wallet_def sample_bdk_def service_new_def registry_new_def
      server_config_def store_new_def Let_def)
    (simp add: sample_btc_def try_into_array_def)

section \<open>Restart\<close>

text \<open>C36. What a restart loses. A server that starts on a new database file and runs any
  sequence of critical sections leaves a database \<open>d\<close> that holds the rows of all its merchants
  but not its wallet. A server started on that file has no merchants, no members and no sets,
  and its wallet has other words: the fees paid to the first address cannot be spent again.\<close>

theorem restart_forgets_registry:
  fixes B :: "('s, 'p) backend" and es :: "('f, 'o) section_event list" and H H' :: "('a, 'f, 'o) host"
    and sv0 sv' :: "('p, 'x, 'f, 'o, db) service"
  assumes first: "registry_main B T E H entropy sk args = Inr (addr, sv0)"
    and fresh: "ho_open_file H (sa_db_path args) = Inr None"
    and run: "sv = foldl (section_step B T (sqlite enc)) sv0 es" and on_disk: "st_db (sv_store sv) = Some d"
    and second: "registry_main B T E H' entropy' sk' args' = Inr (addr', sv')"
    and reopened: "ho_open_file H' (sa_db_path args') = Inr (Some d)"
    and bip39: "mnemonic_laws E" "length entropy = 16" "length entropy' = 16" "entropy \<noteq> entropy'"
  shows "dom (st_merchant_pool (sv_store sv)) \<subseteq> mr_name ` set (tb_merchants d) \<and>
    st_merchant_pool (sv_store sv') = Map.empty \<and> rg_merchants (sv_registry sv') = [] \<and>
    rg_anonymity_set (sv_registry sv') = [] \<and> st_active_sets (sv_store sv') = Map.empty \<and>
    st_db (sv_store sv') = Some d \<and> load_wallet_mnemonic d = None \<and>
    wl_mnemonic (st_wallet (sv_store sv')) \<noteq> wl_mnemonic (st_wallet (sv_store sv))"
proof -
  note s0 = registry_main_start [OF first] and s' = registry_main_start [OF second]
  have "only_merchants_saved sv0"
    using s0(3,8) fresh by (auto simp: only_merchants_saved_def create_tables_def)
  then have "only_merchants_saved sv"
    unfolding run by (rule disk_runs.run_inv)
  then have "dom (st_merchant_pool (sv_store sv)) \<subseteq> mr_name ` set (tb_merchants d)" "load_wallet_mnemonic d = None"
    using on_disk by (auto simp: only_merchants_saved_def load_wallet_mnemonic_def)
  moreover have "wl_mnemonic (st_wallet (sv_store sv)) = wl_mnemonic (st_wallet (sv_store sv0))"
    using run_wallet [of B T "sqlite enc" sv0 es] by (simp add: run wallet_keys_def Let_def)
  then have "wl_mnemonic (st_wallet (sv_store sv')) \<noteq> wl_mnemonic (st_wallet (sv_store sv))"
    using s0(7) s'(7) bip39 unfolding mnemonic_laws_def by metis
  ultimately show ?thesis
    using s'(3-6,8) reopened by (auto simp: create_tables_def)
qed

theorem restart_forgets_registry_witness:
  "\<exists>sv0 d sv'. registry_main sample sample_btc sample_bdk (sample_host None) (replicate 16 1) (replicate 32 1) args_default
      = Inr (sa_listen args_default, sv0) \<and>
    st_db (sv_store (foldl (section_step sample sample_btc (sqlite sample_hex)) sv0
      [BeneficiaryInsert sample_phi outpoint_null, Finalize (replicate 32 0)])) = Some d \<and>
    registry_main sample sample_btc sample_bdk (sample_host (Some d)) (replicate 16 2) (replicate 32 1) args_default
      = Inr (sa_listen args_default, sv') \<and>
    load_wallet_mnemonic d = None \<and> rg_anonymity_set (sv_registry sv') = []"
proof -
  let ?es = "[BeneficiaryInsert sample_phi outpoint_null, Finalize (replicate 32 0)]"
  obtain sv0 where first: "registry_main sample sample_btc sample_bdk (sample_host None) (replicate 16 1) (replicate 32 1)
      args_default = Inr (sa_listen args_default, sv0)"
    using sample_main by blast
  then have "only_merchants_saved sv0"
    using registry_main_start(3,8) [OF first] by (auto simp: only_merchants_saved_def create_tables_def sample_host_def)
  then have "only_merchants_saved (foldl (section_step sample sample_btc (sqlite sample_hex)) sv0 ?es)"
    by (rule disk_runs.run_inv)
  then obtain d where d: "st_db (sv_store (foldl (section_step sample sample_btc (sqlite sample_hex)) sv0 ?es)) = Some d"
    by (auto simp: only_merchants_saved_def split: option.splits)
  obtain sv' where second: "registry_main sample sample_btc sample_bdk (sample_host (Some d)) (replicate 16 2) (replicate 32 1)
      args_default = Inr (sa_listen args_default, sv')"
    using sample_main by blast
  have other: "replicate 16 (1 :: u8) \<noteq> replicate 16 2"
    by simp
  from restart_forgets_registry [OF first _ refl d second _ sample_mnemonic_laws _ _ other] show ?thesis
    using first d second by (simp add: sample_host_def)
qed

section \<open>The capacity\<close>

lemma insert_members:
  assumes "distinct (rg_anonymity_set (sv_registry sv) @ map fst ms)"
    and "length (rg_anonymity_set (sv_registry sv) @ map fst ms) \<le> cf_beneficiary_capacity (sv_config sv)"
  shows "\<exists>outs. foldl (section_step B T D) sv (map (\<lambda>(phi, op). BeneficiaryInsert phi op) ms) =
    sv\<lparr>sv_registry := (sv_registry sv)\<lparr>rg_anonymity_set := rg_anonymity_set (sv_registry sv) @ map fst ms,
         rg_outputs := rg_outputs (sv_registry sv) @ outs\<rparr>\<rparr>"
  using assms
proof (induction ms arbitrary: sv)
  case Nil
  show ?case by (intro exI [of _ "[]"]) simp
next
  case (Cons m ms)
  obtain phi op where m: "m = (phi, op)" by (cases m)
  let ?r = "sv_registry sv"
  let ?sv = "sv\<lparr>sv_registry := ?r\<lparr>rg_anonymity_set := rg_anonymity_set ?r @ [phi],
      rg_outputs := rg_outputs ?r @ [op]\<rparr>\<rparr>"
  have step: "section_step B T D sv (BeneficiaryInsert phi op) = ?sv"
    using Cons.prems
    by (simp add: m section_step_def register_beneficiary_insert_def beneficiary_count_def registry_add_beneficiary_def Let_def)
  obtain outs where "foldl (section_step B T D) ?sv (map (\<lambda>(phi, op). BeneficiaryInsert phi op) ms) =
      ?sv\<lparr>sv_registry := (sv_registry ?sv)\<lparr>rg_anonymity_set := rg_anonymity_set (sv_registry ?sv) @ map fst ms,
         rg_outputs := rg_outputs (sv_registry ?sv) @ outs\<rparr>\<rparr>"
    using Cons.IH [of ?sv] Cons.prems by (auto simp: m)
  then show ?case
    unfolding list.map foldl.simps m prod.case fst_conv step by (intro exI [of _ "op # outs"]) simp
qed

text \<open>The start does not depend on the capacity, apart from the registry's size and the configuration.\<close>

lemma registry_main_capacity:
  fixes B :: "('s, 'q) backend" and sv :: "('q, 'x, 'f, 'o, db) service"
  assumes "registry_main B T E H entropy sk args = Inr (addr, sv)"
  shows "\<exists>sv0. registry_main B T E H entropy sk (args\<lparr>sa_beneficiary_capacity := c\<rparr>) = Inr (addr, sv0)"
proof -
  have "\<exists>sv0. service_new B T sk st (server_config (args\<lparr>sa_beneficiary_capacity := c\<rparr>)) = Inr sv0"
    if "service_new B T sk st (server_config args) = Inr sv1" for st :: "('q, 'x, 'f, 'o, db) store" and sv1
    using that by (auto simp: service_new_def registry_new_def rbind_Inr_iff)
  then show ?thesis
    using assms by (fastforce simp: registry_main_def rbind_Inr_iff Let_def)
qed

text \<open>The bitcoin side of a finalization: the key tweaked by the root of the set exists, and the wallet pays
  the output of the set in a transaction with this id, which the database takes.\<close>

definition set_paid :: "('k, 'x) btc \<Rightarrow> 'd db_ops \<Rightarrow> ('p, 'x, 'f, 'o, 'd) service \<Rightarrow> bytes \<Rightarrow> bool" where
  "set_paid T D sv txid =
     (let r = sv_registry sv; key = bt_x_only T (bt_public_key T (rg_keypair r)) in
      case merkle_root (bt_sha256 T) (rg_anonymity_set r) of
        Inl _ \<Rightarrow> False
      | Inr root \<Rightarrow>
          (case bt_scalar_from_be T (bt_sha256 T (key @ root)) of
             None \<Rightarrow> False
           | Some tweak \<Rightarrow>
               (case bt_add_tweak T key tweak of
                  None \<Rightarrow> False
                | Some output \<Rightarrow>
                    fund_and_broadcast T (st_wallet (sv_store sv)) (bt_p2tr_tweaked T output)
                      (word_of_nat (cf_beneficiary_capacity (sv_config sv)) * cf_min_sats_per_user (sv_config sv)) = Inr txid \<and>
                    (case st_db (sv_store sv) of None \<Rightarrow> True
                     | Some d \<Rightarrow> (case db_mark_set_finalized D d txid txid of Inl _ \<Rightarrow> False | Inr _ \<Rightarrow> True)))))"

lemma set_paid_finalizes:
  assumes "rg_anonymity_set (sv_registry sv) \<noteq> []" "set_paid T D sv txid"
  shows "\<exists>sv'. finalize_set B T D sv (replicate 32 0) = (sv', Inr txid)"
  using assms
  by (auto simp: set_paid_def finalize_set_def parse_array_def try_into_array_def store_create_tx_def
      create_anonymity_set_def registry_setup_def Let_def split: sum.splits option.splits)

text \<open>C22. The capacity is not checked. The help text of \<open>--beneficiary-capacity\<close> demands at most
  \<open>N\<close>, but a server that starts at all starts with every value, and then lets as many members register.
  A set of more than \<open>N\<close> members is finalized as soon as its transaction is paid for, and published
  as it is; every member joins it, and no member can prove and no merchant accepts: creating a
  registration is an error and every proof is refused.\<close>

theorem capacity_above_n_blocks_set:
  fixes B :: "('s::field, 'p::ab_group_add) backend" and sva :: "('p, 'x, 'f, 'o, db) service"
  assumes start: "registry_main B T E H entropy sk args = Inr (addr, sva)"
  shows "\<exists>sv0 :: ('p, 'x, 'f, 'o, db) service.
    registry_main B T E H entropy sk (args\<lparr>sa_beneficiary_capacity := c\<rparr>) = Inr (addr, sv0) \<and>
    (\<forall>ms. distinct (map fst ms) \<longrightarrow> length ms \<le> c \<longrightarrow>
       rg_anonymity_set (sv_registry (foldl (section_step B T D) sv0 (map (\<lambda>(phi, op). BeneficiaryInsert phi op) ms))) =
         map fst ms) \<and>
    (\<forall>es sv raw txid. sv = foldl (section_step B T D) sv0 es \<longrightarrow> raw = rg_anonymity_set (sv_registry sv) \<longrightarrow>
       N_of B < length raw \<longrightarrow> (\<forall>phi\<in>set raw. length phi = 33) \<longrightarrow> set_paid T D sv txid \<longrightarrow> length txid = 32 \<longrightarrow>
       (\<exists>sv'. finalize_set B T D sv (replicate 32 0) = (sv', Inr txid) \<and>
          client_wait_for_finalization (call_subscribe B) txid sv' = (sv', Inr raw)) \<and>
       (\<forall>b. mc_phi (bn_credential b) \<in> set raw \<longrightarrow>
          (\<exists>b'. beneficiary_register b txid raw = Inr b' \<and>
             (\<forall>rng crs l. 1 \<le> l \<longrightarrow> l \<le> num_merchants (crs :: 'p crs) \<longrightarrow>
                create_payment_registration B rng b' crs l =
                  Inl (Err ''set must be a power of 2 with exactly N commitments'')))) \<and>
       (\<forall>crs reg. verify_payment_identity_registration B crs raw reg = Inr False))"
proof -
  obtain sv0 :: "('p, 'x, 'f, 'o, db) service" where
    main: "registry_main B T E H entropy sk (args\<lparr>sa_beneficiary_capacity := c\<rparr>) = Inr (addr, sv0)"
    using registry_main_capacity [OF start] by blast
  note s0 = registry_main_start [OF main]
  have filled: "rg_anonymity_set (sv_registry (foldl (section_step B T D) sv0
      (map (\<lambda>(phi, op). BeneficiaryInsert phi op) ms))) = map fst ms"
    if "distinct (map fst ms)" "length ms \<le> c" for ms
    using insert_members [of sv0 ms B T D] that s0(2,6) by (auto simp: server_config_def)
  have served: "\<exists>sv'. finalize_set B T D sv (replicate 32 0) = (sv', Inr txid) \<and>
      client_wait_for_finalization (call_subscribe B) txid sv' = (sv', Inr raw)"
    if raw: "raw = rg_anonymity_set (sv_registry sv)" "N_of B < length raw" "\<forall>phi\<in>set raw. length phi = 33"
      and paid: "set_paid T D sv txid" "length txid = 32" for sv :: "('p, 'x, 'f, 'o, db) service" and raw txid
  proof -
    have "rg_anonymity_set (sv_registry sv) \<noteq> []"
      using raw(1,2) by auto
    then obtain sv' where final: "finalize_set B T D sv (replicate 32 0) = (sv', Inr txid)"
      using set_paid_finalizes paid(1) by blast
    show ?thesis
      using finalized_set_served(1) [OF final paid(2)] raw final by simp
  qed
  have stuck: "\<exists>b'. beneficiary_register b txid raw = Inr b' \<and>
      (\<forall>rng crs l. 1 \<le> l \<longrightarrow> l \<le> num_merchants (crs :: 'p crs) \<longrightarrow>
         create_payment_registration B rng b' crs l =
           Inl (Err ''set must be a power of 2 with exactly N commitments''))"
    if "mc_phi (bn_credential b) \<in> set raw" "N_of B < length raw" for b raw txid
  proof -
    have "position (\<lambda>c. c = mc_phi (bn_credential b)) raw \<noteq> None"
      using that(1) unfolding position_None by blast
    then obtain i where "position (\<lambda>c. c = mc_phi (bn_credential b)) raw = Some i"
      by blast
    then show ?thesis
      using that(2)
      by (auto simp: beneficiary_register_def create_payment_registration_def prove_payment_identity_registration_def
          public_nullifier_def Let_def simp del: One_nat_def)
  qed
  have "verify_payment_identity_registration B crs raw reg = Inr False" if "N_of B < length raw" for crs raw reg
    using that by (simp add: verify_payment_identity_registration_def verify_payment_identity_registration_proof_def)
  then show ?thesis
    using main filled served stuck by blast
qed

definition sample_members :: "bytes list" where
  "sample_members = map (point_to_bytes sample) [Z0, Z1, Z2, Z3, Z4]"

lemma sample_members_shape: "length sample_members = 5" "distinct sample_members" "\<forall>c\<in>set sample_members. length c = 33"
    "mc_phi (bn_credential sample_beneficiary) \<in> set sample_members"
proof -
  obtain x where "mc_phi (bn_credential sample_beneficiary) = point_to_bytes sample x"
    by (simp add: sample_beneficiary_phi)
  then show "mc_phi (bn_credential sample_beneficiary) \<in> set sample_members"
    by (cases x) (simp_all add: sample_members_def)
qed (simp_all add: sample_members_def point_to_bytes_def sample_def)

text \<open>With the client and the database of the samples, every non-empty set is paid for.\<close>

lemma sample_paid:
  fixes sv :: "('p, bytes, nat, nat list, db) service"
  assumes "wl_client (st_wallet (sv_store sv)) = Some sample_client" and "rg_anonymity_set (sv_registry sv) \<noteq> []"
  shows "\<exists>txid. set_paid sample_btc (sqlite enc) sv txid \<and> length txid = 32"
proof -
  obtain root where root: "merkle_root (bt_sha256 sample_btc) (rg_anonymity_set (sv_registry sv)) = Inr root"
    using merkle_root_total [OF assms(2)] by blast
  have paid: "\<exists>txid. fund_and_broadcast sample_btc (st_wallet (sv_store sv)) script v = Inr txid \<and> length txid = 32" for script v
    using assms(1)
    by (simp add: fund_and_broadcast_def sample_client_def Let_def) (simp add: sample_btc_def digest32_def)
  obtain tweak out_key where key: "bt_scalar_from_be sample_btc (bt_sha256 sample_btc (x @ root)) = Some tweak"
      "bt_add_tweak sample_btc x tweak = Some out_key"
    if "x = bt_x_only sample_btc (bt_public_key sample_btc (rg_keypair (sv_registry sv)))" for x
    by (simp add: sample_btc_def)
  show ?thesis
    using root key paid [of "bt_p2tr_tweaked sample_btc out_key"
        "word_of_nat (cf_beneficiary_capacity (sv_config sv)) * cf_min_sats_per_user (sv_config sv)"]
    by (cases "st_db (sv_store sv)") (auto simp: set_paid_def Let_def)
qed

theorem capacity_above_n_blocks_set_witness:
  "\<exists>sv0 sv sv' txid b'. registry_main sample sample_btc sample_bdk (sample_host None) (replicate 16 1) (replicate 32 1)
      (args_default\<lparr>sa_beneficiary_capacity := 5\<rparr>) = Inr (sa_listen args_default, sv0) \<and>
    sv = foldl (section_step sample sample_btc (sqlite sample_hex)) sv0
      (map (\<lambda>(phi, op). BeneficiaryInsert phi op) (map (\<lambda>phi. (phi, outpoint_null)) sample_members)) \<and>
    finalize_set sample sample_btc (sqlite sample_hex) sv (replicate 32 0) = (sv', Inr txid) \<and>
    beneficiary_register sample_beneficiary txid sample_members = Inr b' \<and>
    create_payment_registration sample sample_rng b' sample_crs 2 =
      Inl (Err ''set must be a power of 2 with exactly N commitments'')"
proof -
  let ?ms = "map (\<lambda>phi. (phi, outpoint_null)) sample_members"
  let ?es = "map (\<lambda>(phi, op). BeneficiaryInsert phi op) ?ms"
  let ?main = "registry_main sample sample_btc sample_bdk (sample_host None) (replicate 16 1) (replicate 32 1)"
  let ?run = "foldl (section_step sample sample_btc (sqlite sample_hex))"
  obtain sva where "?main args_default = Inr (sa_listen args_default, sva)"
    using sample_main by blast
  from capacity_above_n_blocks_set [OF this, of 5 "sqlite sample_hex"] obtain sv0 where
    start: "?main (args_default\<lparr>sa_beneficiary_capacity := 5\<rparr>) = Inr (sa_listen args_default, sv0)"
    and filled: "\<forall>ms. distinct (map fst ms) \<longrightarrow> length ms \<le> 5 \<longrightarrow>
      rg_anonymity_set (sv_registry (?run sv0 (map (\<lambda>(phi, op). BeneficiaryInsert phi op) ms))) = map fst ms"
    and blocked: "\<forall>es sv raw txid. sv = ?run sv0 es \<longrightarrow> raw = rg_anonymity_set (sv_registry sv) \<longrightarrow>
      N_of sample < length raw \<longrightarrow> (\<forall>phi\<in>set raw. length phi = 33) \<longrightarrow> set_paid sample_btc (sqlite sample_hex) sv txid \<longrightarrow>
      length txid = 32 \<longrightarrow>
       (\<exists>sv'. finalize_set sample sample_btc (sqlite sample_hex) sv (replicate 32 0) = (sv', Inr txid) \<and>
          client_wait_for_finalization (call_subscribe sample) txid sv' = (sv', Inr raw)) \<and>
       (\<forall>b. mc_phi (bn_credential b) \<in> set raw \<longrightarrow>
          (\<exists>b'. beneficiary_register b txid raw = Inr b' \<and>
             (\<forall>rng crs l. 1 \<le> l \<longrightarrow> l \<le> num_merchants (crs :: gf5 crs) \<longrightarrow>
                create_payment_registration sample rng b' crs l =
                  Inl (Err ''set must be a power of 2 with exactly N commitments'')))) \<and>
       (\<forall>crs reg. verify_payment_identity_registration sample crs raw reg = Inr False)"
    by (elim exE conjE)
  define sv where "sv = ?run sv0 ?es"
  have raw: "sample_members = rg_anonymity_set (sv_registry sv)"
    using filled [rule_format, of ?ms] sample_members_shape by (simp add: sv_def comp_def)
  obtain outs where "sv = sv0\<lparr>sv_registry := (sv_registry sv0)\<lparr>rg_anonymity_set := sample_members, rg_outputs := outs\<rparr>\<rparr>"
    using insert_members [of sv0 ?ms sample sample_btc "sqlite sample_hex"] sample_members_shape registry_main_start(2,6) [OF start]
    by (auto simp: sv_def server_config_def comp_def)
  moreover have "wl_client (st_wallet (sv_store sv0)) = Some sample_client"
    using sample_main [of None "replicate 16 1" "args_default\<lparr>sa_beneficiary_capacity := 5\<rparr>"] start by auto
  ultimately have "wl_client (st_wallet (sv_store sv)) = Some sample_client" "rg_anonymity_set (sv_registry sv) \<noteq> []"
    by (simp_all add: sample_members_def)
  then obtain txid where "set_paid sample_btc (sqlite sample_hex) sv txid" "length txid = 32"
    using sample_paid by blast
  then obtain sv' b' where "finalize_set sample sample_btc (sqlite sample_hex) sv (replicate 32 0) = (sv', Inr txid)"
      "beneficiary_register sample_beneficiary txid sample_members = Inr b'"
      "create_payment_registration sample sample_rng b' sample_crs 2 =
        Inl (Err ''set must be a power of 2 with exactly N commitments'')"
    using blocked [rule_format, OF sv_def raw] sample_members_shape by (fastforce simp del: One_nat_def)
  then show ?thesis
    using start sv_def by blast
qed

end
