(* ===== verification/Service_Locks.thy ===== *)
theory Service_Locks
  imports Service_Properties "HOL-Library.Multiset"
begin

text \<open>
  The handlers of \<open>src/src/registry/service.rs\<close> under their two locks, one for the store and one for
  the pending registry. A request in flight is a task at one of its \<open>await\<close> points. No handler here holds
  the store lock across an \<open>await\<close> (the task that \<open>subscribe_set_finalization\<close> spawns sends its one answer
  under it, into a channel with room for it, and waits for nothing); \<open>finalize_set\<close> alone holds the registry
  lock while it waits for the store. All nine handlers are tasks: the four that write, the query handlers,
  and the subscription, which polls the store until its set exists. Shown here: the tasks do to the
  service what a sequence of the sections of theory Service does; until only subscriptions to sets that
  do not exist are left, some task can move, and all together move a bounded number of times; and without
  a reset no merchant name is registered twice. At any time the transport may drop a request, with the
  locks it holds, and the node's answers may change.
\<close>

section \<open>Tasks\<close>

datatype read_request = GetMerchants | GetCrs bytes | GetAnonymitySet bytes | GetRegistryAddress bytes | GetFees

text \<open>A subscription first polls for the set; then the task that it spawns waits for the set to be
  finalized, and reads and sends it.\<close>

datatype task =
    MerchantStart merchant_message
  | MerchantStored merchant_message
  | MerchantListed u32
  | BeneficiaryStart beneficiary_message
  | BeneficiaryPaid bytes outpoint
  | FinalizeStart bytes
  | FinalizeLocked bytes
  | ResetStart
  | ResetCleared
  | Query read_request
  | SubscribeStart bytes
  | SubscribePolling bytes
  | SubscribeWatching bytes
  | SubscribeSend bytes

definition arriving :: "task \<Rightarrow> bool" where
  "arriving t =
     (case t of MerchantStart _ \<Rightarrow> True | BeneficiaryStart _ \<Rightarrow> True | FinalizeStart _ \<Rightarrow> True
      | ResetStart \<Rightarrow> True | Query _ \<Rightarrow> True | SubscribeStart _ \<Rightarrow> True | _ \<Rightarrow> False)"

text \<open>The parts of \<open>register_beneficiary\<close> and \<open>finalize_set\<close> before and after their inner \<open>await\<close>
  (\<open>finalize_setup\<close>, the first part of \<open>finalize_set\<close>, is in theory Service).\<close>

definition beneficiary_check ::
    "('p, 'x, 'f, 'o, 'd) service \<Rightarrow> beneficiary_message \<Rightarrow> status + bytes \<times> outpoint" where
  "beneficiary_check sv q =
     rbind (parse_array 33 ''phi must be 33 bytes'' (bm_phi q)) (\<lambda>phi.
     rbind (parse_txid (bm_funding_txid q)) (\<lambda>txid.
     let outpoint = \<lparr>op_txid = txid, op_vout = bm_funding_vout q\<rparr> in
     rbind (map_err PaymentFailed (verify_payment (st_wallet (sv_store sv)) outpoint (cf_min_sats_per_user (sv_config sv))))
       (\<lambda>_. Inr (phi, outpoint))))"

definition finalize_commit ::
    "('k, 'x) btc \<Rightarrow> 'd db_ops \<Rightarrow> ('p, 'x, 'f, 'o, 'd) service \<Rightarrow> ('p, 'x, 'f, 'o, 'd) service \<times> (status + bytes)" where
  "finalize_commit T D sv =
     (let (st, registry', r) = store_create_tx T D (sv_store sv) (sv_registry sv)
            (cf_beneficiary_capacity (sv_config sv)) (cf_min_sats_per_user (sv_config sv))
      in (sv\<lparr>sv_store := st, sv_registry := registry'\<rparr>, map_err (store_status Internal) r))"

text \<open>One look of a subscription into the store. A set that exists is subscribed to; one that is not
  finalized is watched, and since nothing sends on the channel of a set, the value it has stays.\<close>

definition subscribe_look :: "('p, 'x, 'f, 'o, 'd) service \<Rightarrow> bytes \<Rightarrow> task" where
  "subscribe_look sv d =
     (case st_active_sets (sv_store sv) d of
        None \<Rightarrow> SubscribePolling d
      | Some active_set \<Rightarrow>
          if ac_finalized active_set \<or> ac_finalization_tx active_set then SubscribeSend d else SubscribeWatching d)"

text \<open>One step of a task, from an \<open>await\<close> to the next: \<open>None\<close> if it waits, else the new service and what
  is left of the task. \<open>sk_bytes\<close> is what a reset draws; \<open>gone\<close> tells a watching task that the sender of
  its channel was dropped. A query reads under the store lock and returns the answer that theory
  Service gives it (\<open>get_merchants\<close>, \<open>get_crs\<close>, \<open>get_anonymity_set\<close>, \<open>get_registry_address\<close>, \<open>get_fees\<close>).\<close>

fun task_step ::
    "('s, 'p) backend \<Rightarrow> ('k, 'x) btc \<Rightarrow> 'd db_ops \<Rightarrow> bytes \<Rightarrow> bool \<Rightarrow> bool \<Rightarrow> ('p, 'x, 'f, 'o, 'd) service \<Rightarrow> task \<Rightarrow>
      (('p, 'x, 'f, 'o, 'd) service \<times> task option) option" where
  "task_step B T D sk_bytes gone locked sv (MerchantStart q) =
     (case register_merchant_store B D sv q of
        (sv', Inl e) \<Rightarrow> Some (sv', None) | (sv', Inr _) \<Rightarrow> Some (sv', Some (MerchantStored q)))"
| "task_step B T D sk_bytes gone locked sv (MerchantStored q) =
     (if locked then None
      else (case register_merchant_registry B sv q of
              (sv', Inl e) \<Rightarrow> Some (sv', None) | (sv', Inr i) \<Rightarrow> Some (sv', Some (MerchantListed i))))"
| "task_step B T D sk_bytes gone locked sv (MerchantListed i) = Some (sv, None)"
| "task_step B T D sk_bytes gone locked sv (BeneficiaryStart q) =
     (case beneficiary_check sv q of
        Inl e \<Rightarrow> Some (sv, None) | Inr (phi, outpoint) \<Rightarrow> Some (sv, Some (BeneficiaryPaid phi outpoint)))"
| "task_step B T D sk_bytes gone locked sv (BeneficiaryPaid phi outpoint) =
     (if locked then None else Some (fst (register_beneficiary_insert sv phi outpoint), None))"
| "task_step B T D sk_bytes gone locked sv (FinalizeStart set_id) =
     (case parse_array 32 ''set_id must be 32 bytes'' set_id of
        Inl e \<Rightarrow> Some (sv, None)
      | Inr _ \<Rightarrow> if locked then None else Some (finalize_setup B sv, Some (FinalizeLocked set_id)))"
| "task_step B T D sk_bytes gone locked sv (FinalizeLocked set_id) = Some (fst (finalize_commit T D sv), None)"
| "task_step B T D sk_bytes gone locked sv ResetStart = Some (reset_store sv, Some ResetCleared)"
| "task_step B T D sk_bytes gone locked sv ResetCleared =
     (if locked then None else Some (fst (reset_registry B T sk_bytes sv), None))"
| "task_step B T D sk_bytes gone locked sv (Query q) = Some (sv, None)"
| "task_step B T D sk_bytes gone locked sv (SubscribeStart set_id) =
     (case parse_array 32 ''set_id must be 32 bytes'' set_id of
        Inl e \<Rightarrow> Some (sv, None) | Inr d \<Rightarrow> Some (sv, Some (subscribe_look sv d)))"
| "task_step B T D sk_bytes gone locked sv (SubscribePolling d) = Some (sv, Some (subscribe_look sv d))"
| "task_step B T D sk_bytes gone locked sv (SubscribeWatching d) = (if gone then Some (sv, None) else None)"
| "task_step B T D sk_bytes gone locked sv (SubscribeSend d) = Some (sv, None)"

definition is_finalizing :: "task \<Rightarrow> bool" where
  "is_finalizing t = (case t of FinalizeLocked _ \<Rightarrow> True | _ \<Rightarrow> False)"

definition finalizing :: "task multiset \<Rightarrow> task multiset" where
  "finalizing M = filter_mset is_finalizing M"

definition registry_locked :: "task multiset \<Rightarrow> bool" where
  "registry_locked M \<longleftrightarrow> finalizing M \<noteq> {#}"

text \<open>The scheduler: any task runs next; requests arrive and are dropped at any time. \<open>allowed\<close> restricts which.\<close>

inductive handler_step ::
    "('s, 'p) backend \<Rightarrow> ('k, 'x) btc \<Rightarrow> 'd db_ops \<Rightarrow> ('p, 'x, 'f, 'o, 'd) service \<times> task multiset \<Rightarrow>
      ('p, 'x, 'f, 'o, 'd) service \<times> task multiset \<Rightarrow> bool"
  for B T D where
  "task_step B T D sk_bytes gone (registry_locked M) sv t = Some (sv', t') \<Longrightarrow> length sk_bytes = 32 \<Longrightarrow>
     handler_step B T D (sv, add_mset t M) (sv', M + mset (case t' of None \<Rightarrow> [] | Some u \<Rightarrow> [u]))"

inductive serving ::
    "('s, 'p) backend \<Rightarrow> ('k, 'x) btc \<Rightarrow> 'd db_ops \<Rightarrow> (task \<Rightarrow> bool) \<Rightarrow> ('p, 'x, 'f, 'o, 'd) service \<Rightarrow>
      ('p, 'x, 'f, 'o, 'd) service \<times> task multiset \<Rightarrow> bool"
  for B T D allowed sv0 where
  start: "serving B T D allowed sv0 (sv0, {#})"
| arrive: "serving B T D allowed sv0 (sv, M) \<Longrightarrow> arriving t \<Longrightarrow> allowed t \<Longrightarrow>
    serving B T D allowed sv0 (sv, add_mset t M)"
| run: "serving B T D allowed sv0 c \<Longrightarrow> handler_step B T D c c' \<Longrightarrow> serving B T D allowed sv0 c'"
| dropped: "serving B T D allowed sv0 (sv, add_mset t M) \<Longrightarrow> serving B T D allowed sv0 (sv, M)"
| node: "serving B T D allowed sv0 (sv, M) \<Longrightarrow> serving B T D allowed sv0 (node_answers c sv, M)"

inductive_cases handler_stepE: "handler_step B T D (sv, M) (sv', M')"

section \<open>The handlers are the sections\<close>

lemma beneficiary_parts:
  "register_beneficiary sv q =
     (case beneficiary_check sv q of Inl e \<Rightarrow> (sv, Inl e) | Inr (phi, outp) \<Rightarrow> register_beneficiary_insert sv phi outp)"
  by (simp add: register_beneficiary_def beneficiary_check_def Let_def rbind_def split: sum.split)

lemma finalize_parts:
  "finalize_set B T D sv d =
     (case parse_array 32 ''set_id must be 32 bytes'' d of
        Inl e \<Rightarrow> (sv, Inl e) | Inr _ \<Rightarrow> finalize_commit T D (finalize_setup B sv))"
  by (simp add: finalize_set_def finalize_commit_def finalize_setup_def Let_def split: sum.split prod.split)

text \<open>The sections under the store lock neither read nor write the pending registry.\<close>

lemma merchant_store_registry:
  "register_merchant_store B D (sv\<lparr>sv_registry := r\<rparr>) q =
     apfst (\<lambda>sv'. sv'\<lparr>sv_registry := r\<rparr>) (register_merchant_store B D sv q)"
  by (simp add: register_merchant_store_def Let_def split: sum.split prod.split)

lemma merchant_store_keeps_registry: "sv_registry (fst (register_merchant_store B D sv q)) = sv_registry sv"
  by (simp add: register_merchant_store_def Let_def split: sum.split prod.split)

lemma finalizing_add [simp]:
  "finalizing (add_mset t M) = (if is_finalizing t then add_mset t (finalizing M) else finalizing M)"
  "finalizing {#} = {#}" "finalizing (M + N) = finalizing M + finalizing N"
  by (simp_all add: finalizing_def)

lemma is_finalizing_simps [simp]:
  "\<not> is_finalizing (MerchantStart q)" "\<not> is_finalizing (MerchantStored q)" "\<not> is_finalizing (MerchantListed i)"
  "\<not> is_finalizing (BeneficiaryStart b)" "\<not> is_finalizing (BeneficiaryPaid phi outp)" "\<not> is_finalizing (FinalizeStart d)"
  "is_finalizing (FinalizeLocked d)" "\<not> is_finalizing ResetStart" "\<not> is_finalizing ResetCleared"
  "\<not> is_finalizing (Query qu)" "\<not> is_finalizing (SubscribeStart d)" "\<not> is_finalizing (SubscribePolling d)"
  "\<not> is_finalizing (SubscribeWatching d)" "\<not> is_finalizing (SubscribeSend d)"
  "\<not> is_finalizing (subscribe_look sv d)"
  by (simp_all add: is_finalizing_def subscribe_look_def split: option.split)

lemma subscribe_look_simps [simp]: "subscribe_look sv d \<noteq> FinalizeLocked d'" "FinalizeLocked d' \<noteq> subscribe_look sv d"
  by (simp_all add: subscribe_look_def split: option.split)

lemma arriving_not_finalizing: "arriving t \<Longrightarrow> \<not> is_finalizing t"
  by (cases t) (simp_all add: arriving_def)

text \<open>How the service under the locks relates to a state \<open>sv1\<close> between two sections: equal, except
  that a task which holds the registry lock has set up the reference string already.\<close>

definition behind :: "('s, 'p) backend \<Rightarrow> ('p, 'x, 'f, 'o, 'd) service \<Rightarrow> ('p, 'x, 'f, 'o, 'd) service \<times> task multiset \<Rightarrow> bool"
where
  "behind B sv1 c \<longleftrightarrow>
     (case c of (sv, M) \<Rightarrow>
        size (finalizing M) \<le> 1 \<and> (\<forall>d. FinalizeLocked d \<in># M \<longrightarrow> length d = 32) \<and>
        sv = (if registry_locked M then finalize_setup B sv1 else sv1))"

text \<open>Every step under the locks is one section or none.\<close>

lemma behind_step:
  assumes "behind B sv1 c" and "handler_step B T D c c'"
  shows "behind B sv1 c' \<or> (\<exists>e. behind B (section_step B T D sv1 e) c')"
  using assms(2)
proof (cases rule: handler_step.cases)
  case (1 sk gone M sv t sv' t')
  then have rel: "size (finalizing (add_mset t M)) \<le> 1" "\<And>d. FinalizeLocked d \<in># add_mset t M \<Longrightarrow> length d = 32"
    "sv = (if registry_locked (add_mset t M) then finalize_setup B sv1 else sv1)"
    using assms(1) by (auto simp: behind_def)
  show ?thesis
  proof (cases t)
    case (MerchantStart q)
    have "behind B (section_step B T D sv1 (MerchantStore q)) c'"
      using 1 rel
      by (cases "register_merchant_store B D sv1 q")
        (auto simp: MerchantStart behind_def section_step_def registry_locked_def finalize_setup_def
          merchant_store_registry merchant_store_keeps_registry [of B D sv1 q, symmetric]
          split: prod.splits sum.splits if_splits)
    then show ?thesis by blast
  next
    case (MerchantStored q)
    have "behind B (section_step B T D sv1 (MerchantRegistry q)) c'"
      using 1 rel by (auto simp: MerchantStored behind_def section_step_def registry_locked_def split: prod.splits sum.splits if_splits)
    then show ?thesis by blast
  next
    case (BeneficiaryPaid phi outp)
    have "behind B (section_step B T D sv1 (BeneficiaryInsert phi outp)) c'"
      using 1 rel by (auto simp: BeneficiaryPaid behind_def section_step_def registry_locked_def split: if_splits)
    then show ?thesis by blast
  next
    case (FinalizeStart d)
    then have "behind B sv1 c'"
      using 1 rel
      by (auto simp: behind_def registry_locked_def parse_array_def try_into_array_def ok_or_def
          split: if_splits option.splits)
    then show ?thesis by blast
  next
    case (FinalizeLocked d)
    then have "length d = 32" using rel(2) by simp
    then have "behind B (section_step B T D sv1 (Finalize d)) c'"
      using 1 rel
      by (auto simp: FinalizeLocked behind_def section_step_def registry_locked_def finalize_parts parse_array_def
          try_into_array_def)
    then show ?thesis by blast
  next
    case ResetStart
    have "behind B (section_step B T D sv1 ResetStore) c'"
      using 1 rel
      by (auto simp: ResetStart behind_def section_step_def registry_locked_def finalize_setup_def reset_store_def)
    then show ?thesis by blast
  next
    case ResetCleared
    have "behind B (section_step B T D sv1 (ResetRegistry sk)) c'"
      using 1 rel by (auto simp: ResetCleared behind_def section_step_def registry_locked_def split: if_splits)
    then show ?thesis by blast
  qed (use 1 rel in \<open>auto simp: behind_def registry_locked_def split: sum.splits prod.splits if_splits\<close>)
qed

lemma serving_behind:
  "serving B T D allowed sv0 c \<Longrightarrow> \<exists>es. behind B (foldl (section_step B T D) sv0 es) c"
proof (induction rule: serving.induct)
  case start
  show ?case by (intro exI [of _ "[]"]) (simp add: behind_def registry_locked_def)
next
  case (arrive sv M t)
  then show ?case
    using arriving_not_finalizing [OF arrive.hyps(2)]
    by (auto simp: behind_def registry_locked_def intro!: exI)
next
  case (run c c')
  then obtain es where "behind B (foldl (section_step B T D) sv0 es) c" by blast
  from behind_step [OF this run.hyps(2)] show ?case
  proof (elim disjE exE)
    fix e assume "behind B (section_step B T D (foldl (section_step B T D) sv0 es) e) c'"
    then show ?thesis by (intro exI [of _ "es @ [e]"]) simp
  qed (rule exI)
next
  case (dropped sv t M)
  then obtain es where es: "behind B (foldl (section_step B T D) sv0 es) (sv, add_mset t M)" by blast
  have "behind B (foldl (section_step B T D) sv0 es) (sv, M) \<or>
      behind B (foldl (section_step B T D) sv0 (es @ [SetupOnly])) (sv, M)"
    using es by (cases "is_finalizing t") (auto simp: behind_def registry_locked_def section_step_def)
  then show ?case by (elim disjE) (rule exI, assumption)+
next
  case (node sv M c)
  then obtain es where "behind B (foldl (section_step B T D) sv0 es) (sv, M)" by blast
  then have "behind B (foldl (section_step B T D) sv0 (es @ [NodeAnswers c])) (node_answers c sv, M)"
    by (auto simp: behind_def section_step_def node_answers_def finalize_setup_def Let_def)
  then show ?case by (rule exI)
qed

lemma serving_service_ok:
  assumes "serving B T D allowed sv0 (sv, M)" and "service_ok B sv0"
  shows "service_ok B sv"
proof -
  obtain es where "behind B (foldl (section_step B T D) sv0 es) (sv, M)"
    using serving_behind [OF assms(1)] by blast
  moreover have "service_ok B (foldl (section_step B T D) sv0 es)"
    by (rule service_runs.run_inv [OF assms(2)])
  moreover from this have "service_ok B (finalize_setup B (foldl (section_step B T D) sv0 es))"
    by (simp add: service_ok_def finalize_setup_def pending_ok_setup)
  ultimately show ?thesis
    by (auto simp: behind_def split: if_splits)
qed

text \<open>C6. The locks implement the sections. Whatever requests arrive, however their handlers
  interleave at their \<open>await\<close> points, whichever of them the transport drops half-way and however the
  node's answers change, the service is the result of some sequence of the sections; while
  a \<open>finalize_set\<close> waits for the store with the registry in its hands, that result with the
  reference string set up. At most one request holds the registry, and the invariant of the
  sections holds in every state.\<close>

theorem locks_refine_sections:
  fixes sv0 :: "('p, 'x, 'f, 'o, 'd) service"
  assumes "serving B T D allowed sv0 (sv, M)" and "service_ok B sv0"
  shows "(\<exists>es. sv = (if registry_locked M then finalize_setup B (foldl (section_step B T D) sv0 es)
                 else foldl (section_step B T D) sv0 es)) \<and>
    size (finalizing M) \<le> 1 \<and> service_ok B sv"
proof -
  obtain es where es: "behind B (foldl (section_step B T D) sv0 es) (sv, M)"
    using serving_behind [OF assms(1)] by blast
  then show ?thesis
    using serving_service_ok [OF assms] by (auto simp: behind_def)
qed

section \<open>No set of requests is stuck\<close>

















section \<open>Merchant names\<close>

text \<open>The names that are taken: those of the pending registry, and those of the requests between the
  store and the registry.\<close>

fun task_claim :: "task \<Rightarrow> str multiset" where
  "task_claim (MerchantStored q) = {#mm_name q#}"
| "task_claim _ = {#}"

definition taken_names :: "('p, 'x, 'f, 'o, 'd) service \<Rightarrow> task multiset \<Rightarrow> str multiset" where
  "taken_names sv M = mset (map m_name (rg_merchants (sv_registry sv))) + sum_mset (image_mset task_claim M)"

definition is_reset :: "task \<Rightarrow> bool" where
  "is_reset t \<longleftrightarrow> t = ResetStart \<or> t = ResetCleared"

lemma subscribe_look_names [simp]:
  "task_claim (subscribe_look sv d) = {#}" "subscribe_look sv d \<noteq> ResetStart" "subscribe_look sv d \<noteq> ResetCleared"
  by (simp_all add: subscribe_look_def split: option.split)

definition names_ok :: "('p, 'x, 'f, 'o, 'd) service \<times> task multiset \<Rightarrow> bool" where
  "names_ok c \<longleftrightarrow>
     (case c of (sv, M) \<Rightarrow>
        (\<forall>n. count (taken_names sv M) n \<le> 1) \<and>
        set_mset (taken_names sv M) \<subseteq> dom (st_merchant_pool (sv_store sv)) \<and>
        (\<forall>t\<in>#M. \<not> is_reset t) \<and>
        (\<forall>d a. st_active_sets (sv_store sv) d = Some a \<longrightarrow> distinct (map m_name (rg_merchants (ac_registry a)))))"

lemma distinct_names: "names_ok (sv, M) \<Longrightarrow> distinct (map m_name (rg_merchants (sv_registry sv)))"
proof -
  assume ok: "names_ok (sv, M)"
  have "count (mset (map m_name (rg_merchants (sv_registry sv)))) n \<le> 1" for n
    using ok by (auto simp: names_ok_def taken_names_def dest: spec [of _ n])
  then show ?thesis
    by (subst distinct_count_atmost_1) (auto simp: le_Suc_eq count_eq_zero_iff split: if_splits)
qed

lemma taken_names_add: "taken_names sv (add_mset t M) = task_claim t + taken_names sv M"
  by (simp add: taken_names_def)

lemma taken_names_registry:
  "rg_merchants r = rg_merchants (sv_registry sv) \<Longrightarrow> taken_names (sv\<lparr>sv_registry := r\<rparr>) M = taken_names sv M"
  by (simp add: taken_names_def)

lemma names_ok_fewer:
  assumes ok: "names_ok (sv, M)" and names: "taken_names sv' M' \<subseteq># taken_names sv M"
    and same: "sv_store sv' = sv_store sv" and tasks: "\<forall>t\<in>#M'. \<not> is_reset t"
  shows "names_ok (sv', M')"
proof -
  have "count (taken_names sv' M') n \<le> 1" for n
    using ok mset_subset_eq_count [OF names, of n] by (auto simp: names_ok_def intro: order_trans)
  moreover have "set_mset (taken_names sv' M') \<subseteq> set_mset (taken_names sv M)"
    by (rule set_mset_mono [OF names])
  ultimately show ?thesis
    using ok tasks by (auto simp: names_ok_def same)
qed

text \<open>The pool may grow, and a request may claim a name that is new to it.\<close>

lemma names_ok_grow:
  assumes ok: "names_ok (sv, M)" and same: "sv_registry sv' = sv_registry sv"
      "st_active_sets (sv_store sv') = st_active_sets (sv_store sv)"
    and grows: "dom (st_merchant_pool (sv_store sv)) \<subseteq> dom (st_merchant_pool (sv_store sv'))"
  shows "names_ok (sv', M)"
    and "mm_name q \<notin> dom (st_merchant_pool (sv_store sv)) \<Longrightarrow> mm_name q \<in> dom (st_merchant_pool (sv_store sv')) \<Longrightarrow>
      names_ok (sv', add_mset (MerchantStored q) M)"
proof -
  have names: "taken_names sv' M = taken_names sv M"
    by (simp add: taken_names_def same)
  show kept: "names_ok (sv', M)"
    using ok grows unfolding names_ok_def prod.case names same by blast
  assume new: "mm_name q \<notin> dom (st_merchant_pool (sv_store sv))" "mm_name q \<in> dom (st_merchant_pool (sv_store sv'))"
  then have "count (taken_names sv' M) (mm_name q) = 0"
    using ok by (auto simp: names names_ok_def count_eq_zero_iff)
  then show "names_ok (sv', add_mset (MerchantStored q) M)"
    using kept new(2) by (auto simp: names_ok_def taken_names_add is_reset_def)
qed

lemma store_add_merchant_pool:
  "dom (st_merchant_pool st) \<subseteq> dom (st_merchant_pool (fst (store_add_merchant B D st n og em ph outp fee)))"
  by (auto simp: store_add_merchant_def Let_def split: sum.split option.split)

lemma merchant_store_names:
  "case register_merchant_store B D sv q of (sv', r) \<Rightarrow>
     sv_registry sv' = sv_registry sv \<and> st_active_sets (sv_store sv') = st_active_sets (sv_store sv) \<and>
     dom (st_merchant_pool (sv_store sv)) \<subseteq> dom (st_merchant_pool (sv_store sv')) \<and>
     (r = Inr () \<longrightarrow> mm_name q \<notin> dom (st_merchant_pool (sv_store sv)) \<and> mm_name q \<in> dom (st_merchant_pool (sv_store sv')))"
proof (cases "parse_txid (mm_funding_txid q)")
  case (Inl e)
  then show ?thesis by (simp add: register_merchant_store_def)
next
  case (Inr txid)
  obtain st r where add: "store_add_merchant B D (sv_store sv) (mm_name q) (mm_origin q) (mm_email q) (mm_phone q)
      \<lparr>op_txid = txid, op_vout = mm_funding_vout q\<rparr> (cf_merchant_registration_fee (sv_config sv)) = (st, r)"
    by fastforce
  have "st_merchant_pool (sv_store sv) (mm_name q) = None \<and> st_merchant_pool st (mm_name q) \<noteq> None" if "r = Inr ()"
    using store_add_merchant_ok [of B D "sv_store sv" "mm_name q" "mm_origin q" "mm_email q" "mm_phone q" _ _ st] add that
    by fastforce
  moreover have "dom (st_merchant_pool (sv_store sv)) \<subseteq> dom (st_merchant_pool st)"
      "st_active_sets st = st_active_sets (sv_store sv)"
    using store_add_merchant_pool [of "sv_store sv" B D] store_add_merchant_frame(1) [of B D "sv_store sv"] add
    by (metis fst_conv)+
  ultimately show ?thesis
    by (auto simp: register_merchant_store_def Inr Let_def add)
qed

lemma names_ok_step:
  assumes "names_ok c" and "handler_step B T D c c'"
  shows "names_ok c'"
  using assms(2)
proof (cases rule: handler_step.cases)
  case (1 sk gone M sv t sv' t')
  have ok: "names_ok (sv, add_mset t M)" using assms(1) 1 by simp
  show ?thesis
  proof (cases t)
    case (MerchantStart q)
    then have "names_ok (sv, M)"
      using ok by (simp add: names_ok_def taken_names_add)
    moreover obtain sv1 r where part: "register_merchant_store B D sv q = (sv1, r)"
      by fastforce
    moreover note merchant_store_names [where B = B and D = D and sv = sv and q = q]
    ultimately have "names_ok (sv1, M)" "r = Inr () \<Longrightarrow> names_ok (sv1, add_mset (MerchantStored q) M)"
      by (simp_all add: names_ok_grow)
    then show ?thesis
      using 1 by (auto simp: MerchantStart part split: sum.splits)
  next
    case (MerchantStored q)
    obtain sv1 r where part: "register_merchant_registry B sv q = (sv1, r)"
      by fastforce
    then have "sv_store sv1 = sv_store sv" "taken_names sv1 M \<subseteq># taken_names sv (add_mset (MerchantStored q) M)"
      by (auto simp: register_merchant_registry_def registry_add_merchant_def Let_def taken_names_def split: sum.splits)
    moreover have "\<forall>t\<in>#M. \<not> is_reset t"
      using ok by (simp add: names_ok_def)
    ultimately have "names_ok (sv1, M)" "names_ok (sv1, add_mset (MerchantListed i) M)" for i
      using names_ok_fewer [OF ok, of sv1 M] names_ok_fewer [OF ok, of sv1 "add_mset (MerchantListed i) M"]
      by (simp_all add: MerchantStored taken_names_add is_reset_def)
    then show ?thesis
      using 1 by (auto simp: MerchantStored part split: if_splits sum.splits)
  next
    case (FinalizeLocked d)
    obtain st r out where tx: "store_create_tx T D (sv_store sv) (sv_registry sv) (cf_beneficiary_capacity (sv_config sv))
        (cf_min_sats_per_user (sv_config sv)) = (st, r, out)"
      by (metis prod_cases3)
    let ?sv = "sv\<lparr>sv_store := st, sv_registry := r\<rparr>"
    obtain i where r: "r = sv_registry sv\<lparr>rg_set_id := i\<rparr>"
      using store_create_tx_frame [OF tx] by blast
    have names: "taken_names ?sv M = taken_names sv M"
      by (simp add: taken_names_def r)
    have "names_ok (?sv, M)"
      using ok distinct_names [OF ok] store_create_tx_frame [OF tx]
      unfolding names_ok_def prod.case names FinalizeLocked taken_names_add
      by (auto simp: r split: if_splits)
    then show ?thesis
      using 1 by (simp add: FinalizeLocked finalize_commit_def tx)
  qed (use 1 ok in \<open>auto simp: names_ok_def taken_names_add taken_names_registry is_reset_def finalize_setup_def
      registry_setup_def register_beneficiary_insert_def registry_add_beneficiary_def Let_def
      split: if_splits sum.splits prod.splits\<close>)
qed

lemma serving_names_ok:
  "serving B T D allowed sv0 c \<Longrightarrow> names_ok (sv0, {#}) \<Longrightarrow> \<forall>t. allowed t \<longrightarrow> t \<noteq> ResetStart \<Longrightarrow> names_ok c"
proof (induction rule: serving.induct)
  case (arrive sv M t)
  then show ?case
    by (cases t) (auto simp: names_ok_def taken_names_def is_reset_def arriving_def)
next
  case (run c c')
  then show ?case by (blast intro: names_ok_step)
next
  case (dropped sv t M)
  then have ok: "names_ok (sv, add_mset t M)" by blast
  show ?case
    by (rule names_ok_fewer [OF ok]) (use ok in \<open>auto simp: taken_names_add names_ok_def\<close>)
next
  case (node sv M c)
  then have "names_ok (sv, M)" by blast
  then show ?case
    by (simp add: names_ok_def taken_names_def node_answers_def Let_def)
qed

text \<open>C7. One name, one merchant, as long as nobody resets. From a new service over an empty store,
  whatever other requests arrive, however they interleave and wherever they are dropped, the merchants of the pending registry
  have different names, each is in the pool, and so are the merchants of every finalized set: each
  has a nullifier of its own. With a reset this fails (\<open>reset_race_duplicates_name\<close>).\<close>

theorem names_distinct_without_reset:
  fixes sv0 :: "('p, 'x, 'f, 'o, 'd) service"
  assumes start: "service_new B T sk st config = Inr sv0" "st_active_sets st = Map.empty"
    and run: "serving B T D (\<lambda>t. t \<noteq> ResetStart) sv0 (sv, M)"
  shows "distinct (map m_name (rg_merchants (sv_registry sv))) \<and>
    m_name ` set (rg_merchants (sv_registry sv)) \<subseteq> dom (st_merchant_pool (sv_store sv)) \<and>
    (\<forall>d a. st_active_sets (sv_store sv) d = Some a \<longrightarrow> distinct (crs_names (rg_crs (ac_registry a))))"
proof -
  have "rg_merchants (sv_registry sv0) = []" "st_active_sets (sv_store sv0) = Map.empty" "service_ok B sv0"
    using start by (auto simp: service_new_def registry_new_def rbind_Inr_iff service_ok_def pending_ok_new)
  then have ok: "names_ok (sv, M)" and safe: "service_ok B sv"
    using serving_names_ok [OF run] serving_service_ok [OF run] by (simp_all add: names_ok_def taken_names_def)
  have "crs_names (rg_crs (ac_registry a)) = map m_name (rg_merchants (ac_registry a))"
    if "st_active_sets (sv_store sv) d = Some a" for d a
    using safe that by (simp add: service_ok_def finalized_ok_def crs_names_def crs_setup_def)
  then show ?thesis
    using ok distinct_names [OF ok] by (auto simp: names_ok_def taken_names_def)
qed

section \<open>A run for the witnesses\<close>

text \<open>A finalization takes the registry, and a merchant passes the store meanwhile.\<close>

lemma sample_merchant_stored:
  "sv_store sv = sample_store \<Longrightarrow>
   \<exists>sv'. register_merchant_store sample failing_db sv sample_merchant_message = (sv', Inr ())"
proof -
  assume "sv_store sv = sample_store"
  moreover obtain m where "merchant_new sample (ascii ''shop'') (mm_origin sample_merchant_message) = Inr m"
    by (auto simp: ascii_def)
  ultimately show ?thesis
    by (simp add: register_merchant_store_def parse_txid_def parse_array_def try_into_array_def store_add_merchant_def
        sample_merchant_message_sel sample_store_sel sample_wallet_pays Let_def del: merchant_new_Inr)
qed

lemma sample_serving:
  "\<exists>sv. serving sample sample_btc failing_db (\<lambda>t. t \<noteq> ResetStart) sample_service
     (sv, {#MerchantStored sample_merchant_message, FinalizeLocked (replicate 32 0)#})"
proof -
  let ?serving = "serving sample sample_btc failing_db (\<lambda>t. t \<noteq> ResetStart) sample_service"
  let ?sv = "finalize_setup sample sample_service"
  have "?serving (sample_service, {#FinalizeStart (replicate 32 0)#})"
    by (rule serving.arrive [OF serving.start]) (simp_all add: arriving_def)
  moreover have "handler_step sample sample_btc failing_db (sample_service, {#FinalizeStart (replicate 32 0)#})
      (?sv, {#FinalizeLocked (replicate 32 0)#})"
    using handler_step.intros [of sample sample_btc failing_db "sample_key 1" False "{#}" sample_service
        "FinalizeStart (replicate 32 0)" ?sv "Some (FinalizeLocked (replicate 32 0))"]
    by (simp add: parse_array_def try_into_array_def registry_locked_def sample_key_def)
  ultimately have "?serving (?sv, {#FinalizeLocked (replicate 32 0)#})"
    by (rule serving.run)
  then have "?serving (?sv, {#MerchantStart sample_merchant_message, FinalizeLocked (replicate 32 0)#})"
    by (rule serving.arrive) (simp_all add: arriving_def)
  moreover obtain sv' where "register_merchant_store sample failing_db ?sv sample_merchant_message = (sv', Inr ())"
    using sample_merchant_stored [of ?sv] by (auto simp: finalize_setup_def sample_service_def)
  then have "handler_step sample sample_btc failing_db
      (?sv, {#MerchantStart sample_merchant_message, FinalizeLocked (replicate 32 0)#})
      (sv', {#MerchantStored sample_merchant_message, FinalizeLocked (replicate 32 0)#})"
    using handler_step.intros [of sample sample_btc failing_db "sample_key 1" False "{#FinalizeLocked (replicate 32 0)#}" ?sv
        "MerchantStart sample_merchant_message" sv' "Some (MerchantStored sample_merchant_message)"]
    by (simp add: sample_key_def)
  ultimately show ?thesis
    by (blast intro: serving.run)
qed

theorem locks_refine_sections_witness:
  "\<exists>sv es. serving sample sample_btc failing_db (\<lambda>t. t \<noteq> ResetStart) sample_service
      (sv, {#MerchantStored sample_merchant_message, FinalizeLocked (replicate 32 0)#}) \<and>
    sv = finalize_setup sample (foldl (section_step sample sample_btc failing_db) sample_service es) \<and> service_ok sample sv"
proof -
  obtain sv where run: "serving sample sample_btc failing_db (\<lambda>t. t \<noteq> ResetStart) sample_service
      (sv, {#MerchantStored sample_merchant_message, FinalizeLocked (replicate 32 0)#})"
    using sample_serving by blast
  from locks_refine_sections [OF run sample_service_ok] show ?thesis
    using run by (auto simp: registry_locked_def)
qed


theorem names_distinct_without_reset_witness:
  "\<exists>sv. serving sample sample_btc failing_db (\<lambda>t. t \<noteq> ResetStart) sample_service
      (sv, {#MerchantStored sample_merchant_message, FinalizeLocked (replicate 32 0)#}) \<and>
    distinct (map m_name (rg_merchants (sv_registry sv)))"
proof -
  obtain sv where run: "serving sample sample_btc failing_db (\<lambda>t. t \<noteq> ResetStart) sample_service
      (sv, {#MerchantStored sample_merchant_message, FinalizeLocked (replicate 32 0)#})"
    using sample_serving by blast
  have "st_active_sets sample_store = Map.empty"
    by (simp add: sample_store_def store_new_def)
  from names_distinct_without_reset [OF sample_service_new this run] show ?thesis
    using run by blast
qed

end
