(* ===== verification/Test_Support.thy ===== *)
theory Test_Support
  imports Beneficiary "HOL-Library.Sublist"
begin

text \<open>
  What the unit tests of the source share: assertions, and the fixtures of the test modules of
  \<open>credential.rs\<close>, \<open>crs.rs\<close> and \<open>verifier.rs\<close> (the copies of the same helpers in
  \<open>payment_identity.rs\<close> and \<open>registry.rs\<close> are these). A test is a computation that returns
  \<open>()\<close> or panics; it passes when it returns. The values \<open>merchant_of\<close>, \<open>crs_of\<close> and
  \<open>credential_of\<close> are what the fixtures evaluate to.
\<close>

named_theorems fixture_simps "values of the fixtures of the unit tests"

section \<open>Assertions\<close>

definition assert_that :: "string \<Rightarrow> bool \<Rightarrow> failure + unit" where
  "assert_that what c = (if c then Inr () else Inl (Panic what))"

lemma assert_that_iff [simp]: "assert_that what c = Inr () \<longleftrightarrow> c"
  by (simp add: assert_that_def)

lemma assert_that_True [simp]: "assert_that what True = Inr ()"
  by (simp add: assert_that_def)

lemma rbind_Inr_right [simp]: "rbind r Inr = r"
  by (cases r) simp_all

text \<open>A loop whose body asserts, and \<open>#[should_panic(expected = ...)]\<close>: the panic message
  contains the expected one.\<close>

definition for_each :: "('a \<Rightarrow> failure + unit) \<Rightarrow> 'a list \<Rightarrow> failure + unit" where
  "for_each f xs = rbind (collect_res f xs) (\<lambda>_. Inr ())"

lemma for_each_iff [simp]: "for_each f xs = Inr () \<longleftrightarrow> (\<forall>x\<in>set xs. f x = Inr ())"
proof -
  have "(\<exists>ys. collect_res f xs = Inr ys) \<longleftrightarrow> (\<forall>x\<in>set xs. f x = Inr ())"
    by (induction xs) (auto simp: rbind_Inr_iff)
  then show ?thesis
    by (simp add: for_each_def rbind_Inr_iff)
qed

definition should_panic :: "string \<Rightarrow> failure + 'a \<Rightarrow> failure + unit" where
  "should_panic expected r =
     (case r of
        Inl (Panic msg) \<Rightarrow> assert_that ''panic did not contain expected string'' (sublist expected msg)
      | _ \<Rightarrow> Inl (Panic ''test did not panic as expected''))"

lemma rbind_unit_iff: "rbind r f = Inr () \<longleftrightarrow> (\<exists>x. r = Inr x \<and> f x = Inr ())"
  by (rule rbind_Inr_iff)

text \<open>\<open>.unwrap()\<close> of a result.\<close>

definition unwrap :: "failure + 'a \<Rightarrow> failure + 'a" where
  "unwrap r = expect ''called Result::unwrap() on an Err value'' r"

lemma unwrap_simps [simp]: "unwrap (Inr x) = Inr x" "unwrap r = Inr x \<longleftrightarrow> r = Inr x"
  by (simp_all add: unwrap_def)

text \<open>\<open>format!("{seed:02x}")\<close>.\<close>

definition show_02x :: "u8 \<Rightarrow> str" where
  "show_02x b = [hex_digit (unat b div 16), hex_digit (unat b mod 16)]"

lemma length_show_02x [simp]: "length (show_02x b) = 2"
  by (simp add: show_02x_def)

lemma length_show_nat: "length (show_nat n) \<le> Suc n"
proof (induction n rule: show_nat.induct)
  case (1 n)
  show ?case
  proof (cases "n < 10")
    case True
    then show ?thesis by (subst show_nat.simps) simp
  next
    case False
    then have "length (show_nat (n div 10)) \<le> Suc (n div 10)" by (rule 1)
    moreover have "Suc (n div 10) < Suc n" using False by simp
    ultimately show ?thesis using False by (subst show_nat.simps) simp
  qed
qed

section \<open>Fixtures\<close>

definition make_provider :: "('s, 'p) backend \<Rightarrow> str \<Rightarrow> failure + merchant" where
  "make_provider B name = merchant_new B name (ascii ''https://'' @ name)"

definition make_merchants :: "('s, 'p) backend \<Rightarrow> string \<Rightarrow> nat \<Rightarrow> failure + merchant list" where
  "make_merchants B base n = collect_res (\<lambda>i. make_provider B (ascii base @ show_nat i)) [0..<n]"

text \<open>The three \<open>make_crs\<close> differ in the names of the merchants and in the set size.\<close>

definition make_crs_service :: "('s, 'p) backend \<Rightarrow> nat \<Rightarrow> failure + 'p crs" where
  "make_crs_service B n = rbind (make_merchants B ''service-'' n) (\<lambda>ms. Inr (crs_setup B ms (N_of B)))"

definition make_crs_with :: "('s, 'p) backend \<Rightarrow> nat \<Rightarrow> failure + 'p crs" where
  "make_crs_with B count = rbind (make_merchants B ''service-'' count) (\<lambda>ms. Inr (crs_setup B ms 1024))"

definition make_crs_user :: "('s, 'p) backend \<Rightarrow> nat \<Rightarrow> failure + 'p crs" where
  "make_crs_user B n = rbind (make_merchants B ''user-'' n) (\<lambda>ms. Inr (crs_setup B ms (N_of B)))"

text \<open>\<open>[seed; 32]\<close> and the wrapping successors of the seed.\<close>

definition fill32 :: "u8 \<Rightarrow> bytes" where
  "fill32 b = replicate 32 b"

definition make_credential :: "('s, 'p::ab_group_add) backend \<Rightarrow> 'p crs \<Rightarrow> u8 \<Rightarrow> failure + credential" where
  "make_credential B crs seed =
     (let sk = fill32 seed; r = fill32 (seed + 1); k = fill32 (seed + 2) in
      rbind (friendly_name_new (ascii ''user-'' @ show_02x seed)) (\<lambda>name.
      credential_create B crs sk r k name))"

definition make_beneficiary ::
    "('s, 'p::ab_group_add) backend \<Rightarrow> 'p crs \<Rightarrow> u8 \<Rightarrow> str \<Rightarrow> failure + beneficiary" where
  "make_beneficiary B crs seed friendly_name =
     rbind (friendly_name_new friendly_name) (\<lambda>name.
     rbind (credential_create B crs (fill32 seed) (fill32 (seed + 1)) (fill32 (seed + 2)) name) (\<lambda>credential.
     Inr \<lparr>bn_credential = credential, bn_set_id = None, bn_index = None, bn_anonymity_set = None,
          bn_registrations = Map.empty\<rparr>))"

text \<open>The commitments of dummy members, and the target's at its position.\<close>

definition make_phi :: "('s, 'p::ab_group_add) backend \<Rightarrow> 'p crs \<Rightarrow> u8 \<Rightarrow> failure + bytes" where
  "make_phi B crs seed = rbind (make_credential B crs seed) (\<lambda>c. Inr (mc_phi c))"

definition make_full_set ::
    "('s, 'p::ab_group_add) backend \<Rightarrow> 'p crs \<Rightarrow> u8 \<Rightarrow> nat \<Rightarrow> failure + credential \<times> bytes list" where
  "make_full_set B crs target_seed target_pos =
     rbind (make_credential B crs target_seed) (\<lambda>target.
     rbind (collect_res (\<lambda>i.
        if i = target_pos then Inr (mc_phi target)
        else
          (let i8 = word_of_nat i; seed = (if i8 = target_seed then i8 + 128 else i8)
           in make_phi B crs seed)) [0..<N_of B]) (\<lambda>xs.
     Inr (target, xs)))"

definition make_valid_proof ::
    "('s::field, 'p::ab_group_add) backend \<Rightarrow> rng \<Rightarrow> 'p crs \<Rightarrow> credential \<Rightarrow> bytes list \<Rightarrow> nat \<Rightarrow> nat \<Rightarrow>
      bytes \<Rightarrow> failure + pid_proof \<times> bytes \<times> bytes \<times> str" where
  "make_valid_proof B rng crs cred xs target_pos user_index set_id =
     (let all_nullifiers = all_nullifier_scalars B cred crs in
      if user_index < 1 \<or> num_merchants crs < user_index then Inl (Panic ''index out of bounds'')
      else
        (let pseudonym = derive_payment_request_pseudonym B (mc_r cred)
               (m_name (crs_merchants crs ! (user_index - 1))) (crs_g crs) in
         rbind (public_nullifier B cred crs user_index) (\<lambda>pub_nul.
         rbind (expect ''proof generation should succeed''
                  (prove_payment_identity_registration B rng crs xs target_pos user_index set_id
                     (mc_k cred) all_nullifiers pseudonym pub_nul
                     (to_scalar_bytes B (mc_friendly_name cred)))) (\<lambda>proof.
         Inr (proof, pseudonym, pub_nul, mc_friendly_name cred)))))"

section \<open>The values of the fixtures\<close>

definition merchant_of :: "('s, 'p) backend \<Rightarrow> str \<Rightarrow> str \<Rightarrow> merchant" where
  "merchant_of B name origin =
     \<lparr>m_name = name,
      m_credential_generator =
        bk_to_bytes B (bk_hash_to_curve B (ascii ''CRS-ASC-credential-generator-'' @ name) CRS_DST),
      m_origin = origin, m_merchant_id = 0, m_registered = Map.empty\<rparr>"

lemma merchant_new_of [fixture_simps]:
  "length name \<le> 255 \<Longrightarrow> merchant_new B name origin = Inr (merchant_of B name origin)"
  by (simp add: merchant_of_def)

definition provider_of :: "('s, 'p) backend \<Rightarrow> str \<Rightarrow> merchant" where
  "provider_of B name = merchant_of B name (ascii ''https://'' @ name)"

lemma provider_of_sel [simp]:
  "m_name (provider_of B name) = name" "m_origin (provider_of B name) = ascii ''https://'' @ name"
  "m_merchant_id (provider_of B name) = 0" "m_registered (provider_of B name) = Map.empty"
  by (simp_all add: provider_of_def merchant_of_def)

definition crs_of :: "('s, 'p) backend \<Rightarrow> string \<Rightarrow> nat \<Rightarrow> nat \<Rightarrow> 'p crs" where
  "crs_of B base n set_size =
     crs_setup B (map (\<lambda>i. provider_of B (ascii base @ show_nat i)) [0..<n]) set_size"

lemma make_merchants_of:
  assumes "length base \<le> 100" "n \<le> 100"
  shows "make_merchants B base n = Inr (map (\<lambda>i. provider_of B (ascii base @ show_nat i)) [0..<n])"
  unfolding make_merchants_def
proof (rule collect_res_map)
  fix i
  assume "i \<in> set [0..<n]"
  then have "length (ascii base @ show_nat i) \<le> 255"
    using assms length_show_nat [of i] by simp
  then show "make_provider B (ascii base @ show_nat i) = Inr (provider_of B (ascii base @ show_nat i))"
    by (simp only: make_provider_def merchant_new_of provider_of_def)
qed

lemma make_crs_of [fixture_simps]:
  "n \<le> 100 \<Longrightarrow> make_crs_service B n = Inr (crs_of B ''service-'' n (N_of B))"
  "n \<le> 100 \<Longrightarrow> make_crs_with B n = Inr (crs_of B ''service-'' n 1024)"
  "n \<le> 100 \<Longrightarrow> make_crs_user B n = Inr (crs_of B ''user-'' n (N_of B))"
  by (simp_all add: make_crs_service_def make_crs_with_def make_crs_user_def make_merchants_of crs_of_def)

lemma crs_of_sel [simp]:
  "num_merchants (crs_of B base n set_size) = n"
  "length (crs_generators (crs_of B base n set_size)) = n"
  "crs_set_size (crs_of B base n set_size) = set_size"
  "crs_security_param (crs_of B base n set_size) = 128"
  "crs_g (crs_of B base n set_size) = bk_hash_to_curve B (ascii ''CRS-ASC-generator-0'') CRS_DST"
  "length (crs_merchants (crs_of B base n set_size)) = n"
  by (simp_all add: crs_of_def, simp_all add: crs_setup_def)

lemma crs_of_wf [simp]: "wf_generators (crs_of B base n set_size)"
  by (simp add: wf_generators_def)

definition credential_of ::
    "('s, 'p::ab_group_add) backend \<Rightarrow> 'p crs \<Rightarrow> bytes \<Rightarrow> bytes \<Rightarrow> bytes \<Rightarrow> str \<Rightarrow> credential" where
  "credential_of B crs sk r k fname =
     (let c = \<lparr>mc_phi = [], mc_sk = sk, mc_r = r, mc_k = k, mc_friendly_name = fname\<rparr>
      in c\<lparr>mc_phi := point_to_bytes B (credential_point B crs c)\<rparr>)"

lemma credential_of_sel [simp]:
  "mc_sk (credential_of B crs sk r k fname) = sk" "mc_r (credential_of B crs sk r k fname) = r"
  "mc_k (credential_of B crs sk r k fname) = k" "mc_friendly_name (credential_of B crs sk r k fname) = fname"
  by (simp_all add: credential_of_def Let_def)

lemma credential_of_phi:
  "mc_phi (credential_of B crs sk r k fname) =
     point_to_bytes B (credential_point B crs (credential_of B crs sk r k fname))"
  by (simp add: credential_of_def Let_def credential_point_def all_nullifier_scalars_def)

lemma credential_create_of [fixture_simps]:
  "wf_generators crs \<Longrightarrow> credential_create B crs sk r k fname = Inr (credential_of B crs sk r k fname)"
  using credential_of_phi [of B crs sk r k fname]
  by (simp add: credential_create_wf wf_generators_def)

definition seeded :: "('s, 'p::ab_group_add) backend \<Rightarrow> 'p crs \<Rightarrow> u8 \<Rightarrow> str \<Rightarrow> credential" where
  "seeded B crs seed fname = credential_of B crs (fill32 seed) (fill32 (seed + 1)) (fill32 (seed + 2)) fname"

definition user_of :: "('s, 'p::ab_group_add) backend \<Rightarrow> 'p crs \<Rightarrow> u8 \<Rightarrow> credential" where
  "user_of B crs seed = seeded B crs seed (ascii ''user-'' @ show_02x seed)"

lemma seeded_sel [simp]:
  "mc_sk (seeded B crs seed fname) = fill32 seed" "mc_r (seeded B crs seed fname) = fill32 (seed + 1)"
  "mc_k (seeded B crs seed fname) = fill32 (seed + 2)" "mc_friendly_name (seeded B crs seed fname) = fname"
  by (simp_all add: seeded_def)

lemma seeded_phi:
  "mc_phi (seeded B crs seed fname) = point_to_bytes B (credential_point B crs (seeded B crs seed fname))"
  unfolding seeded_def by (rule credential_of_phi)

lemma make_credential_of [fixture_simps]:
  assumes "wf_generators crs"
  shows "make_credential B crs seed = Inr (user_of B crs seed)"
proof -
  have "friendly_name_new (ascii ''user-'' @ show_02x seed) = Inr (ascii ''user-'' @ show_02x seed)"
    by simp
  then show ?thesis
    by (simp only: make_credential_def Let_def rbind_simps credential_create_of [OF assms]
        user_of_def seeded_def)
qed

lemma make_phi_of [fixture_simps]:
  "wf_generators crs \<Longrightarrow> make_phi B crs seed = Inr (mc_phi (user_of B crs seed))"
  by (simp add: make_phi_def make_credential_of)

definition member_of :: "('s, 'p::ab_group_add) backend \<Rightarrow> 'p crs \<Rightarrow> u8 \<Rightarrow> str \<Rightarrow> beneficiary" where
  "member_of B crs seed fname =
     \<lparr>bn_credential = seeded B crs seed fname, bn_set_id = None, bn_index = None, bn_anonymity_set = None,
      bn_registrations = Map.empty\<rparr>"

lemma make_beneficiary_of [fixture_simps]:
  assumes "wf_generators crs" "length fname \<le> 255"
  shows "make_beneficiary B crs seed fname = Inr (member_of B crs seed fname)"
proof -
  have "friendly_name_new fname = Inr fname" using assms(2) by simp
  then show ?thesis
    by (simp only: make_beneficiary_def rbind_simps credential_create_of [OF assms(1)] member_of_def seeded_def)
qed

text \<open>The full set is a list of decodable commitments with the target at its position.\<close>

definition full_set_of :: "('s, 'p::ab_group_add) backend \<Rightarrow> 'p crs \<Rightarrow> u8 \<Rightarrow> nat \<Rightarrow> bytes list" where
  "full_set_of B crs target_seed target_pos =
     map (\<lambda>i. mc_phi (user_of B crs
        (if i = target_pos then target_seed
         else if word_of_nat i = target_seed then word_of_nat i + 128 else word_of_nat i))) [0..<N_of B]"

lemma make_full_set_of [fixture_simps]:
  assumes "wf_generators crs"
  shows "make_full_set B crs seed pos = Inr (user_of B crs seed, full_set_of B crs seed pos)"
proof -
  have "collect_res (\<lambda>i. if i = pos then Inr (mc_phi (user_of B crs seed))
      else let i8 = word_of_nat i; s = (if i8 = seed then i8 + 128 else i8) in make_phi B crs s) [0..<N_of B]
    = (Inr (full_set_of B crs seed pos) :: failure + bytes list)"
    unfolding full_set_of_def
    by (rule collect_res_map) (simp add: make_phi_of [OF assms] Let_def)
  then show ?thesis
    by (simp add: make_full_set_def make_credential_of [OF assms])
qed

lemma length_full_set_of [simp]: "length (full_set_of B crs seed pos) = N_of B"
  by (simp add: full_set_of_def)

lemma full_set_of_target: "pos < N_of B \<Longrightarrow> full_set_of B crs seed pos ! pos = mc_phi (user_of B crs seed)"
  by (simp add: full_set_of_def)

lemma user_of_phi:
  "mc_phi (user_of B crs seed) = point_to_bytes B (credential_point B crs (user_of B crs seed))"
  unfolding user_of_def by (rule seeded_phi)

lemma all_decode_users: "codec_laws B \<Longrightarrow> all_decode B (map (\<lambda>i. mc_phi (user_of B crs (f i))) xs)"
  by (simp add: all_decode_def user_of_phi list_all_iff)

lemma full_set_of_decodes: "codec_laws B \<Longrightarrow> all_decode B (full_set_of B crs seed pos)"
  by (simp add: full_set_of_def all_decode_users)

end
