(* ===== verification/Unit_Tests_Wallet.thy ===== *)
theory Unit_Tests_Wallet
  imports Test_Support Wallet_Properties
begin

text \<open>
  The unit tests of \<open>bin/veiled_wallet.rs\<close> on its handlers: parameters that do not convert, state
  files that are not there, and the commands \<open>create-wallet\<close> and \<open>get-address\<close> on a fresh file. A
  test is a command whose value is \<open>()\<close>. The JSON parameters and the path of the temporary
  directory are arguments, the random entropy as well. The tests of the JSON, BIP39 and BDK crates
  alone, the two ignored ones that need a node, and those that build a \<open>WalletState\<close> literal are
  left out: the literals lack three fields that the struct has since gained, so that the module
  does not compile.
\<close>

section \<open>Errors\<close>

text \<open>\<open>.unwrap_err().contains(..)\<close> and \<open>.unwrap()\<close> of a handler's result.\<close>

definition cexpect_err :: "string \<Rightarrow> ('n, 'a) cmd \<Rightarrow> ('n, unit) cmd" where
  "cexpect_err expected m w =
     (case m w of
        None \<Rightarrow> None
      | Some (w', Inl (Err e)) \<Rightarrow> clift (assert_that ''assert'' (sublist expected e)) w'
      | Some (w', Inl (Panic e)) \<Rightarrow> Some (w', Inl (Panic e))
      | Some (w', Inr _) \<Rightarrow> clift (Inl (Panic ''called Result::unwrap_err() on an Ok value'')) w')"

definition cunwrap :: "('n, 'a) cmd \<Rightarrow> ('n, 'a) cmd" where
  "cunwrap m w = map_option (\<lambda>(w', r). (w', unwrap r)) (m w)"

definition create_wallet_bad_params ::
    "('f, 'o, 'w, 'n) bdk \<Rightarrow> 'v wallet_json \<Rightarrow> bytes \<Rightarrow> 'v \<Rightarrow> ('n, unit) cmd" where
  "create_wallet_bad_params E J entropy garbage =
     cexpect_err ''bad params'' (cparams (wj_create_wallet J) (handle_create_wallet E entropy) garbage)"

definition get_balance_bad_params :: "('f, 'o, 'w, 'n) bdk \<Rightarrow> 'v wallet_json \<Rightarrow> 'v \<Rightarrow> ('n, unit) cmd" where
  "get_balance_bad_params E J empty_object =
     cexpect_err ''bad params'' (cparams (wj_get_balance J) (handle_get_balance E) empty_object)"

definition send_bad_params :: "('f, 'o, 'w, 'n) bdk \<Rightarrow> 'v wallet_json \<Rightarrow> 'v \<Rightarrow> ('n, unit) cmd" where
  "send_bad_params E J empty_object =
     cexpect_err ''bad params'' (cparams (wj_send J) (handle_send E) empty_object)"

definition faucet_bad_params :: "('f, 'o, 'w, 'n) bdk \<Rightarrow> 'v wallet_json \<Rightarrow> 'v \<Rightarrow> ('n, unit) cmd" where
  "faucet_bad_params E J empty_object =
     cexpect_err ''bad params'' (cparams (wj_faucet J) (handle_faucet E) empty_object)"

definition get_tx_bad_params :: "('f, 'o, 'w, 'n) bdk \<Rightarrow> 'v wallet_json \<Rightarrow> 'v \<Rightarrow> ('n, unit) cmd" where
  "get_tx_bad_params E J empty_object =
     cexpect_err ''bad params'' (cparams (wj_get_tx J) (handle_get_tx E) empty_object)"

definition no_rpc :: rpc_params where "no_rpc = \<lparr>rp_url = None, rp_user = None, rp_pass = None\<rparr>"

definition missing_path :: str where "missing_path = ascii ''/no/file.json''"

definition get_balance_missing_state :: "('f, 'o, 'w, 'n) bdk \<Rightarrow> ('n, unit) cmd" where
  "get_balance_missing_state E =
     cexpect_err ''read state'' (handle_get_balance E \<lparr>gb_state_path = missing_path, gb_rpc = no_rpc\<rparr>)"

definition get_address_missing_state :: "('f, 'o, 'w, 'n) bdk \<Rightarrow> ('n, unit) cmd" where
  "get_address_missing_state E =
     cexpect_err ''read state'' (handle_get_address E \<lparr>ga_state_path = missing_path, ga_rpc = no_rpc\<rparr>)"

definition send_missing_state :: "('f, 'o, 'w, 'n) bdk \<Rightarrow> ('n, unit) cmd" where
  "send_missing_state E =
     cexpect_err ''read state'' (handle_send E
       \<lparr>sp_state_path = missing_path, sp_to_address = ascii ''x'', sp_amount_sats = 1, sp_rpc = no_rpc\<rparr>)"

definition load_state_missing_file :: "('f, 'o, 'w, 'n) bdk \<Rightarrow> ('n, unit) cmd" where
  "load_state_missing_file E =
     cexpect_err ''read state'' (load_wallet_state E (ascii ''/nonexistent/wallet.json''))"

definition load_state_invalid_json :: "('f, 'o, 'w, 'n) bdk \<Rightarrow> str \<Rightarrow> ('n, unit) cmd" where
  "load_state_invalid_json E path w =
     cexpect_err ''parse state'' (load_wallet_state E path)
       (w\<lparr>w_files := (w_files w)(path \<mapsto> ascii ''not json'')\<rparr>)"

definition default_rpc_values :: "failure + unit" where
  "default_rpc_values =
     rbind (assert_that ''assert_eq'' (default_url = ascii ''http://localhost:18443'')) (\<lambda>_.
     rbind (assert_that ''assert_eq'' (default_user = ascii ''veiled'')) (\<lambda>_.
     assert_that ''assert_eq'' (default_pass = ascii ''veiled'')))"

lemma bad_params_refused:
  "from_value v = None \<Longrightarrow> cexpect_err ''bad params'' (cparams from_value handler v) w = Some (w, Inr ())"
  by (simp add: cexpect_err_def cparams_def cbind_def clift_def)

lemma bad_params_tests:
  shows "wj_create_wallet J v = None \<Longrightarrow> create_wallet_bad_params E J entropy v w = Some (w, Inr ())"
    and "wj_get_balance J v = None \<Longrightarrow> get_balance_bad_params E J v w = Some (w, Inr ())"
    and "wj_send J v = None \<Longrightarrow> send_bad_params E J v w = Some (w, Inr ())"
    and "wj_faucet J v = None \<Longrightarrow> faucet_bad_params E J v w = Some (w, Inr ())"
    and "wj_get_tx J v = None \<Longrightarrow> get_tx_bad_params E J v w = Some (w, Inr ())"
  by (simp_all add: create_wallet_bad_params_def get_balance_bad_params_def send_bad_params_def
      faucet_bad_params_def get_tx_bad_params_def bad_params_refused)

lemma missing_state_tests:
  assumes "w_files w missing_path = None"
  shows "get_balance_missing_state E w = Some (w, Inr ())" "get_address_missing_state E w = Some (w, Inr ())"
    "send_missing_state E w = Some (w, Inr ())"
  using assms
  by (simp_all add: get_balance_missing_state_def get_address_missing_state_def send_missing_state_def cexpect_err_def
      handle_get_balance_def handle_get_address_def handle_send_def cbind_def load_wallet_state_cases wallet_at_def
      clift_def)

lemma load_state_tests:
  shows "w_files w (ascii ''/nonexistent/wallet.json'') = None \<Longrightarrow> load_state_missing_file E w = Some (w, Inr ())"
    and "bd_readable E path \<Longrightarrow> bd_parse_state E (ascii ''not json'') = None \<Longrightarrow>
      \<exists>w'. load_state_invalid_json E path w = Some (w', Inr ())"
    and "default_rpc_values = Inr ()"
proof -
  have "utf8_valid (ascii ''not json'')"
    by (rule utf8_valid_ascii) (simp add: ascii_def)
  then show "bd_readable E path \<Longrightarrow> bd_parse_state E (ascii ''not json'') = None \<Longrightarrow>
      \<exists>w'. load_state_invalid_json E path w = Some (w', Inr ())"
    by (simp add: load_state_invalid_json_def cexpect_err_def load_wallet_state_cases wallet_at_def clift_def)
qed (simp_all add: load_state_missing_file_def cexpect_err_def load_wallet_state_cases wallet_at_def clift_def
    default_rpc_values_def default_url_def default_user_def default_pass_def)

section \<open>A fresh wallet\<close>

definition starts_with :: "string \<Rightarrow> str \<Rightarrow> bool" where
  "starts_with s a \<longleftrightarrow> prefix (ascii s) a"

definition cassert :: "bool \<Rightarrow> ('n, unit) cmd" where
  "cassert c = clift (assert_that ''assert'' c)"

definition test_create :: "('f, 'o, 'w, 'n) bdk \<Rightarrow> bytes \<Rightarrow> str \<Rightarrow> string \<Rightarrow> ('n, 'f wallet_response) cmd" where
  "test_create E entropy path name =
     handle_create_wallet E entropy \<lparr>cw_state_path = path, cw_name = ascii name, cw_rpc = no_rpc\<rparr>"

definition test_address :: "('f, 'o, 'w, 'n) bdk \<Rightarrow> str \<Rightarrow> ('n, 'f wallet_response) cmd" where
  "test_address E path = handle_get_address E \<lparr>ga_state_path = path, ga_rpc = no_rpc\<rparr>"

text \<open>\<open>result["address"]\<close> and the other fields of the responses.\<close>

fun response_address :: "'f wallet_response \<Rightarrow> str option" where
  "response_address (WalletCreated a m n x) = Some a"
| "response_address (AddressResponse a) = Some a"
| "response_address _ = None"

fun response_created :: "'f wallet_response \<Rightarrow> (str \<times> str \<times> bool option) option" where
  "response_created (WalletCreated a m n x) = Some (m, n, x)"
| "response_created _ = None"

definition create_wallet_produces ::
    "('f, 'o, 'w, 'n) bdk \<Rightarrow> bytes \<Rightarrow> str \<Rightarrow> ('n, unit) cmd" where
  "create_wallet_produces E entropy path =
     cbind (cunwrap (test_create E entropy path ''unit-test'')) (\<lambda>result.
     cbind (clift (ok_or (response_address result) (Panic ''called Option::unwrap() on a None value''))) (\<lambda>a.
     cbind (cassert (starts_with ''bcrt1p'' a)) (\<lambda>_.
     cbind (clift (ok_or (response_created result) (Panic ''called Option::unwrap() on a None value''))) (\<lambda>(m, n, _).
     cbind (cassert (m \<noteq> [])) (\<lambda>_.
     cbind (cassert (n = ascii ''unit-test'')) (\<lambda>_.
     \<lambda>w. cassert (w_files w path \<noteq> None) w))))))"

definition create_wallet_idempotent_test ::
    "('f, 'o, 'w, 'n) bdk \<Rightarrow> bytes \<Rightarrow> bytes \<Rightarrow> str \<Rightarrow> ('n, unit) cmd" where
  "create_wallet_idempotent_test E entropy entropy' path =
     cbind (cunwrap (test_create E entropy path ''w'')) (\<lambda>r1.
     cbind (cunwrap (test_create E entropy' path ''w'')) (\<lambda>r2.
     cbind (cassert (response_address r1 = response_address r2)) (\<lambda>_.
     cassert (case response_created r2 of Some (_, _, x) \<Rightarrow> x = Some True | None \<Rightarrow> False))))"

definition get_address_returns :: "('f, 'o, 'w, 'n) bdk \<Rightarrow> bytes \<Rightarrow> str \<Rightarrow> ('n, unit) cmd" where
  "get_address_returns E entropy path =
     cbind (cunwrap (test_create E entropy path ''w'')) (\<lambda>_.
     cbind (cunwrap (test_address E path)) (\<lambda>r.
     cbind (clift (ok_or (response_address r) (Panic ''called Option::unwrap() on a None value''))) (\<lambda>a.
     cassert (starts_with ''bcrt1p'' a))))"

definition get_address_increments :: "('f, 'o, 'w, 'n) bdk \<Rightarrow> bytes \<Rightarrow> str \<Rightarrow> ('n, unit) cmd" where
  "get_address_increments E entropy path =
     cbind (cunwrap (test_create E entropy path ''w'')) (\<lambda>_.
     cbind (cunwrap (test_address E path)) (\<lambda>a1.
     cbind (cunwrap (test_address E path)) (\<lambda>a2.
     cbind (cassert (response_address a1 \<noteq> response_address a2)) (\<lambda>_.
     cbind (cunwrap (load_wallet_state E path)) (\<lambda>state.
     cassert (2 \<le> wt_address_index state))))))"

text \<open>What the tests need of the library and the file system: the state file can be read and written,
  the words of the fresh entropy \<open>m\<close> lead to the keys \<open>k\<close> and the wallet \<open>w0\<close>, its addresses are
  Taproot addresses of the regression network.\<close>

definition test_library ::
    "('f, 'o, 'w, 'n) bdk \<Rightarrow> str \<Rightarrow> bytes \<Rightarrow> 'o \<Rightarrow> 'o \<Rightarrow> 'w \<Rightarrow> bool" where
  "test_library E path entropy m k w0 \<longleftrightarrow>
     state_laws E \<and> reveal_laws E \<and> bd_readable E path \<and> (\<forall>d. bd_write E path d = Written) \<and>
     bd_from_entropy E entropy = Inr m \<and> bd_mnemonic_string E m \<noteq> [] \<and>
     bd_parse_mnemonic E (bd_mnemonic_string E m) = Inr m \<and> bd_master E m = Inr k \<and> bd_create E k = Inr w0 \<and>
     (\<exists>d. bd_descriptor E k = Inr d) \<and> (\<exists>d. bd_change_descriptor E k = Inr d) \<and>
     (\<forall>i. starts_with ''bcrt1p'' (bd_peek_external E w0 i))"

lemma test_create_fresh:
  fixes E :: "('f, 'o, 'w, 'n) bdk"
  assumes lib: "test_library E path entropy m k w0" and "w_files w path = None"
  shows "\<exists>w' s. test_create E entropy path name w = Some (w', Inr (WalletCreated (bd_peek_external E w0 0)
      (bd_mnemonic_string E m) (ascii name) None)) \<and>
    w_files w' path \<noteq> None \<and> wallet_at E w' path = Some s \<and> wt_mnemonic s = bd_mnemonic_string E m \<and>
    wt_address_index s = 0 \<and> wt_checkpoint_height s = None \<and> wt_address s = bd_peek_external E w0 0"
proof -
  obtain d c where "bd_descriptor E k = Inr d" "bd_change_descriptor E k = Inr c"
    using lib by (auto simp: test_library_def)
  then show ?thesis
    using lib assms(2) wallet_at_saved [of E]
    by (simp add: test_library_def test_create_def handle_create_wallet_def load_wallet_state_cases wallet_at_def
        create_new_wallet_def cbind_def clift_def save_wallet_state_cases cret_def Let_def state_laws_def)
qed

lemma test_address_step:
  fixes E :: "('f, 'o, 'w, 'n) bdk"
  assumes lib: "test_library E path entropy m k w0" and s: "wallet_at E w path = Some s"
    "wt_mnemonic s = bd_mnemonic_string E m" "wt_checkpoint_height s = None" "unat (wt_address_index s) < 100"
  shows "\<exists>w'. test_address E path w =
      Some (w', Inr (AddressResponse (bd_peek_external E w0 (wt_address_index s + 1)) :: 'f wallet_response)) \<and>
    wallet_at E w' path = Some (s\<lparr>wt_address_index := wt_address_index s + 1,
      wt_address := bd_peek_external E w0 (wt_address_index s + 1)\<rparr>)"
proof -
  let ?i = "wt_address_index s + 1" and ?v = "bd_reveal_to E w0 (wt_address_index s)"
  have create: "bd_create E k = Inr w0" and laws: "state_laws E" "reveal_laws E"
    and io: "bd_readable E path" "\<forall>d. bd_write E path d = Written"
    using lib by (simp_all add: test_library_def)
  have "snd (bd_reveal_next E ?v) = (?i, bd_peek_external E w0 ?i)"
    using laws(2) create s(4) by (simp add: reveal_laws_def)
  then obtain v where v: "bd_reveal_next E ?v = (v, ?i, bd_peek_external E w0 ?i)"
    by (cases "bd_reveal_next E ?v") auto
  have "recreate_wallet E s = Inr ?v"
    using lib s(2,3) by (simp add: recreate_wallet_def test_library_def Let_def)
  then show ?thesis
    using io s(1) v wallet_at_saved [OF laws(1)]
    by (simp add: test_address_def handle_get_address_def cbind_def load_wallet_state_cases clift_def
        save_wallet_state_cases cret_def)
qed

lemma fresh_wallet_tests:
  fixes E :: "('f, 'o, 'w, 'n) bdk"
  assumes lib: "test_library E path entropy m k w0" and fresh: "w_files w path = None"
  shows "\<exists>w'. create_wallet_produces E entropy path w = Some (w', Inr ())"
    and "\<exists>w'. create_wallet_idempotent_test E entropy entropy' path w = Some (w', Inr ())"
    and "\<exists>w'. get_address_returns E entropy path w = Some (w', Inr ())"
    and "bd_peek_external E w0 1 \<noteq> bd_peek_external E w0 2 \<Longrightarrow>
      \<exists>w'. get_address_increments E entropy path w = Some (w', Inr ())"
proof -
  have words: "bd_mnemonic_string E m \<noteq> []" and p2tr: "\<And>i. starts_with ''bcrt1p'' (bd_peek_external E w0 i)"
    and readable: "bd_readable E path" and laws: "state_laws E"
    using lib by (simp_all add: test_library_def)
  show "\<exists>w'. create_wallet_produces E entropy path w = Some (w', Inr ())"
    using test_create_fresh [OF lib fresh, of "''unit-test''"] words p2tr
    by (auto simp: create_wallet_produces_def cbind_def cunwrap_def cassert_def clift_def)
  obtain w1 s where create: "test_create E entropy path ''w'' w =
      Some (w1, Inr (WalletCreated (bd_peek_external E w0 0) (bd_mnemonic_string E m) (ascii ''w'') None))"
    and s: "wallet_at E w1 path = Some s" "wt_mnemonic s = bd_mnemonic_string E m" "wt_address_index s = 0"
      "wt_checkpoint_height s = None" "wt_address s = bd_peek_external E w0 0"
    using test_create_fresh [OF lib fresh, of "''w''"] by blast
  have "test_create E entropy' path ''w'' w1 =
      Some (w1, Inr (WalletCreated (wt_address s) (wt_mnemonic s) (wt_wallet_name s) (Some True)))"
    using s(1) readable by (simp add: test_create_def handle_create_wallet_def load_wallet_state_cases cret_def)
  then show "\<exists>w'. create_wallet_idempotent_test E entropy entropy' path w = Some (w', Inr ())"
    using create s(5)
    by (simp add: create_wallet_idempotent_test_def cbind_def cunwrap_def cassert_def clift_def)
  define s1 where "s1 = s\<lparr>wt_address_index := 1, wt_address := bd_peek_external E w0 1\<rparr>"
  obtain w2 where first: "test_address E path w1 =
      Some (w2, Inr (AddressResponse (bd_peek_external E w0 1) :: 'f wallet_response))"
    and s1: "wallet_at E w2 path = Some s1"
    using test_address_step [OF lib s(1,2,4)] s(3) by (auto simp: s1_def)
  show "\<exists>w'. get_address_returns E entropy path w = Some (w', Inr ())"
    using create first p2tr
    by (simp add: get_address_returns_def cbind_def cunwrap_def cassert_def clift_def)
  obtain w3 s2 where second: "test_address E path w2 =
      Some (w3, Inr (AddressResponse (bd_peek_external E w0 2) :: 'f wallet_response))"
    and s2: "wallet_at E w3 path = Some s2" "wt_address_index s2 = 2"
    using test_address_step [OF lib s1] s(2,4) by (auto simp: s1_def)
  assume "bd_peek_external E w0 1 \<noteq> bd_peek_external E w0 2"
  then show "\<exists>w'. get_address_increments E entropy path w = Some (w', Inr ())"
    using create first second s2 readable
    by (simp add: get_address_increments_def cbind_def cunwrap_def cassert_def clift_def load_wallet_state_cases)
qed

end
