(* ===== verification/Unit_Tests_Identity.thy ===== *)
theory Unit_Tests_Identity
  imports Test_Support
begin

text \<open>
  The unit tests of \<open>utils.rs\<close>, \<open>nullifier.rs\<close>, \<open>crs.rs\<close> and \<open>request.rs\<close>, assertion by
  assertion. Those that hold for every lawful backend are proved so; those that compare values
  of a hash function are proved from the hypothesis that it does not collide on the inputs of
  the test, and that a compressed point other than the identity starts with 2 or 3. The tests
  that expect a tampered or foreign proof to be refused are not here: whether they pass is a
  matter of the digests alone.
\<close>

definition sec1_prefix :: "bytes \<Rightarrow> bool" where
  "sec1_prefix b \<longleftrightarrow> b ! 0 = 2 \<or> b ! 0 = 3"

definition sec1_laws :: "('s, 'p::ab_group_add) backend \<Rightarrow> bool" where
  "sec1_laws B \<longleftrightarrow> (\<forall>P. P \<noteq> 0 \<longrightarrow> sec1_prefix (bk_to_bytes B P))"

lemma sec1_point [simp]: "sec1_laws B \<Longrightarrow> P \<noteq> 0 \<Longrightarrow> sec1_prefix (bk_to_bytes B P)"
  by (simp add: sec1_laws_def)

text \<open>HKDF gives different scalars for the inputs (salt, key material, info) of a test.\<close>

definition kdf_scalar :: "('s, 'p) backend \<Rightarrow> bytes \<times> bytes \<times> bytes \<Rightarrow> 's" where
  "kdf_scalar B x = (case x of (salt, ikm, info) \<Rightarrow> bytes_to_scalar B (bk_hkdf B salt ikm info))"

definition kdf_separates :: "('s, 'p) backend \<Rightarrow> (bytes \<times> bytes \<times> bytes) set \<Rightarrow> bool" where
  "kdf_separates B I \<longleftrightarrow> inj_on (kdf_scalar B) I"

lemma kdf_scalar_neq:
  "kdf_separates B I \<Longrightarrow> x \<in> I \<Longrightarrow> y \<in> I \<Longrightarrow> x \<noteq> y \<Longrightarrow> kdf_scalar B x \<noteq> kdf_scalar B y"
  unfolding kdf_separates_def by (meson inj_onD)

definition nullifier_input :: "bytes \<Rightarrow> str \<Rightarrow> bytes \<times> bytes \<times> bytes" where
  "nullifier_input sk name = (name, sk, ascii ''CRS-ASC-nullifier'')"

definition request_input :: "bytes \<Rightarrow> str \<Rightarrow> bytes \<times> bytes \<times> bytes" where
  "request_input r name = (name, r, ascii ''CRS-ASC-child-secret-key'')"

lemma scalar_of_nullifier: "bytes_to_scalar B (derive_nullifier B sk name) = kdf_scalar B (nullifier_input sk name)"
  by (simp add: derive_nullifier_def kdf_scalar_def nullifier_input_def)

lemma scalar_of_request_key:
  "bytes_to_scalar B (derive_payment_request_secret_key B r name) = kdf_scalar B (request_input r name)"
  by (simp add: derive_payment_request_secret_key_def kdf_scalar_def request_input_def)

lemma kdf_input_inj [simp]:
  "nullifier_input sk name = nullifier_input sk' name' \<longleftrightarrow> sk = sk' \<and> name = name'"
  "request_input r name = request_input r' name' \<longleftrightarrow> r = r' \<and> name = name'"
  by (auto simp: nullifier_input_def request_input_def)

lemma of_char_u8_inj: "(of_char c :: u8) = of_char d \<longleftrightarrow> c = d"
proof
  assume "(of_char c :: u8) = of_char d"
  then have "unat (word_of_nat (of_char c) :: u8) = unat (word_of_nat (of_char d) :: u8)"
    by (simp only: of_nat_of_char)
  then have "(of_char c :: nat) = of_char d"
    by (simp only: unat_of_nat) simp
  then show "c = d" by simp
qed simp

lemma ascii_inj [simp]: "ascii s = ascii t \<longleftrightarrow> s = t"
proof -
  have "inj (of_char :: char \<Rightarrow> u8)"
    by (rule injI) (simp add: of_char_u8_inj)
  then show ?thesis
    by (simp add: ascii_def inj_map_eq_map)
qed

lemma show_nat_inj:
  assumes "m < 2 ^ 32" "n < 2 ^ 32"
  shows "show_nat m = show_nat n \<longleftrightarrow> m = n"
proof
  assume "show_nat m = show_nat n"
  then have "parse_digits 0 (show_nat m) = parse_digits 0 (show_nat n)" by (rule arg_cong)
  then show "m = n"
    by (simp only: parse_digits_show_nat [OF assms(1)] parse_digits_show_nat [OF assms(2)] option.inject)
qed simp

lemma utf8_ascii [simp]: "list_all (\<lambda>c. of_char c < (128 :: nat)) s \<Longrightarrow> utf8_valid (ascii s @ t) = utf8_valid t"
proof (induction s)
  case (Cons c s)
  have "unat (of_char c :: u8) = unat (word_of_nat (of_char c) :: u8)"
    by (simp only: of_nat_of_char)
  with Cons.prems have "unat (of_char c :: u8) \<le> 127"
    by (simp add: unat_of_nat)
  with Cons show ?case
    by (simp add: ascii_def byte_in_def)
qed (simp add: ascii_def)

lemma utf8_digits: "utf8_valid (show_nat n @ t) = utf8_valid t"
proof (induction n arbitrary: t rule: show_nat.induct)
  case (1 n)
  have digit: "utf8_valid (word_of_nat (48 + d) # t) = utf8_valid t" if "d < 10" for d t
    using that by (simp add: byte_in_def unat_of_nat del: of_nat_add)
  show ?case
    by (subst show_nat.simps) (use 1 digit in \<open>auto simp del: utf8_valid.simps\<close>)
qed

section \<open>utils.rs\<close>

definition sample_nullifier :: bytes where "sample_nullifier = fill32 0xAB"

definition sample_blinding :: bytes where "sample_blinding = fill32 0x01"

definition utils_deterministic :: "('s, 'p::ab_group_add) backend \<Rightarrow> 'p \<Rightarrow> failure + unit" where
  "utils_deterministic B G =
     (let n = sample_nullifier; b = sample_blinding
      in assert_that ''assert_eq'' (commit B G n b = commit B G n b))"

definition utils_different_blinding :: "('s, 'p::ab_group_add) backend \<Rightarrow> 'p \<Rightarrow> failure + unit" where
  "utils_different_blinding B G =
     (let n = sample_nullifier; b1 = fill32 0x01; b2 = fill32 0x02
      in assert_that ''assert_ne'' (commit B G n b1 \<noteq> commit B G n b2))"

definition utils_different_nullifier :: "('s, 'p::ab_group_add) backend \<Rightarrow> 'p \<Rightarrow> failure + unit" where
  "utils_different_nullifier B G =
     (let n1 = fill32 0x01; n2 = fill32 0x02; b = sample_blinding
      in assert_that ''assert_ne'' (commit B G n1 b \<noteq> commit B G n2 b))"

definition utils_output_is_33_bytes :: "('s, 'p::ab_group_add) backend \<Rightarrow> 'p \<Rightarrow> failure + unit" where
  "utils_output_is_33_bytes B G =
     (let c = commit B G sample_nullifier sample_blinding in assert_that ''assert_eq'' (length c = 33))"

definition utils_first_byte :: "('s, 'p::ab_group_add) backend \<Rightarrow> 'p \<Rightarrow> failure + unit" where
  "utils_first_byte B G =
     (let c = commit B G sample_nullifier sample_blinding in assert_that ''assert'' (c ! 0 = 2 \<or> c ! 0 = 3))"

lemma utils_tests:
  assumes "mul_laws B" "codec_laws B"
  shows "utils_deterministic B G = Inr ()" and "utils_output_is_33_bytes B G = Inr ()"
  using assms by (simp_all add: utils_deterministic_def utils_output_is_33_bytes_def Let_def commit_def)

text \<open>The commitment tells two blinding keys, or two nullifiers, apart exactly when their scalars
  differ; the encoding of a scalar is not injective on 32 bytes, so the assertion is not
  vacuous.\<close>

lemma utils_blinding_test:
  "mul_laws B \<Longrightarrow> codec_laws B \<Longrightarrow> G \<noteq> 0 \<Longrightarrow>
   utils_different_blinding B G = Inr () \<longleftrightarrow>
     bytes_to_scalar B (fill32 0x01) \<noteq> bytes_to_scalar B (fill32 0x02)"
  by (simp add: utils_different_blinding_def Let_def commit_def to_bytes_inj mul_eq_iff)

lemma utils_nullifier_test:
  "mul_laws B \<Longrightarrow> codec_laws B \<Longrightarrow> h_generator B \<noteq> 0 \<Longrightarrow>
   utils_different_nullifier B G = Inr () \<longleftrightarrow>
     bytes_to_scalar B (fill32 0x01) \<noteq> bytes_to_scalar B (fill32 0x02)"
  by (simp add: utils_different_nullifier_def Let_def commit_def to_bytes_inj mul_eq_iff)

lemma utils_first_byte_test:
  "sec1_laws B \<Longrightarrow>
   bk_mul B G (bytes_to_scalar B sample_blinding) + bk_mul B (h_generator B) (bytes_to_scalar B sample_nullifier) \<noteq> 0
     \<Longrightarrow> utils_first_byte B G = Inr ()"
  by (simp add: utils_first_byte_def Let_def commit_def sec1_laws_def sec1_prefix_def)

section \<open>nullifier.rs\<close>

definition sample_secret :: bytes where "sample_secret = fill32 0x42"

definition test_crs_g :: "('s, 'p) backend \<Rightarrow> 'p" where
  "test_crs_g B = bk_hash_to_curve B (ascii ''CRS-ASC-generator-0'') (ascii ''CRS-ASC-v1'')"

definition test_name :: "string \<Rightarrow> failure + str" where
  "test_name s = name_new (ascii s)"

lemma test_name_Inr [simp]: "length s \<le> 255 \<Longrightarrow> test_name s = Inr (ascii s)"
  by (simp add: test_name_def)

definition service_names :: "nat \<Rightarrow> failure + str list" where
  "service_names n = collect_res (\<lambda>i. name_new (ascii ''service-'' @ show_nat i)) [0..<n]"

lemma service_names_of [simp]:
  "n \<le> 100 \<Longrightarrow> service_names n = Inr (map (\<lambda>i. ascii ''service-'' @ show_nat i) [0..<n])"
  unfolding service_names_def
proof (rule collect_res_map)
  fix i
  assume "n \<le> 100" "i \<in> set [0..<n]"
  then show "name_new (ascii ''service-'' @ show_nat i) = Inr (ascii ''service-'' @ show_nat i)"
    using length_show_nat [of i] by simp
qed

definition nullifier_deterministic :: "('s, 'p) backend \<Rightarrow> failure + unit" where
  "nullifier_deterministic B =
     rbind (test_name ''twitter.com'') (\<lambda>n. let s = sample_secret in
     assert_that ''assert_eq'' (derive_nullifier B s n = derive_nullifier B s n))"

definition nullifier_different_services :: "('s, 'p) backend \<Rightarrow> failure + unit" where
  "nullifier_different_services B =
     rbind (test_name ''twitter.com'') (\<lambda>a. rbind (test_name ''github.com'') (\<lambda>b.
     let s = sample_secret; n1 = derive_nullifier B s a; n2 = derive_nullifier B s b
     in assert_that ''assert_ne'' (n1 \<noteq> n2)))"

definition nullifier_different_secrets :: "('s, 'p) backend \<Rightarrow> failure + unit" where
  "nullifier_different_secrets B =
     rbind (test_name ''twitter.com'') (\<lambda>name. let s1 = fill32 0x01; s2 = fill32 0x02 in
     assert_that ''assert_ne'' (derive_nullifier B s1 name \<noteq> derive_nullifier B s2 name))"

definition nullifier_output_is_32_bytes :: "('s, 'p) backend \<Rightarrow> failure + unit" where
  "nullifier_output_is_32_bytes B =
     rbind (test_name ''test'') (\<lambda>n. let nul = derive_nullifier B sample_secret n in
     assert_that ''assert_eq'' (length nul = 32))"

definition nullifier_derive_all_count :: "('s, 'p) backend \<Rightarrow> failure + unit" where
  "nullifier_derive_all_count B =
     rbind (collect_res test_name [''a'', ''b'', ''c'']) (\<lambda>names.
     let nullifiers = derive_all_nullifiers B sample_secret names in
     assert_that ''assert_eq'' (length nullifiers = 3))"

definition nullifier_derive_all_matches :: "('s, 'p) backend \<Rightarrow> failure + unit" where
  "nullifier_derive_all_matches B =
     rbind (collect_res test_name [''twitter.com'', ''github.com'']) (\<lambda>names.
     let s = sample_secret; all = derive_all_nullifiers B s names in
     rbind (assert_that ''assert_eq'' (all ! 0 = derive_nullifier B s (names ! 0))) (\<lambda>_.
     assert_that ''assert_eq'' (all ! 1 = derive_nullifier B s (names ! 1))))"

definition nullifier_all_unique :: "('s, 'p) backend \<Rightarrow> failure + unit" where
  "nullifier_all_unique B =
     rbind (service_names 10) (\<lambda>names.
     let nullifiers = derive_all_nullifiers B sample_secret names; unique = set nullifiers in
     assert_that ''assert_eq'' (card unique = 10))"

definition public_nullifier_33_bytes :: "('s, 'p) backend \<Rightarrow> failure + unit" where
  "public_nullifier_33_bytes B =
     rbind (test_name ''twitter.com'') (\<lambda>n.
     let g = test_crs_g B; pn = derive_public_nullifier B sample_secret n g in
     rbind (assert_that ''assert_eq'' (length pn = 33)) (\<lambda>_.
     assert_that ''must be valid SEC1 compressed'' (pn ! 0 = 2 \<or> pn ! 0 = 3)))"

definition public_nullifier_deterministic :: "('s, 'p) backend \<Rightarrow> failure + unit" where
  "public_nullifier_deterministic B =
     rbind (test_name ''twitter.com'') (\<lambda>n. let s = sample_secret; g = test_crs_g B in
     assert_that ''assert_eq'' (derive_public_nullifier B s n g = derive_public_nullifier B s n g))"

definition public_nullifier_different_services :: "('s, 'p) backend \<Rightarrow> failure + unit" where
  "public_nullifier_different_services B =
     (let s = sample_secret; g = test_crs_g B in
      rbind (test_name ''twitter.com'') (\<lambda>a. let pn1 = derive_public_nullifier B s a g in
      rbind (test_name ''github.com'') (\<lambda>b. let pn2 = derive_public_nullifier B s b g in
      assert_that ''assert_ne'' (pn1 \<noteq> pn2))))"

definition public_nullifiers_all_unique :: "('s, 'p) backend \<Rightarrow> failure + unit" where
  "public_nullifiers_all_unique B =
     (let s = sample_secret; g = test_crs_g B in
      rbind (service_names 10) (\<lambda>names.
      let pns = derive_all_public_nullifiers B s names g in
      rbind (assert_that ''assert_eq'' (length pns = 10)) (\<lambda>_.
      let unique = set pns in assert_that ''assert_eq'' (card unique = 10))))"

definition public_nullifier_derive_all_matches :: "('s, 'p) backend \<Rightarrow> failure + unit" where
  "public_nullifier_derive_all_matches B =
     (let s = sample_secret; g = test_crs_g B in
      rbind (collect_res test_name [''a'', ''b'']) (\<lambda>names.
      let all = derive_all_public_nullifiers B s names g in
      rbind (assert_that ''assert_eq'' (all ! 0 = derive_public_nullifier B s (names ! 0) g)) (\<lambda>_.
      assert_that ''assert_eq'' (all ! 1 = derive_public_nullifier B s (names ! 1) g))))"

lemma nullifier_tests:
  assumes "digest_laws B"
  shows "nullifier_deterministic B = Inr ()" "nullifier_output_is_32_bytes B = Inr ()"
    "nullifier_derive_all_count B = Inr ()" "nullifier_derive_all_matches B = Inr ()"
    "public_nullifier_deterministic B = Inr ()" "public_nullifier_derive_all_matches B = Inr ()"
  using assms
  by (simp_all add: nullifier_deterministic_def nullifier_output_is_32_bytes_def Let_def
      nullifier_derive_all_count_def nullifier_derive_all_matches_def public_nullifier_deterministic_def
      public_nullifier_derive_all_matches_def derive_all_public_nullifiers_def derive_all_nullifiers_def
      derive_nullifier_def)

lemma distinct_services: "n \<le> 100 \<Longrightarrow> distinct (map (\<lambda>i. ascii ''service-'' @ show_nat i) [0..<n])"
  by (simp add: distinct_map inj_on_def show_nat_inj)

text \<open>Without collisions of HKDF on their inputs the other tests pass as well.\<close>

lemma kdf_distinct:
  assumes "kdf_separates B (nullifier_input sk ` set names)" "distinct names"
  shows "distinct (map (\<lambda>n. kdf_scalar B (nullifier_input sk n)) names)"
  using assms unfolding kdf_separates_def distinct_map by (auto simp: inj_on_def)

lemma nullifiers_distinct:
  assumes "kdf_separates B (nullifier_input sk ` set names)" "distinct names"
  shows "distinct (derive_all_nullifiers B sk names)"
proof -
  have "distinct (map (bytes_to_scalar B) (derive_all_nullifiers B sk names))"
    using kdf_distinct [OF assms]
    by (simp add: derive_all_nullifiers_def comp_def scalar_of_nullifier)
  then show ?thesis by (simp add: distinct_map)
qed

lemma public_nullifiers_distinct:
  assumes "mul_laws B" "codec_laws B" "g \<noteq> 0" "kdf_separates B (nullifier_input sk ` set names)"
    "distinct names"
  shows "distinct (derive_all_public_nullifiers B sk names g)"
  using kdf_distinct [OF assms(4,5)] assms(1-3)
  by (simp add: derive_all_public_nullifiers_def derive_public_nullifier_point distinct_map inj_on_def
      point_to_bytes_inj mul_eq_iff scalar_of_nullifier)

lemma nullifier_different_services_test:
  assumes "kdf_separates B (nullifier_input sample_secret ` {ascii ''twitter.com'', ascii ''github.com''})"
  shows "nullifier_different_services B = Inr ()"
  using nullifiers_distinct [of B sample_secret "[ascii ''twitter.com'', ascii ''github.com'']"] assms
  by (simp add: nullifier_different_services_def Let_def derive_all_nullifiers_def)

lemma nullifier_different_secrets_test:
  assumes "kdf_separates B ((\<lambda>sk. nullifier_input sk (ascii ''twitter.com'')) ` {fill32 0x01, fill32 0x02})"
  shows "nullifier_different_secrets B = Inr ()"
proof -
  have "kdf_scalar B (nullifier_input (fill32 0x01) (ascii ''twitter.com'')) \<noteq>
      kdf_scalar B (nullifier_input (fill32 0x02) (ascii ''twitter.com''))"
    by (rule kdf_scalar_neq [OF assms]) (simp_all add: fill32_def)
  then show ?thesis
    by (auto simp: nullifier_different_secrets_def Let_def simp flip: scalar_of_nullifier)
qed

lemma nullifier_all_unique_test:
  assumes "kdf_separates B (nullifier_input sample_secret ` set (map (\<lambda>i. ascii ''service-'' @ show_nat i) [0..<10]))"
  shows "nullifier_all_unique B = Inr ()"
  using distinct_card [OF nullifiers_distinct [OF assms distinct_services]]
  by (simp add: nullifier_all_unique_def Let_def)

lemma public_nullifier_different_services_test:
  assumes "mul_laws B" "codec_laws B" "test_crs_g B \<noteq> 0"
    and "kdf_separates B (nullifier_input sample_secret ` {ascii ''twitter.com'', ascii ''github.com''})"
  shows "public_nullifier_different_services B = Inr ()"
  using public_nullifiers_distinct [OF assms(1-3), of sample_secret "[ascii ''twitter.com'', ascii ''github.com'']"]
    assms(4)
  by (simp add: public_nullifier_different_services_def Let_def derive_all_public_nullifiers_def)

lemma public_nullifiers_all_unique_test:
  assumes "mul_laws B" "codec_laws B" "test_crs_g B \<noteq> 0"
    and "kdf_separates B (nullifier_input sample_secret ` set (map (\<lambda>i. ascii ''service-'' @ show_nat i) [0..<10]))"
  shows "public_nullifiers_all_unique B = Inr ()"
  using distinct_card [OF public_nullifiers_distinct [OF assms distinct_services]]
  by (simp add: public_nullifiers_all_unique_def Let_def derive_all_public_nullifiers_def image_image)

lemma public_nullifier_33_bytes_test:
  assumes "codec_laws B" "sec1_laws B"
    and "bk_mul B (test_crs_g B) (bytes_to_scalar B (derive_nullifier B sample_secret (ascii ''twitter.com''))) \<noteq> 0"
  shows "public_nullifier_33_bytes B = Inr ()"
  using assms
  by (simp add: public_nullifier_33_bytes_def Let_def derive_public_nullifier_def sec1_laws_def sec1_prefix_def)

end
