(* ===== verification/Unit_Tests_Crs.thy ===== *)
theory Unit_Tests_Crs
  imports Unit_Tests_Identity
begin

text \<open>
  The unit tests of \<open>crs.rs\<close> and \<open>request.rs\<close>, and those of \<open>credential.rs\<close> for Phases 1
  and 2 (the Phase 3 test is in theory Unit_Tests_Proof). Three tests of \<open>crs.rs\<close> have an empty
  body and nothing to model.
\<close>

section \<open>crs.rs\<close>

definition TEST_NAME :: bytes where "TEST_NAME = fill32 0xAA"

definition crs_setup_counts :: "('s, 'p) backend \<Rightarrow> failure + unit" where
  "crs_setup_counts B =
     rbind (make_crs_with B 5) (\<lambda>crs.
     rbind (assert_that ''assert_eq'' (num_merchants crs = 5)) (\<lambda>_.
     assert_that ''assert_eq'' (length (crs_generators crs) = 5)))"

definition crs_generators_differ :: "('s, 'p) backend \<Rightarrow> failure + unit" where
  "crs_generators_differ B =
     rbind (make_crs_with B 10) (\<lambda>crs.
     let g_bytes = bk_to_bytes B (crs_g crs) in
     rbind (for_each (\<lambda>gen. let h_bytes = bk_to_bytes B gen in
              assert_that ''g must differ from all h_l'' (g_bytes \<noteq> h_bytes)) (crs_generators crs)) (\<lambda>_.
     let points = map (bk_to_bytes B) (crs_generators crs) in
     for_each (\<lambda>i. for_each (\<lambda>j.
        assert_that ''h_i and h_j must differ'' (points ! i \<noteq> points ! j)) [i + 1..<length points])
       [0..<length points]))"

definition crs_setup_is_deterministic :: "('s, 'p) backend \<Rightarrow> failure + unit" where
  "crs_setup_is_deterministic B =
     rbind (make_crs_with B 3) (\<lambda>crs1. rbind (make_crs_with B 3) (\<lambda>crs2.
     let g1 = bk_to_bytes B (crs_g crs1); g2 = bk_to_bytes B (crs_g crs2) in
     rbind (assert_that ''g must be deterministic'' (g1 = g2)) (\<lambda>_.
     for_each (\<lambda>i.
        let h1 = bk_to_bytes B (crs_generators crs1 ! i); h2 = bk_to_bytes B (crs_generators crs2 ! i)
        in assert_that ''h must be deterministic'' (h1 = h2)) [0..<3])))"

definition crs_h_accessor :: "('s, 'p) backend \<Rightarrow> failure + unit" where
  "crs_h_accessor B =
     rbind (make_crs_with B 3) (\<lambda>crs. rbind (crs_h crs 1) (\<lambda>h1.
     let h1_via_accessor = bk_to_bytes B h1; h1_direct = bk_to_bytes B (crs_generators crs ! 0) in
     assert_that ''assert_eq'' (h1_via_accessor = h1_direct)))"

definition crs_h_panics :: "('s, 'p) backend \<Rightarrow> failure + unit" where
  "crs_h_panics B =
     should_panic ''generator index out of range'' (rbind (make_crs_with B 3) (\<lambda>crs. crs_h crs 0))"

definition crs_commit_deterministic :: "('s, 'p::ab_group_add) backend \<Rightarrow> failure + unit" where
  "crs_commit_deterministic B =
     rbind (make_crs_with B 3) (\<lambda>crs.
     let secret = fill32 0x42; names = crs_names crs;
         nullifiers = derive_all_nullifiers B secret names; blinding = fill32 0x07 in
     rbind (unwrap (commit_master_identity B crs nullifiers blinding TEST_NAME)) (\<lambda>c1.
     rbind (unwrap (commit_master_identity B crs nullifiers blinding TEST_NAME)) (\<lambda>c2.
     assert_that ''assert_eq'' (c1 = c2))))"

definition crs_commit_different_blinding :: "('s, 'p::ab_group_add) backend \<Rightarrow> failure + unit" where
  "crs_commit_different_blinding B =
     rbind (make_crs_with B 3) (\<lambda>crs.
     let secret = fill32 0x42; names = crs_names crs; nullifiers = derive_all_nullifiers B secret names in
     rbind (unwrap (commit_master_identity B crs nullifiers (fill32 0x01) TEST_NAME)) (\<lambda>c1.
     rbind (unwrap (commit_master_identity B crs nullifiers (fill32 0x02) TEST_NAME)) (\<lambda>c2.
     assert_that ''assert_ne'' (c1 \<noteq> c2))))"

definition crs_commit_wrong_count :: "('s, 'p::ab_group_add) backend \<Rightarrow> failure + unit" where
  "crs_commit_wrong_count B =
     rbind (make_crs_with B 3) (\<lambda>crs.
     let blinding = fill32 0x07; too_few = [fill32 0, fill32 1] in
     assert_that ''assert'' (isl (commit_master_identity B crs too_few blinding TEST_NAME)))"

definition crs_roundtrip :: "('s, 'p) backend \<Rightarrow> failure + unit" where
  "crs_roundtrip B =
     rbind (make_crs_with B 3) (\<lambda>crs.
     let bytes = crs_to_bytes B crs in
     rbind (expect ''deserialization should succeed'' (crs_from_bytes B bytes)) (\<lambda>crs2.
     rbind (assert_that ''assert_eq'' (crs_security_param crs = crs_security_param crs2)) (\<lambda>_.
     rbind (assert_that ''assert_eq'' (crs_set_size crs = crs_set_size crs2)) (\<lambda>_.
     rbind (assert_that ''assert_eq'' (num_merchants crs = num_merchants crs2)) (\<lambda>_.
     rbind (assert_that ''assert_eq'' (bk_to_bytes B (crs_g crs) = bk_to_bytes B (crs_g crs2))) (\<lambda>_.
     rbind (assert_that ''assert_eq'' (bk_to_bytes B (crs_h_name crs) = bk_to_bytes B (crs_h_name crs2))) (\<lambda>_.
     for_each (\<lambda>i.
       let m1 = crs_merchants crs ! i; m2 = crs_merchants crs2 ! i in
       rbind (assert_that ''assert_eq''
                (bk_to_bytes B (crs_generators crs ! i) = bk_to_bytes B (crs_generators crs2 ! i))) (\<lambda>_.
       rbind (assert_that ''assert_eq'' (m_name m1 = m_name m2)) (\<lambda>_.
       rbind (assert_that ''assert_eq'' (m_origin m1 = m_origin m2)) (\<lambda>_.
       assert_that ''assert_eq'' (m_credential_generator m1 = m_credential_generator m2)))))
       [0..<num_merchants crs])))))))"

definition crs_full_flow :: "('s, 'p::ab_group_add) backend \<Rightarrow> failure + unit" where
  "crs_full_flow B =
     rbind (collect_res (\<lambda>s. make_provider B (ascii s))
        [''twitter.com'', ''github.com'', ''nostr.com'', ''bitcoin.org'']) (\<lambda>ms.
     let crs = crs_setup B ms 1024 in
     rbind (assert_that ''assert_eq'' (num_merchants crs = 4)) (\<lambda>_.
     let master_secret = fill32 0xAA; blinding = fill32 0xBB; names = crs_names crs;
         nullifiers = derive_all_nullifiers B master_secret names in
     rbind (assert_that ''assert_eq'' (length nullifiers = 4)) (\<lambda>_.
     let unique = set nullifiers in
     rbind (assert_that ''assert_eq'' (card unique = 4)) (\<lambda>_.
     rbind (unwrap (commit_master_identity B crs nullifiers blinding TEST_NAME)) (\<lambda>phi.
     rbind (assert_that ''assert_eq'' (length phi = 33)) (\<lambda>_.
     assert_that ''assert'' (phi ! 0 = 2 \<or> phi ! 0 = 3)))))))"

lemma crs_tests:
  fixes B :: "('s::field, 'p::ab_group_add) backend"
  shows "crs_setup_counts B = Inr ()" "crs_setup_is_deterministic B = Inr ()" "crs_h_accessor B = Inr ()"
    "crs_h_panics B = Inr ()" "crs_commit_deterministic B = Inr ()" "crs_commit_wrong_count B = Inr ()"
  by (simp_all add: crs_setup_counts_def crs_setup_is_deterministic_def crs_h_accessor_def crs_h_panics_def
      crs_commit_deterministic_def crs_commit_wrong_count_def fixture_simps Let_def crs_h_def should_panic_def
      commit_master_identity_point commit_master_identity_def)

text \<open>The generators differ when hash-to-curve does not collide on their tags.\<close>

lemma generator_tag_inj: "i < 2 ^ 32 \<Longrightarrow> j < 2 ^ 32 \<Longrightarrow> generator_tag i = generator_tag j \<longleftrightarrow> i = j"
  by (simp add: generator_tag_def show_nat_inj)

lemma generator_tag_0: "generator_tag 0 = ascii ''CRS-ASC-generator-0''"
proof -
  have "show_nat 0 = ascii ''0''" by (subst show_nat.simps) (simp add: ascii_def)
  then show ?thesis by (simp add: generator_tag_def ascii_def)
qed

lemma crs_of_generator:
  "i < n \<Longrightarrow> crs_generators (crs_of B base n sz) ! i = bk_hash_to_curve B (generator_tag (Suc i)) CRS_DST"
  by (simp add: crs_of_def crs_setup_def del: upt_Suc)

lemma crs_generators_differ_test:
  assumes "codec_laws B" and inj: "inj_on (\<lambda>i. bk_hash_to_curve B (generator_tag i) CRS_DST) {0..10}"
  shows "crs_generators_differ B = Inr ()"
proof -
  let ?crs = "crs_of B ''service-'' 10 1024"
  define P where "P i = bk_hash_to_curve B (generator_tag i) CRS_DST" for i
  have gens: "crs_generators ?crs = map (\<lambda>i. P (Suc i)) [0..<10]"
    by (rule nth_equalityI) (simp_all add: crs_of_generator P_def)
  have g: "crs_g ?crs = P 0"
    by (simp add: P_def generator_tag_0)
  have neq: "P i \<noteq> P j" if "i \<le> 10" "j \<le> 10" "i \<noteq> j" for i j
    using inj_onD [OF inj, of i j] that by (auto simp: P_def)
  show ?thesis
    unfolding crs_generators_differ_def
    by (simp add: fixture_simps Let_def g gens rbind_unit_iff to_bytes_inj [OF assms(1)] neq
        del: crs_of_sel(5))
qed

lemma crs_commit_different_blinding_test:
  assumes "mul_laws B" "codec_laws B" "test_crs_g B \<noteq> 0"
  shows "crs_commit_different_blinding B = Inr () \<longleftrightarrow>
    bytes_to_scalar B (fill32 0x01) \<noteq> bytes_to_scalar B (fill32 0x02)"
  using assms(3)
  by (simp add: crs_commit_different_blinding_def fixture_simps Let_def commit_master_identity_point
      point_to_bytes_inj [OF assms(2)] master_point_def mul_eq_iff [OF assms(1)] test_crs_g_def CRS_DST_def)

lemma utf8_service: "utf8_valid (ascii ''service-'' @ show_nat i)"
  using utf8_digits [of i "[]"] by simp

lemma utf8_origin: "utf8_valid (ascii ''https://'' @ ascii ''service-'' @ show_nat i)"
  using utf8_service by simp

lemma crs_of_wf_crs:
  assumes "codec_laws B" "n \<le> 100" "sz < 2 ^ 32"
  shows "wf_crs (crs_of B ''service-'' n sz)"
proof -
  have "fields_ok (merchant_fields (provider_of B (ascii ''service-'' @ show_nat i)))" if "i < n" for i
    using assms that length_show_nat [of i]
    by (simp add: fields_ok_def merchant_fields_def provider_of_def merchant_of_def utf8_service utf8_origin
        del: utf8_ascii)
  then show ?thesis
    using assms by (simp add: wf_crs_def, simp add: crs_of_def)
qed

lemma renumber_nth: "i < length ms \<Longrightarrow>
    renumber k ms ! i = (ms ! i)\<lparr>m_merchant_id := k + i + 1, m_registered := Map.empty\<rparr>"
  by (simp add: renumber_def nth_enumerate_eq)

lemma crs_roundtrip_test:
  assumes "codec_laws B"
  shows "crs_roundtrip B = Inr ()"
proof -
  let ?crs = "crs_of B ''service-'' 3 1024"
  have "crs_from_bytes B (crs_to_bytes B ?crs) = Inr (wire_crs ?crs)"
    using crs_round_trip_raw [OF assms crs_of_wf_crs [OF assms], of 3 1024 "[]"] by simp
  then show ?thesis
    by (simp add: crs_roundtrip_def fixture_simps Let_def wire_crs_def renumber_nth rbind_unit_iff,
        simp add: num_merchants_def)
qed

definition full_flow_names :: "str list" where
  "full_flow_names = map ascii [''twitter.com'', ''github.com'', ''nostr.com'', ''bitcoin.org'']"

lemma crs_full_flow_test:
  fixes B :: "('s::field, 'p::ab_group_add) backend"
  defines "crs \<equiv> crs_setup B (map (provider_of B) full_flow_names) 1024"
  assumes "codec_laws B" "sec1_laws B"
    and sep: "kdf_separates B (nullifier_input (fill32 0xAA) ` set full_flow_names)"
    and point: "master_point B crs (bytes_to_scalar B (fill32 0xBB))
      (\<lambda>i. bytes_to_scalar B (derive_all_nullifiers B (fill32 0xAA) full_flow_names ! i))
      (bytes_to_scalar B TEST_NAME) \<noteq> 0"
  shows "crs_full_flow B = Inr ()"
proof -
  have ms: "collect_res (\<lambda>s. make_provider B (ascii s))
      [''twitter.com'', ''github.com'', ''nostr.com'', ''bitcoin.org''] =
      Inr (map (provider_of B) full_flow_names)"
    by (simp add: make_provider_def provider_of_def full_flow_names_def fixture_simps del: merchant_new_Inr)
  have names: "crs_names crs = full_flow_names"
    by (simp add: crs_def crs_names_def comp_def)
  have "distinct full_flow_names"
    by (simp add: full_flow_names_def)
  then have card: "card (set (derive_all_nullifiers B (fill32 0xAA) full_flow_names)) = 4"
    using distinct_card [OF nullifiers_distinct [OF sep]] by (simp add: full_flow_names_def)
  have len: "num_merchants crs = 4" "length full_flow_names = 4" "length (crs_generators crs) = 4"
    by (simp_all add: crs_def full_flow_names_def)
  then have commit: "commit_master_identity B crs (derive_all_nullifiers B (fill32 0xAA) full_flow_names)
      (fill32 0xBB) TEST_NAME = Inr (point_to_bytes B (master_point B crs (bytes_to_scalar B (fill32 0xBB))
        (\<lambda>i. bytes_to_scalar B (derive_all_nullifiers B (fill32 0xAA) full_flow_names ! i))
        (bytes_to_scalar B TEST_NAME)))"
    by (intro commit_master_identity_point) simp
  show ?thesis
    unfolding crs_full_flow_def ms rbind_simps Let_def crs_def [symmetric] names commit unwrap_simps
    using assms(2,3) point
    by (simp add: len card, simp add: point_to_bytes_def sec1_laws_def sec1_prefix_def)
qed

section \<open>request.rs\<close>

definition sample_r :: "('s, 'p) backend \<Rightarrow> failure + bytes" where
  "sample_r B =
     (let real_rand = fill32 0x42 in
      rbind (test_name ''alice'') (\<lambda>n. Inr (derive_child_randomness B real_rand n)))"

definition request_key_deterministic :: "('s, 'p) backend \<Rightarrow> failure + unit" where
  "request_key_deterministic B =
     rbind (sample_r B) (\<lambda>r. rbind (test_name ''twitter.com'') (\<lambda>name.
     assert_that ''assert_eq''
       (derive_payment_request_secret_key B r name = derive_payment_request_secret_key B r name)))"

definition request_different_services :: "('s, 'p) backend \<Rightarrow> failure + unit" where
  "request_different_services B =
     rbind (sample_r B) (\<lambda>r.
     rbind (test_name ''twitter.com'') (\<lambda>a. let csk1 = derive_payment_request_secret_key B r a in
     rbind (test_name ''github.com'') (\<lambda>b. let csk2 = derive_payment_request_secret_key B r b in
     assert_that ''assert_ne'' (csk1 \<noteq> csk2))))"

definition request_different_randomness :: "('s, 'p) backend \<Rightarrow> failure + unit" where
  "request_different_randomness B =
     (let r1 = fill32 0x01; r2 = fill32 0x02 in
      rbind (test_name ''twitter.com'') (\<lambda>name.
      assert_that ''assert_ne''
        (derive_payment_request_secret_key B r1 name \<noteq> derive_payment_request_secret_key B r2 name)))"

definition request_pseudonym_33_bytes :: "('s, 'p) backend \<Rightarrow> failure + unit" where
  "request_pseudonym_33_bytes B =
     (let g = test_crs_g B in rbind (sample_r B) (\<lambda>r. rbind (test_name ''twitter.com'') (\<lambda>n.
      let pnym = derive_payment_request_pseudonym B r n g in
      rbind (assert_that ''assert_eq'' (length pnym = 33)) (\<lambda>_.
      assert_that ''assert'' (pnym ! 0 = 2 \<or> pnym ! 0 = 3)))))"

definition request_pseudonym_deterministic :: "('s, 'p) backend \<Rightarrow> failure + unit" where
  "request_pseudonym_deterministic B =
     (let g = test_crs_g B in rbind (sample_r B) (\<lambda>r. rbind (test_name ''twitter.com'') (\<lambda>name.
      assert_that ''assert_eq''
        (derive_payment_request_pseudonym B r name g = derive_payment_request_pseudonym B r name g))))"

definition request_different_pseudonyms :: "('s, 'p) backend \<Rightarrow> failure + unit" where
  "request_different_pseudonyms B =
     (let g = test_crs_g B in rbind (sample_r B) (\<lambda>r.
      rbind (test_name ''twitter.com'') (\<lambda>a. let p1 = derive_payment_request_pseudonym B r a g in
      rbind (test_name ''github.com'') (\<lambda>b. let p2 = derive_payment_request_pseudonym B r b g in
      assert_that ''assert_ne'' (p1 \<noteq> p2)))))"

definition request_key_not_nullifier :: "('s, 'p) backend \<Rightarrow> failure + unit" where
  "request_key_not_nullifier B =
     rbind (sample_r B) (\<lambda>r. let sk = fill32 0x42 in
     rbind (test_name ''twitter.com'') (\<lambda>name.
     let csk = derive_payment_request_secret_key B r name; nul = derive_nullifier B sk name in
     assert_that ''assert_ne'' (csk \<noteq> nul)))"

definition request_proof_verifies :: "('s::field, 'p::ab_group_add) backend \<Rightarrow> rng \<Rightarrow> failure + unit" where
  "request_proof_verifies B rng =
     (let g = test_crs_g B in rbind (sample_r B) (\<lambda>r. rbind (test_name ''twitter.com'') (\<lambda>name.
      let pseudonym = derive_payment_request_pseudonym B r name g;
          proof = prove_payment_request B rng r name g in
      assert_that ''assert'' (verify_payment_request B g pseudonym proof))))"

definition request_wrong_pseudonym_fails :: "('s::field, 'p::ab_group_add) backend \<Rightarrow> rng \<Rightarrow> failure + unit" where
  "request_wrong_pseudonym_fails B rng =
     (let g = test_crs_g B in rbind (sample_r B) (\<lambda>r. rbind (test_name ''twitter.com'') (\<lambda>name.
      rbind (test_name ''github.com'') (\<lambda>other.
      let wrong_pseudonym = derive_payment_request_pseudonym B r other g;
          proof = prove_payment_request B rng r name g in
      assert_that ''assert'' (\<not> verify_payment_request B g wrong_pseudonym proof)))))"

definition request_wrong_key_fails :: "('s::field, 'p::ab_group_add) backend \<Rightarrow> rng \<Rightarrow> failure + unit" where
  "request_wrong_key_fails B rng =
     (let g = test_crs_g B in rbind (sample_r B) (\<lambda>r. rbind (test_name ''twitter.com'') (\<lambda>name.
      let pseudonym = derive_payment_request_pseudonym B r name g; wrong_r = fill32 0xFF;
          proof = prove_payment_request B rng wrong_r name g in
      assert_that ''assert'' (\<not> verify_payment_request B g pseudonym proof))))"

definition request_tampered_fails :: "('s::field, 'p::ab_group_add) backend \<Rightarrow> rng \<Rightarrow> failure + unit" where
  "request_tampered_fails B rng =
     (let g = test_crs_g B in rbind (sample_r B) (\<lambda>r. rbind (test_name ''twitter.com'') (\<lambda>name.
      let pseudonym = derive_payment_request_pseudonym B r name g;
          proof = prove_payment_request B rng r name g;
          tampered = proof\<lparr>rq_s := (rq_s proof)[0 := xor (rq_s proof ! 0) 0xFF]\<rparr> in
      assert_that ''assert'' (\<not> verify_payment_request B g pseudonym tampered))))"

definition request_r :: "('s, 'p) backend \<Rightarrow> bytes" where
  "request_r B = derive_child_randomness B (fill32 0x42) (ascii ''alice'')"

lemma sample_r_Inr [simp]: "sample_r B = Inr (request_r B)"
  by (simp add: sample_r_def request_r_def)

lemma pseudonym_point:
  "derive_payment_request_pseudonym B r name g =
     point_to_bytes B (bk_mul B g (kdf_scalar B (request_input r name)))"
  by (simp add: derive_payment_request_pseudonym_def Let_def point_to_bytes_def scalar_of_request_key)

lemma honest_proof_verifies:
  assumes "mul_laws B" "codec_laws B"
  shows "verify_payment_request B g (derive_payment_request_pseudonym B r name g)
    (prove_payment_request B rng r name g)"
  using honest_request_verifies [OF assms, of g rng r name 0]
  by (simp add: create_payment_request_def Let_def)

lemma request_tests:
  assumes "mul_laws B" "codec_laws B"
  shows "request_key_deterministic B = Inr ()" "request_pseudonym_deterministic B = Inr ()"
    "request_proof_verifies B rng = Inr ()"
  by (simp_all add: request_key_deterministic_def request_pseudonym_deterministic_def Let_def
      request_proof_verifies_def honest_proof_verifies [OF assms])

text \<open>A proof is refused for another pseudonym exactly when the two challenges answer the two
  secret keys differently: the response for \<open>(e, k)\<close> is a response for \<open>(e', k')\<close> iff
  \<open>e k = e' k'\<close>. Both tests of a foreign proof are this equation.\<close>

lemma foreign_request_verifies:
  fixes B :: "('s::field, 'p::ab_group_add) backend" and rng :: rng
  assumes laws: "mul_laws B" "codec_laws B" and g: "g \<noteq> 0"
  defines "k \<equiv> \<lambda>x. kdf_scalar B (request_input (fst x) (snd x))"
  defines "ps \<equiv> \<lambda>x. point_to_bytes B (bk_mul B g (k x))"
  defines "e \<equiv> \<lambda>x. payment_request_challenge B g (ps x) (bk_mul B g (random_scalar B rng 0))"
  shows "verify_payment_request B g (derive_payment_request_pseudonym B r' name' g)
      (prove_payment_request B rng r name g) \<longleftrightarrow>
    e (r, name) * k (r, name) = e (r', name') * k (r', name')"
proof -
  have "verify_payment_request B g (ps (r', name')) (prove_payment_request B rng r name g) \<longleftrightarrow>
      bk_mul B g (random_scalar B rng 0 + e (r, name) * k (r, name)) =
      bk_mul B g (random_scalar B rng 0 + k (r', name') * e (r', name'))"
    using laws
    by (simp add: verify_payment_request_iff prove_payment_request_def Let_def ps_def e_def k_def
        scalar_of_request_key mul_simps bytes_to_scalar_def [of B "bk_repr _ _"])
  then show ?thesis
    by (simp add: pseudonym_point ps_def k_def mul_eq_iff [OF laws(1) g] mult.commute)
qed

text \<open>A changed response is refused exactly when it reduces to another scalar.\<close>

lemma tampered_request_verifies:
  assumes laws: "mul_laws B" "codec_laws B" and g: "g \<noteq> 0"
  shows "verify_payment_request B g (derive_payment_request_pseudonym B r name g)
      ((prove_payment_request B rng r name g)\<lparr>rq_s := s\<rparr>) \<longleftrightarrow>
    bytes_to_scalar B s = bytes_to_scalar B (rq_s (prove_payment_request B rng r name g))"
proof -
  let ?p = "prove_payment_request B rng r name g"
  obtain R P where R: "point_from_bytes B (rq_r ?p) = Some R"
    and P: "point_from_bytes B (derive_payment_request_pseudonym B r name g) = Some P"
    and eq: "bk_mul B g (bytes_to_scalar B (rq_s ?p)) = R + bk_mul B P
      (payment_request_challenge B g (derive_payment_request_pseudonym B r name g) R)"
    using honest_proof_verifies [OF laws, of g r name rng] by (auto simp: verify_payment_request_iff)
  then show ?thesis
    by (simp add: verify_payment_request_iff mul_eq_iff [OF laws(1) g] flip: eq)
qed

lemma request_refusal_tests:
  fixes B :: "('s::field, 'p::ab_group_add) backend" and rng :: rng
  assumes laws: "mul_laws B" "codec_laws B" and g: "test_crs_g B \<noteq> 0"
  defines "k \<equiv> \<lambda>r name. kdf_scalar B (request_input r name)"
  defines "e \<equiv> \<lambda>r name. payment_request_challenge B (test_crs_g B)
    (point_to_bytes B (bk_mul B (test_crs_g B) (k r name))) (bk_mul B (test_crs_g B) (random_scalar B rng 0))"
  defines "tw \<equiv> ascii ''twitter.com''" and "gh \<equiv> ascii ''github.com''"
  defines "s \<equiv> rq_s (prove_payment_request B rng (request_r B) tw (test_crs_g B))"
  shows "request_wrong_pseudonym_fails B rng = Inr () \<longleftrightarrow>
      e (request_r B) tw * k (request_r B) tw \<noteq> e (request_r B) gh * k (request_r B) gh"
    and "request_wrong_key_fails B rng = Inr () \<longleftrightarrow>
      e (fill32 0xFF) tw * k (fill32 0xFF) tw \<noteq> e (request_r B) tw * k (request_r B) tw"
    and "request_tampered_fails B rng = Inr () \<longleftrightarrow>
      bytes_to_scalar B (s[0 := xor (s ! 0) 0xFF]) \<noteq> bytes_to_scalar B s"
  by (simp_all add: request_wrong_pseudonym_fails_def request_wrong_key_fails_def request_tampered_fails_def
      Let_def foreign_request_verifies [OF laws g] tampered_request_verifies [OF laws g]
      k_def e_def tw_def gh_def s_def)

lemma request_separation_tests:
  assumes "mul_laws B" "codec_laws B" "test_crs_g B \<noteq> 0"
    and sep: "kdf_separates B {request_input (request_r B) (ascii ''twitter.com''),
      request_input (request_r B) (ascii ''github.com''),
      request_input (fill32 0x01) (ascii ''twitter.com''), request_input (fill32 0x02) (ascii ''twitter.com''),
      nullifier_input (fill32 0x42) (ascii ''twitter.com'')}"
  shows "request_different_services B = Inr ()" "request_different_randomness B = Inr ()"
    "request_different_pseudonyms B = Inr ()" "request_key_not_nullifier B = Inr ()"
proof -
  note neq = kdf_scalar_neq [OF sep]
  have keys: "kdf_scalar B (request_input (request_r B) (ascii ''twitter.com'')) \<noteq>
      kdf_scalar B (request_input (request_r B) (ascii ''github.com''))"
    by (rule neq) simp_all
  then show "request_different_services B = Inr ()"
    by (auto simp: request_different_services_def Let_def simp flip: scalar_of_request_key)
  show "request_different_pseudonyms B = Inr ()"
    using keys
    by (simp add: request_different_pseudonyms_def Let_def pseudonym_point point_to_bytes_inj [OF assms(2)]
        mul_eq_iff [OF assms(1,3)])
  have "kdf_scalar B (request_input (fill32 0x01) (ascii ''twitter.com'')) \<noteq>
      kdf_scalar B (request_input (fill32 0x02) (ascii ''twitter.com''))"
    by (rule neq) (simp_all add: fill32_def)
  then show "request_different_randomness B = Inr ()"
    by (auto simp: request_different_randomness_def Let_def simp flip: scalar_of_request_key)
  have "kdf_scalar B (request_input (request_r B) (ascii ''twitter.com'')) \<noteq>
      kdf_scalar B (nullifier_input (fill32 0x42) (ascii ''twitter.com''))"
    by (rule neq) (simp_all add: request_input_def nullifier_input_def)
  then show "request_key_not_nullifier B = Inr ()"
    by (auto simp: request_key_not_nullifier_def Let_def simp flip: scalar_of_request_key scalar_of_nullifier)
qed

lemma request_pseudonym_33_bytes_test:
  assumes "codec_laws B" "sec1_laws B"
    and "bk_mul B (test_crs_g B) (kdf_scalar B (request_input (request_r B) (ascii ''twitter.com''))) \<noteq> 0"
  shows "request_pseudonym_33_bytes B = Inr ()"
  using assms
  by (simp add: request_pseudonym_33_bytes_def Let_def pseudonym_point, simp add: point_to_bytes_def
      sec1_laws_def sec1_prefix_def)

end
