(* ===== verification/Unit_Tests_Credential.thy ===== *)
theory Unit_Tests_Credential
  imports Unit_Tests_Crs
begin

text \<open>
  The unit tests of \<open>credential.rs\<close> for Phases 1 and 2: the credential and its nullifiers, and
  the search for one's own commitment in the anonymity set. The latter pass exactly when the
  target's commitment is not among the ones before it.
\<close>

section \<open>Phase 1\<close>

definition credential_valid_commitment :: "('s, 'p::ab_group_add) backend \<Rightarrow> failure + unit" where
  "credential_valid_commitment B =
     rbind (make_crs_service B 4) (\<lambda>crs. rbind (make_credential B crs 0x42) (\<lambda>cred.
     rbind (assert_that ''assert_eq'' (length (mc_phi cred) = 33)) (\<lambda>_.
     assert_that ''assert'' (mc_phi cred ! 0 = 2 \<or> mc_phi cred ! 0 = 3))))"

definition credential_recompute_phi :: "('s, 'p::ab_group_add) backend \<Rightarrow> failure + unit" where
  "credential_recompute_phi B =
     rbind (make_crs_service B 4) (\<lambda>crs. rbind (make_credential B crs 0x42) (\<lambda>cred.
     rbind (recompute_phi B cred crs) (\<lambda>phi.
     assert_that ''assert_eq'' (phi = mc_phi cred))))"

definition credential_different_phi :: "('s, 'p::ab_group_add) backend \<Rightarrow> failure + unit" where
  "credential_different_phi B =
     rbind (make_crs_service B 4) (\<lambda>crs.
     rbind (make_credential B crs 0x01) (\<lambda>c1. rbind (make_credential B crs 0x02) (\<lambda>c2.
     assert_that ''assert_ne'' (mc_phi c1 \<noteq> mc_phi c2))))"

definition credential_nullifier_matches :: "('s, 'p::ab_group_add) backend \<Rightarrow> failure + unit" where
  "credential_nullifier_matches B =
     rbind (make_crs_service B 3) (\<lambda>crs. rbind (make_credential B crs 0x42) (\<lambda>cred.
     let names = crs_names crs in
     for_each (\<lambda>l. rbind (nullifier_scalar B cred crs l) (\<lambda>from_cred.
        let from_derive = derive_nullifier B (mc_sk cred) (names ! (l - 1)) in
        assert_that ''assert_eq'' (from_cred = from_derive))) [1..<4]))"

definition credential_nullifier_count :: "('s, 'p::ab_group_add) backend \<Rightarrow> failure + unit" where
  "credential_nullifier_count B =
     rbind (make_crs_service B 5) (\<lambda>crs. rbind (make_credential B crs 0x42) (\<lambda>cred.
     let scalars = all_nullifier_scalars B cred crs in
     assert_that ''assert_eq'' (length scalars = 5)))"

definition credential_public_matches :: "('s, 'p::ab_group_add) backend \<Rightarrow> failure + unit" where
  "credential_public_matches B =
     rbind (make_crs_service B 3) (\<lambda>crs. rbind (make_credential B crs 0x42) (\<lambda>cred.
     let names = crs_names crs in
     for_each (\<lambda>l. rbind (public_nullifier B cred crs l) (\<lambda>from_cred.
        let from_derive = derive_public_nullifier B (mc_sk cred) (names ! (l - 1)) (crs_g crs) in
        assert_that ''assert_eq'' (from_cred = from_derive))) [1..<4]))"

definition credential_public_differ :: "('s, 'p::ab_group_add) backend \<Rightarrow> failure + unit" where
  "credential_public_differ B =
     rbind (make_crs_service B 5) (\<lambda>crs. rbind (make_credential B crs 0x42) (\<lambda>cred.
     rbind (collect_res (public_nullifier B cred crs) [1..<6]) (\<lambda>pns.
     for_each (\<lambda>i. for_each (\<lambda>j. assert_that ''assert_ne'' (pns ! i \<noteq> pns ! j)) [i + 1..<length pns])
       [0..<length pns])))"

lemma crs_of_names: "i < n \<Longrightarrow> crs_names (crs_of B base n sz) ! i = ascii base @ show_nat i"
  by (simp add: crs_of_def crs_names_def)

lemma crs_of_merchant: "i < n \<Longrightarrow> crs_merchants (crs_of B base n sz) ! i = provider_of B (ascii base @ show_nat i)"
  by (simp add: crs_of_def)

lemma credential_tests:
  assumes "codec_laws B"
  shows "credential_recompute_phi B = Inr ()" "credential_nullifier_matches B = Inr ()"
    "credential_nullifier_count B = Inr ()" "credential_public_matches B = Inr ()"
proof -
  show "credential_recompute_phi B = Inr ()"
    by (simp add: credential_recompute_phi_def fixture_simps recompute_phi_wf user_of_phi)
  show "credential_nullifier_count B = Inr ()"
    by (simp add: credential_nullifier_count_def fixture_simps Let_def)
  show "credential_nullifier_matches B = Inr ()" "credential_public_matches B = Inr ()"
    by (auto simp: credential_nullifier_matches_def credential_public_matches_def fixture_simps Let_def
        nullifier_scalar_def public_nullifier_def crs_of_names crs_of_merchant simp del: One_nat_def)
qed

lemma credential_valid_commitment_test:
  assumes "codec_laws B" "sec1_laws B"
    and "credential_point B (crs_of B ''service-'' 4 (N_of B)) (user_of B (crs_of B ''service-'' 4 (N_of B)) 0x42) \<noteq> 0"
  shows "credential_valid_commitment B = Inr ()"
  using assms
  by (simp add: credential_valid_commitment_def fixture_simps user_of_phi point_to_bytes_def sec1_laws_def
      sec1_prefix_def)

lemma credential_different_phi_test:
  fixes B :: "('s::field, 'p::ab_group_add) backend"
  assumes "codec_laws B"
  defines "crs \<equiv> crs_of B ''service-'' 4 (N_of B)"
  shows "credential_different_phi B = Inr () \<longleftrightarrow>
    credential_point B crs (user_of B crs 0x01) \<noteq> credential_point B crs (user_of B crs 0x02)"
  by (simp add: credential_different_phi_def fixture_simps user_of_phi point_to_bytes_inj [OF assms(1)] crs_def)

lemma collect_public_nullifiers:
  "num_merchants crs = n \<Longrightarrow> collect_res (public_nullifier B c crs) [1..<Suc n] =
     Inr (derive_all_public_nullifiers B (mc_sk c) (crs_names crs) (crs_g crs))"
proof -
  assume n: "num_merchants crs = n"
  have "collect_res (public_nullifier B c crs) [1..<Suc n] =
      Inr (map (\<lambda>l. derive_public_nullifier B (mc_sk c) (m_name (crs_merchants crs ! (l - 1))) (crs_g crs)) [1..<Suc n])"
    using n by (intro collect_res_map) (auto simp: public_nullifier_def simp del: One_nat_def)
  also have "map (\<lambda>l. derive_public_nullifier B (mc_sk c) (m_name (crs_merchants crs ! (l - 1))) (crs_g crs)) [1..<Suc n]
      = derive_all_public_nullifiers B (mc_sk c) (crs_names crs) (crs_g crs)"
    using n by (intro nth_equalityI) (simp_all add: derive_all_public_nullifiers_def crs_names_def num_merchants_def
        del: upt_Suc)
  finally show ?thesis .
qed

lemma pairwise_test:
  "for_each (\<lambda>i. for_each (\<lambda>j. assert_that w (xs ! i \<noteq> xs ! j)) [i + 1..<length xs]) [0..<length xs] = Inr ()
     \<longleftrightarrow> distinct xs"
proof -
  have "(\<forall>i<length xs. \<forall>j. i < j \<and> j < length xs \<longrightarrow> xs ! i \<noteq> xs ! j) \<longleftrightarrow> distinct xs"
    unfolding distinct_conv_nth by (metis nat_neq_iff)
  then show ?thesis by (auto simp: Suc_le_eq)
qed

lemma credential_public_differ_test:
  assumes "mul_laws B" "codec_laws B" "test_crs_g B \<noteq> 0"
    and "kdf_separates B (nullifier_input (fill32 0x42) ` set (map (\<lambda>i. ascii ''service-'' @ show_nat i) [0..<5]))"
  shows "credential_public_differ B = Inr ()"
proof -
  let ?crs = "crs_of B ''service-'' 5 (N_of B)"
  let ?c = "user_of B ?crs 0x42"
  have names: "crs_names ?crs = map (\<lambda>i. ascii ''service-'' @ show_nat i) [0..<5]"
    by (rule nth_equalityI) (simp_all add: crs_of_names)
  have g: "crs_g ?crs = test_crs_g B"
    by (simp add: test_crs_g_def CRS_DST_def)
  have "collect_res (public_nullifier B ?c ?crs) [1..<6] =
      Inr (derive_all_public_nullifiers B (fill32 0x42) (crs_names ?crs) (test_crs_g B))"
    using collect_public_nullifiers [of ?crs 5 B ?c] by (simp add: g user_of_def del: upt_Suc crs_of_sel(5))
  moreover have "make_crs_service B 5 = Inr ?crs" "make_credential B ?crs 0x42 = Inr ?c"
    by (simp_all add: fixture_simps)
  moreover have "distinct (derive_all_public_nullifiers B (fill32 0x42) (crs_names ?crs) (test_crs_g B))"
    unfolding names by (rule public_nullifiers_distinct [OF assms distinct_services]) simp
  ultimately show ?thesis
    unfolding credential_public_differ_def by (simp only: rbind_simps pairwise_test)
qed

section \<open>Phase 2\<close>

definition register_finds_own_phi :: "('s, 'p::ab_group_add) backend \<Rightarrow> failure + unit" where
  "register_finds_own_phi B =
     rbind (make_crs_service B 3) (\<lambda>crs.
     rbind (make_beneficiary B crs 0x42 (ascii ''target'')) (\<lambda>target.
     rbind (make_phi B crs 0x01) (\<lambda>p1. rbind (make_phi B crs 0x02) (\<lambda>p2. rbind (make_phi B crs 0x03) (\<lambda>p3.
     let xs = [p1, p2, mc_phi (bn_credential target), p3] in
     rbind (unwrap (beneficiary_register target (fill32 0) xs)) (\<lambda>target.
     assert_that ''assert_eq'' (bn_index target = Some 2)))))))"

definition register_fails_if_not_in_set :: "('s, 'p::ab_group_add) backend \<Rightarrow> failure + unit" where
  "register_fails_if_not_in_set B =
     rbind (make_crs_service B 3) (\<lambda>crs.
     rbind (make_beneficiary B crs 0x42 (ascii ''target'')) (\<lambda>target.
     rbind (make_phi B crs 0x01) (\<lambda>p1. rbind (make_phi B crs 0x02) (\<lambda>p2.
     let xs = [p1, p2] in
     assert_that ''assert'' (isl (beneficiary_register target (fill32 0) xs))))))"

definition register_succeeds :: "('s, 'p::ab_group_add) backend \<Rightarrow> failure + unit" where
  "register_succeeds B =
     rbind (make_crs_service B 3) (\<lambda>crs.
     rbind (make_beneficiary B crs 0x42 (ascii ''target'')) (\<lambda>ben.
     rbind (make_phi B crs 0x01) (\<lambda>p1. rbind (make_phi B crs 0x02) (\<lambda>p2. rbind (make_phi B crs 0x03) (\<lambda>p3.
     let xs = [p1, mc_phi (bn_credential ben), p2, p3] in
     rbind (unwrap (beneficiary_register ben (fill32 0) xs)) (\<lambda>ben.
     rbind (assert_that ''assert_eq'' (bn_index ben = Some 1)) (\<lambda>_.
     rbind (assert_that ''assert_eq'' (bn_set_id ben = Some (fill32 0))) (\<lambda>_.
     assert_that ''assert_eq'' (beneficiary_set_size ben = Some 4)))))))))"

text \<open>\<open>Vec::insert\<close> panics past the end of the vector.\<close>

definition vec_insert :: "nat \<Rightarrow> 'a \<Rightarrow> 'a list \<Rightarrow> failure + 'a list" where
  "vec_insert i x xs =
     (if i \<le> length xs then Inr (take i xs @ x # drop i xs)
      else Inl (Panic ''insertion index should be <= len''))"

definition full_phase_1_and_2_flow :: "('s, 'p::ab_group_add) backend \<Rightarrow> failure + unit" where
  "full_phase_1_and_2_flow B =
     rbind (make_crs_service B 4) (\<lambda>crs.
     rbind (make_beneficiary B crs 0xAA (ascii ''my-user'')) (\<lambda>ben.
     let scalars = all_nullifier_scalars B (bn_credential ben) crs; unique = set scalars in
     rbind (assert_that ''assert_eq'' (card unique = 4)) (\<lambda>_.
     let names = crs_names crs;
         pub_nuls = derive_all_public_nullifiers B (mc_sk (bn_credential ben)) names (crs_g crs) in
     rbind (for_each (\<lambda>pn. assert_that ''assert'' (pn ! 0 = 2 \<or> pn ! 0 = 3)) pub_nuls) (\<lambda>_.
     rbind (recompute_phi B (bn_credential ben) crs) (\<lambda>phi.
     rbind (assert_that ''assert_eq'' (phi = mc_phi (bn_credential ben))) (\<lambda>_.
     rbind (collect_res (\<lambda>seed. make_phi B crs (word_of_nat seed)) [1..<8]) (\<lambda>others.
     rbind (vec_insert 3 (mc_phi (bn_credential ben)) others) (\<lambda>anonymity_set.
     rbind (assert_that ''assert_eq'' (length anonymity_set = 8)) (\<lambda>_.
     rbind (unwrap (beneficiary_register ben (fill32 0) anonymity_set)) (\<lambda>ben.
     rbind (assert_that ''assert_eq'' (bn_index ben = Some 3)) (\<lambda>_.
     rbind (assert_that ''assert_eq'' (beneficiary_set_size ben = Some 8)) (\<lambda>_.
     rbind (ok_or (bn_anonymity_set ben) (Panic ''called Option::unwrap() on a None value'')) (\<lambda>anon_set.
     rbind (ok_or (bn_index ben) (Panic ''called Option::unwrap() on a None value'')) (\<lambda>i.
     if i < length anon_set then assert_that ''assert_eq'' (anon_set ! i = mc_phi (bn_credential ben))
     else Inl (Panic ''index out of bounds'')))))))))))))))"

lemma register_at:
  assumes "xs = ys @ mc_phi (bn_credential b) # zs" "mc_phi (bn_credential b) \<notin> set ys"
  shows "beneficiary_register b d xs =
    Inr (b\<lparr>bn_set_id := Some d, bn_index := Some (length ys), bn_anonymity_set := Some xs\<rparr>)"
proof -
  have "position (\<lambda>c. c = mc_phi (bn_credential b)) (ys @ mc_phi (bn_credential b) # zs) = Some (length ys)"
    using assms(2) by (induction ys) auto
  then show ?thesis
    by (simp add: beneficiary_register_def assms(1))
qed

lemma member_of_sel [simp]:
  "bn_credential (member_of B crs seed fname) = seeded B crs seed fname"
  by (simp add: member_of_def)

lemma registration_tests:
  fixes B :: "('s::field, 'p::ab_group_add) backend"
  defines "crs \<equiv> crs_of B ''service-'' 3 (N_of B)"
  defines "target \<equiv> mc_phi (seeded B crs 0x42 (ascii ''target''))"
  shows "register_finds_own_phi B = Inr () \<longleftrightarrow> target \<notin> {mc_phi (user_of B crs 0x01), mc_phi (user_of B crs 0x02)}"
    and "register_fails_if_not_in_set B = Inr () \<longleftrightarrow>
      target \<notin> {mc_phi (user_of B crs 0x01), mc_phi (user_of B crs 0x02)}"
    and "register_succeeds B = Inr () \<longleftrightarrow> target \<noteq> mc_phi (user_of B crs 0x01)"
  by (auto simp: register_finds_own_phi_def register_fails_if_not_in_set_def register_succeeds_def
      fixture_simps Let_def beneficiary_register_def crs_def target_def beneficiary_set_size_def)

text \<open>Phases 1 and 2 together: the target, inserted at position 3 among seven members, finds itself
  there.\<close>

lemma full_phase_1_and_2_flow_test:
  fixes B :: "('s::field, 'p::ab_group_add) backend"
  defines "crs \<equiv> crs_of B ''service-'' 4 (N_of B)"
  defines "ben \<equiv> seeded B crs 0xAA (ascii ''my-user'')"
  assumes laws: "mul_laws B" "codec_laws B" "sec1_laws B"
    and sep: "kdf_separates B (nullifier_input (fill32 0xAA) ` set (crs_names crs))"
    and points: "\<forall>name\<in>set (crs_names crs).
      bk_mul B (crs_g crs) (kdf_scalar B (nullifier_input (fill32 0xAA) name)) \<noteq> 0"
    and fresh: "mc_phi ben \<notin> mc_phi ` user_of B crs ` {0x01, 0x02, 0x03}"
  shows "full_phase_1_and_2_flow B = Inr ()"
proof -
  have names: "crs_names crs = map (\<lambda>i. ascii ''service-'' @ show_nat i) [0..<4]"
    unfolding crs_def by (rule nth_equalityI) (simp_all add: crs_of_names)
  then have "distinct (crs_names crs)" "length (crs_names crs) = 4"
    by (simp_all only: distinct_services) simp_all
  then have unique: "card (set (all_nullifier_scalars B ben crs)) = 4"
    using distinct_card [OF nullifiers_distinct [OF sep]]
    by (simp add: all_nullifier_scalars_def ben_def)
  have valid: "for_each (\<lambda>pn. assert_that ''assert'' (pn ! 0 = 2 \<or> pn ! 0 = 3))
      (derive_all_public_nullifiers B (mc_sk ben) (crs_names crs) (crs_g crs)) = Inr ()"
    using points laws(3)
    by (auto simp: derive_all_public_nullifiers_def derive_public_nullifier_point scalar_of_nullifier
        point_to_bytes_def ben_def sec1_laws_def sec1_prefix_def)
  have phi: "recompute_phi B ben crs = Inr (mc_phi ben)"
    by (simp add: recompute_phi_wf crs_def ben_def seeded_phi)
  define p where "p i = mc_phi (user_of B crs (word_of_nat i))" for i
  have "collect_res (\<lambda>seed. make_phi B crs (word_of_nat seed)) [1..<8] = Inr (map p [1..<8])"
    by (rule collect_res_map) (simp add: make_phi_of crs_def p_def)
  moreover have "[1..<8] = [1, 2, 3, 4, 5, 6, 7 :: nat]"
    by (simp add: upt_rec)
  ultimately have others: "collect_res (\<lambda>seed. make_phi B crs (word_of_nat seed)) [1..<8] =
      Inr [p 1, p 2, p 3, p 4, p 5, p 6, p 7]"
    by simp
  define xs where "xs = [p 1, p 2, p 3, mc_phi ben, p 4, p 5, p 6, p 7]"
  have insert: "vec_insert 3 (mc_phi ben) [p 1, p 2, p 3, p 4, p 5, p 6, p 7] = Inr xs"
    by (simp add: vec_insert_def xs_def)
  have register: "beneficiary_register (member_of B crs 0xAA (ascii ''my-user'')) (fill32 0) xs =
      Inr ((member_of B crs 0xAA (ascii ''my-user''))\<lparr>bn_set_id := Some (fill32 0),
        bn_index := Some (length [p 1, p 2, p 3]), bn_anonymity_set := Some xs\<rparr>)"
    by (rule register_at [where zs = "[p 4, p 5, p 6, p 7]"])
      (use fresh in \<open>auto simp: xs_def ben_def p_def\<close>)
  have "xs ! Suc (Suc (Suc 0)) = mc_phi ben" "length xs = 8"
    by (simp_all add: xs_def)
  moreover have "make_crs_service B 4 = Inr crs"
    "make_beneficiary B crs 0xAA (ascii ''my-user'') = Inr (member_of B crs 0xAA (ascii ''my-user''))"
    by (simp_all add: crs_def fixture_simps)
  ultimately show ?thesis
    by (simp add: full_phase_1_and_2_flow_def Let_def ben_def [symmetric] unique valid phi others insert
        register beneficiary_set_size_def del: One_nat_def)
qed

end
