(* ===== verification/Unit_Tests_Proof.thy ===== *)
theory Unit_Tests_Proof
  imports Unit_Tests_Credential Proof_Codec
begin

text \<open>
  The unit tests of \<open>verifier.rs\<close> and \<open>payment_identity.rs\<close> and the Phase 3 test of
  \<open>credential.rs\<close>: proofs made and checked. The target of several of them stands at position 5
  or 6 of a set of \<open>N\<close> commitments, and the Phase 3 test fixes a set of eight, so that they
  need \<open>N\<close> to be large enough, or eight; the constant is chosen by the build script.
\<close>

section \<open>verifier.rs: the tables\<close>

definition VERIFIER_SET_ID :: bytes where "VERIFIER_SET_ID = fill32 7"

definition new_verifier_state :: "failure + unit" where
  "new_verifier_state =
     (let vs = verifier_new 1 in
      rbind (assert_that ''assert_eq'' (vs_user_index vs = 1)) (\<lambda>_.
      rbind (assert_that ''assert_eq'' (registered_count vs = 0)) (\<lambda>_.
      assert_that ''assert'' (get_cached_set vs (fill32 0) = None))))"

definition cache_and_retrieve_set :: "failure + unit" where
  "cache_and_retrieve_set =
     (let vs = verifier_new 1; dummy = [replicate 33 0x02, replicate 33 0x03];
          vs = cache_set vs (fill32 42) dummy in
      rbind (ok_or (get_cached_set vs (fill32 42)) (Panic ''called Option::unwrap() on a None value''))
        (\<lambda>retrieved.
      rbind (assert_that ''assert_eq'' (length retrieved = 2)) (\<lambda>_.
      rbind (assert_that ''assert_eq'' (retrieved ! 0 = dummy ! 0)) (\<lambda>_.
      assert_that ''assert'' (get_cached_set vs (fill32 99) = None)))))"

definition freshness_passes :: "failure + unit" where
  "freshness_passes =
     (let vs = verifier_new 1; nul = replicate 33 0x02; pseudo = replicate 33 0x03 in
      assert_that ''assert'' (\<not> isl (check_freshness vs pseudo nul)))"

definition freshness_fails_nullifier :: "failure + unit" where
  "freshness_fails_nullifier =
     (let vs = verifier_new 1; nul = replicate 33 0x02; pseudo = replicate 33 0x03;
          vs = vs\<lparr>vs_nullifiers := insert nul (vs_nullifiers vs)\<rparr> in
      assert_that ''assert_eq'' (check_freshness vs pseudo nul = Inl NullifierAlreadyUsed))"

definition freshness_fails_pseudonym :: "failure + unit" where
  "freshness_fails_pseudonym =
     (let vs = verifier_new 1; nul = replicate 33 0x02; pseudo = replicate 33 0x03;
          vs = vs\<lparr>vs_pseudonyms := insert pseudo (vs_pseudonyms vs)\<rparr> in
      assert_that ''assert_eq'' (check_freshness vs pseudo nul = Inl PseudonymAlreadyUsed))"

lemma verifier_table_tests:
  "new_verifier_state = Inr ()" "cache_and_retrieve_set = Inr ()" "freshness_passes = Inr ()"
  "freshness_fails_nullifier = Inr ()" "freshness_fails_pseudonym = Inr ()"
  by (simp_all add: new_verifier_state_def cache_and_retrieve_set_def freshness_passes_def
      freshness_fails_nullifier_def freshness_fails_pseudonym_def Let_def verifier_new_def
      registered_count_def get_cached_set_def cache_set_def check_freshness_def fill32_def)

section \<open>verifier.rs: registrations\<close>

text \<open>The call \<open>vs.verify_and_register(..)\<close> of the tests, with the state it leaves.\<close>

definition try_register ::
    "('s::field, 'p::ab_group_add) backend \<Rightarrow> 'p crs \<Rightarrow> verifier_state \<Rightarrow> bytes \<Rightarrow> bytes \<Rightarrow> pid_proof \<Rightarrow>
      bytes \<Rightarrow> str \<Rightarrow> verifier_failure + verifier_state \<times> registration_result" where
  "try_register B crs vs pseudonym pub_nul proof set_id fname =
     verify_and_register B crs vs \<lparr>sb_pseudonym = pseudonym, sb_nullifier = pub_nul, sb_proof = proof,
       sb_set_id = set_id, sb_friendly_name = fname\<rparr>"

definition verify_and_register_full_flow ::
    "('s::field, 'p::ab_group_add) backend \<Rightarrow> rng \<Rightarrow> failure + unit" where
  "verify_and_register_full_flow B rng =
     rbind (make_crs_user B 3) (\<lambda>crs.
     let service_index = 2; target_pos = 5 in
     rbind (make_full_set B crs 0xAA target_pos) (\<lambda>(cred, xs).
     rbind (make_valid_proof B rng crs cred xs target_pos service_index VERIFIER_SET_ID)
       (\<lambda>(proof, pseudonym, pub_nul, fname).
     let vs = cache_set (verifier_new service_index) VERIFIER_SET_ID xs in
     case try_register B crs vs pseudonym pub_nul proof VERIFIER_SET_ID fname of
       Inl _ \<Rightarrow> Inl (Panic ''valid proof should register'')
     | Inr (vs, result) \<Rightarrow>
         rbind (assert_that ''assert_eq'' (rr_pseudonym result = pseudonym)) (\<lambda>_.
         rbind (assert_that ''assert_eq'' (rr_public_nullifier result = pub_nul)) (\<lambda>_.
         rbind (assert_that ''assert_eq'' (rr_friendly_name result = fname)) (\<lambda>_.
         rbind (assert_that ''assert_eq'' (registered_count vs = 1)) (\<lambda>_.
         rbind (assert_that ''assert'' (has_nullifier vs pub_nul)) (\<lambda>_.
         assert_that ''assert'' (has_pseudonym vs pseudonym)))))))))"

definition verify_and_register_rejects_replay ::
    "('s::field, 'p::ab_group_add) backend \<Rightarrow> rng \<Rightarrow> failure + unit" where
  "verify_and_register_rejects_replay B rng =
     rbind (make_crs_user B 3) (\<lambda>crs.
     let service_index = 2; target_pos = 5 in
     rbind (make_full_set B crs 0xAA target_pos) (\<lambda>(cred, xs).
     rbind (make_valid_proof B rng crs cred xs target_pos service_index VERIFIER_SET_ID)
       (\<lambda>(proof, pseudonym, pub_nul, fname).
     let vs = cache_set (verifier_new service_index) VERIFIER_SET_ID xs in
     case try_register B crs vs pseudonym pub_nul proof VERIFIER_SET_ID fname of
       Inl _ \<Rightarrow> Inl (Panic ''assert'')
     | Inr (vs, _) \<Rightarrow>
         assert_that ''assert_eq'' (try_register B crs vs pseudonym pub_nul proof VERIFIER_SET_ID fname =
           Inl (Rejected NullifierAlreadyUsed)))))"

definition verify_and_register_set_not_found ::
    "('s::field, 'p::ab_group_add) backend \<Rightarrow> rng \<Rightarrow> failure + unit" where
  "verify_and_register_set_not_found B rng =
     rbind (make_crs_user B 3) (\<lambda>crs.
     let service_index = 1 in
     rbind (make_full_set B crs 0xBB 3) (\<lambda>(cred, xs).
     rbind (make_valid_proof B rng crs cred xs 3 service_index (fill32 99)) (\<lambda>(proof, pseudonym, pub_nul, fname).
     let vs = verifier_new service_index in
     assert_that ''assert_eq'' (try_register B crs vs pseudonym pub_nul proof (fill32 99) fname =
       Inl (Rejected (SetNotFound (fill32 99)))))))"

definition verify_and_register_invalid_proof ::
    "('s::field, 'p::ab_group_add) backend \<Rightarrow> rng \<Rightarrow> failure + unit" where
  "verify_and_register_invalid_proof B rng =
     rbind (make_crs_user B 3) (\<lambda>crs.
     let service_index = 1; target_pos = 3 in
     rbind (make_full_set B crs 0xCC target_pos) (\<lambda>(cred, xs).
     rbind (make_valid_proof B rng crs cred xs target_pos service_index VERIFIER_SET_ID)
       (\<lambda>(proof, pseudonym, pub_nul, fname).
     let z0 = pf_z_responses proof ! 0;
         proof = proof\<lparr>pf_z_responses := (pf_z_responses proof)[0 := z0[0 := xor (z0 ! 0) 0xFF]]\<rparr>;
         vs = cache_set (verifier_new service_index) VERIFIER_SET_ID xs in
     assert_that ''assert_eq'' (try_register B crs vs pseudonym pub_nul proof VERIFIER_SET_ID fname =
       Inl (Rejected ProofInvalid)))))"

definition verify_and_register_wrong_user ::
    "('s::field, 'p::ab_group_add) backend \<Rightarrow> rng \<Rightarrow> failure + unit" where
  "verify_and_register_wrong_user B rng =
     rbind (make_crs_user B 3) (\<lambda>crs.
     let target_pos = 6 in
     rbind (make_full_set B crs 0xDD target_pos) (\<lambda>(cred, xs).
     rbind (make_valid_proof B rng crs cred xs target_pos 2 VERIFIER_SET_ID)
       (\<lambda>(proof, pseudonym, pub_nul, fname).
     let vs = cache_set (verifier_new 1) VERIFIER_SET_ID xs in
     assert_that ''assert_eq'' (try_register B crs vs pseudonym pub_nul proof VERIFIER_SET_ID fname =
       Inl (Rejected ProofInvalid)))))"

definition verify_and_register_wrong_name ::
    "('s::field, 'p::ab_group_add) backend \<Rightarrow> rng \<Rightarrow> failure + unit" where
  "verify_and_register_wrong_name B rng =
     rbind (make_crs_user B 3) (\<lambda>crs.
     let service_index = 1; target_pos = 3 in
     rbind (make_full_set B crs 0xEE target_pos) (\<lambda>(cred, xs).
     rbind (make_valid_proof B rng crs cred xs target_pos service_index VERIFIER_SET_ID)
       (\<lambda>(proof, pseudonym, pub_nul, _).
     let vs = cache_set (verifier_new service_index) VERIFIER_SET_ID xs in
     assert_that ''assert_eq''
       (try_register B crs vs pseudonym pub_nul proof VERIFIER_SET_ID (ascii ''impostor'') =
        Inl (Rejected NameMismatch)))))"

section \<open>Honest and changed proofs\<close>

lemma verify_total:
  fixes B :: "('s::field, 'p::ab_group_add) backend"
  assumes "wf_generators crs"
  shows "\<exists>v. verify_payment_identity_registration_proof B crs xs l d ps nul p = Inr v"
proof (cases "1 \<le> l \<and> l \<le> num_merchants crs")
  case True
  then show ?thesis
    by (auto simp: verify_payment_identity_registration_proof_def Let_def crs_h_wf [OF assms]
        other_gens_wf [OF assms] split: option.split simp del: One_nat_def)
qed (auto simp: verify_payment_identity_registration_proof_def Let_def)

text \<open>For an accepted proof, other responses are accepted exactly when they have the same sum
  over the generators, so one changed response exactly when its scalar stays the same.\<close>

lemma responses_accepted_iff:
  fixes B :: "('s::field, 'p::ab_group_add) backend"
  assumes wf: "wf_generators crs"
    and ok: "verify_payment_identity_registration_proof B crs xs l d ps nul p = Inr True"
    and len: "length zs = length (pf_z_responses p)"
  shows "verify_payment_identity_registration_proof B crs xs l d ps nul (p\<lparr>pf_z_responses := zs\<rparr>) = Inr True
    \<longleftrightarrow> (\<Sum>i<num_merchants crs + 1. bk_mul B (active_generators crs l ! i) (scalar_from_bytes B (zs ! i))) =
      (\<Sum>i<num_merchants crs + 1. bk_mul B (active_generators crs l ! i)
        (scalar_from_bytes B (pf_z_responses p ! i)))"
proof -
  have "decode_points B (p\<lparr>pf_z_responses := zs\<rparr>) = decode_points B p"
    by (simp add: decode_points_def cong: option.case_cong)
  moreover have "check_nullifier B g s n (p\<lparr>pf_z_responses := zs\<rparr>) = check_nullifier B g s n p" for g s n
    by (simp add: check_nullifier_iff)
  ultimately show ?thesis
    using ok len unfolding verify_iff [OF wf] Let_def by (simp only: pid_proof.simps) auto
qed

lemma tampered_response_accepted:
  fixes B :: "('s::field, 'p::ab_group_add) backend"
  assumes laws: "mul_laws B" and g: "crs_g crs \<noteq> 0" and wf: "wf_generators crs"
    and ok: "verify_payment_identity_registration_proof B crs xs l d ps nul p = Inr True"
  shows "verify_payment_identity_registration_proof B crs xs l d ps nul
      (p\<lparr>pf_z_responses := (pf_z_responses p)[0 := z]\<rparr>) = Inr True
    \<longleftrightarrow> scalar_from_bytes B z = scalar_from_bytes B (pf_z_responses p ! 0)"
proof -
  let ?zs = "pf_z_responses p"
  have len: "length ?zs = num_merchants crs + 1"
    using ok unfolding verify_iff [OF wf] by blast
  have "(\<Sum>i<num_merchants crs + 1. bk_mul B (active_generators crs l ! i) (scalar_from_bytes B (zs ! i))) =
      bk_mul B (crs_g crs) (scalar_from_bytes B (zs ! 0)) +
      (\<Sum>i<num_merchants crs. bk_mul B (active_generators crs l ! Suc i) (scalar_from_bytes B (zs ! Suc i)))"
    for zs
    by (simp add: sum.lessThan_Suc_shift active_generators_def del: sum.lessThan_Suc)
  then show ?thesis
    using len
    by (simp add: responses_accepted_iff [OF wf ok] mul_eq_iff [OF laws g])
qed

text \<open>What \<open>make_valid_proof\<close> returns for the target of a full set.\<close>

definition target_proof ::
    "('s::field, 'p::ab_group_add) backend \<Rightarrow> rng \<Rightarrow> 'p crs \<Rightarrow> u8 \<Rightarrow> nat \<Rightarrow> nat \<Rightarrow> bytes \<Rightarrow>
      pid_proof \<times> bytes \<times> bytes \<times> str" where
  "target_proof B rng crs seed pos l d =
     (let c = user_of B crs seed;
          r = honest_registration B rng crs (full_set_of B crs seed pos) pos l d (mc_k c)
                (all_nullifier_scalars B c crs)
                (derive_payment_request_pseudonym B (mc_r c) (m_name (crs_merchants crs ! (l - 1))) (crs_g crs))
                (mc_friendly_name c)
      in (pr_proof r, pr_pseudonym r, pr_public_nullifier r, mc_friendly_name c))"

lemma make_valid_proof_of:
  fixes B :: "('s::field, 'p::ab_group_add) backend"
  assumes "codec_laws B" "wf_generators crs" and l: "1 \<le> l" "l \<le> num_merchants crs"
  shows "make_valid_proof B rng crs (user_of B crs seed) (full_set_of B crs seed pos) pos l d =
    (if pos < N_of B then Inr (target_proof B rng crs seed pos l d)
     else Inl (Panic ''proof generation should succeed''))"
proof (cases "pos < N_of B")
  case True
  then show ?thesis
    using l prove_honest_message [OF assms(2) length_full_set_of full_set_of_decodes [OF assms(1)] True l]
    by (simp add: make_valid_proof_def Let_def public_nullifier_scalar [OF l] target_proof_def
        honest_registration_def del: One_nat_def)
next
  case False
  then show ?thesis
    using l by (simp add: make_valid_proof_def Let_def public_nullifier_scalar [OF l]
        prove_payment_identity_registration_def del: One_nat_def)
qed

lemma target_proof_accepted:
  fixes B :: "('s::field, 'p::ab_group_add) backend"
  assumes laws: "mul_laws B" "codec_laws B" and wf: "wf_generators crs" and pos: "pos < N_of B"
    and l: "1 \<le> l" "l \<le> num_merchants crs"
    and t: "target_proof B rng crs seed pos l d = (p, ps, nul, fname)"
  shows "verify_payment_identity_registration_proof B crs (full_set_of B crs seed pos) l d ps nul p = Inr True"
    and "pf_name_scalar p = bk_sha256 B fname"
    and "fname = ascii ''user-'' @ show_02x seed"
    and "nul = point_to_bytes B (bk_mul B (crs_g crs) (bytes_to_scalar B
      (all_nullifier_scalars B (user_of B crs seed) crs ! (l - 1))))"
    and "pf_nullifier_scalar p = all_nullifier_scalars B (user_of B crs seed) crs ! (l - 1)"
proof -
  let ?c = "user_of B crs seed"
  have "commit_master_identity B crs (all_nullifier_scalars B ?c crs) (mc_k ?c)
      (to_scalar_bytes B (mc_friendly_name ?c)) = Inr (full_set_of B crs seed pos ! pos)"
    using wf by (simp add: commit_all_nullifiers wf_generators_def full_set_of_target [OF pos] user_of_phi)
  from honest_registration_verifies [OF laws wf length_full_set_of full_set_of_decodes [OF laws(2)] pos l this]
  show "verify_payment_identity_registration_proof B crs (full_set_of B crs seed pos) l d ps nul p = Inr True"
    using t by (auto simp: target_proof_def Let_def verify_payment_identity_registration_def)
  show "pf_name_scalar p = bk_sha256 B fname"
    using t by (auto simp: target_proof_def Let_def to_scalar_bytes_def)
  show "fname = ascii ''user-'' @ show_02x seed"
    using t by (auto simp: target_proof_def Let_def user_of_def)
  show "nul = point_to_bytes B (bk_mul B (crs_g crs) (bytes_to_scalar B
      (all_nullifier_scalars B (user_of B crs seed) crs ! (l - 1))))"
    using t by (auto simp: target_proof_def Let_def)
  show "pf_nullifier_scalar p = all_nullifier_scalars B (user_of B crs seed) crs ! (l - 1)"
    using t by (auto simp: target_proof_def Let_def honest_registration_def honest_message_def prover_message_sel)
qed

section \<open>The registration tests\<close>

definition crs3 :: "('s, 'p) backend \<Rightarrow> 'p crs" where
  "crs3 B = crs_of B ''user-'' 3 (N_of B)"

lemma crs3_fixture: "make_crs_user B 3 = Inr (crs3 B)" "wf_generators (crs3 B)" "num_merchants (crs3 B) = 3"
  by (simp_all add: crs3_def fixture_simps)

lemma N_of_less: "5 < N_of B \<longleftrightarrow> 3 \<le> bk_M B" "6 < N_of B \<longleftrightarrow> 3 \<le> bk_M B" "3 < N_of B \<longleftrightarrow> 2 \<le> bk_M B"
proof -
  have small: "2 ^ m \<le> (4 :: nat)" if "m < 3" for m
    using that by (auto simp: less_Suc_eq numeral_eq_Suc)
  have two: "2 ^ m \<le> (2 :: nat)" if "m < 2" for m
    using that by (auto simp: less_Suc_eq numeral_eq_Suc)
  have big: "8 \<le> (2 :: nat) ^ m" if "3 \<le> m" for m
    using power_increasing [OF that, of "2 :: nat"] by simp
  have four: "4 \<le> (2 :: nat) ^ m" if "2 \<le> m" for m
    using power_increasing [OF that, of "2 :: nat"] by simp
  show "5 < N_of B \<longleftrightarrow> 3 \<le> bk_M B" "6 < N_of B \<longleftrightarrow> 3 \<le> bk_M B" "3 < N_of B \<longleftrightarrow> 2 \<le> bk_M B"
    using small [of "bk_M B"] big [of "bk_M B"] two [of "bk_M B"] four [of "bk_M B"]
    by (simp_all add: N_of_pow, linarith+)
qed

lemma register_valid:
  assumes "vs_set_cache vs d = Some xs" "vs_user_index vs = l"
    and "verify_payment_identity_registration_proof B crs xs l d ps nul p = Inr True"
    and "pf_name_scalar p = bk_sha256 B fname" "nul \<notin> vs_nullifiers vs" "ps \<notin> vs_pseudonyms vs"
  shows "\<exists>vs' r. try_register B crs vs ps nul p d fname = Inr (vs', r) \<and>
    rr_pseudonym r = ps \<and> rr_public_nullifier r = nul \<and> rr_friendly_name r = fname \<and>
    vs_nullifiers vs' = insert nul (vs_nullifiers vs) \<and> vs_pseudonyms vs' = insert ps (vs_pseudonyms vs) \<and>
    vs_set_cache vs' = vs_set_cache vs \<and> vs_user_index vs' = vs_user_index vs"
proof -
  define s where "s = \<lparr>sb_pseudonym = ps, sb_nullifier = nul, sb_proof = p, sb_set_id = d, sb_friendly_name = fname\<rparr>"
  have "submission_valid B crs vs s"
    using assms(1-4) by (simp add: submission_valid_def s_def verify_name_revelation_def)
  then have "verify_and_register B crs vs s = Inr (record_submission vs s, submission_result s)"
    using assms(5,6) by (simp add: verify_and_register_Inr s_def)
  then show ?thesis
    by (simp add: try_register_def record_submission_def submission_result_def s_def)
qed

lemma cached_verifier [simp]:
  "vs_set_cache (cache_set (verifier_new l) d xs) d = Some xs"
  "vs_user_index (cache_set (verifier_new l) d xs) = l"
  "vs_nullifiers (cache_set (verifier_new l) d xs) = {}"
  "vs_pseudonyms (cache_set (verifier_new l) d xs) = {}"
  by (simp_all add: cache_set_def verifier_new_def)

lemma make_target_proof:
  fixes B :: "('s::field, 'p::ab_group_add) backend"
  assumes "codec_laws B" "l \<in> {1, 2, 3}"
  shows "make_valid_proof B rng (crs3 B) (user_of B (crs3 B) seed) (full_set_of B (crs3 B) seed pos) pos l d =
    (if pos < N_of B then Inr (target_proof B rng (crs3 B) seed pos l d)
     else Inl (Panic ''proof generation should succeed''))"
  using assms by (intro make_valid_proof_of) (auto simp: crs3_fixture)

lemma full_flow_test:
  fixes B :: "('s::field, 'p::ab_group_add) backend"
  assumes laws: "mul_laws B" "codec_laws B"
  shows "verify_and_register_full_flow B rng =
      (if 3 \<le> bk_M B then Inr () else Inl (Panic ''proof generation should succeed''))"
    and "verify_and_register_rejects_replay B rng =
      (if 3 \<le> bk_M B then Inr () else Inl (Panic ''proof generation should succeed''))"
proof -
  obtain p ps nul fname where t: "target_proof B rng (crs3 B) 0xAA 5 2 VERIFIER_SET_ID = (p, ps, nul, fname)"
    by (cases "target_proof B rng (crs3 B) 0xAA 5 2 VERIFIER_SET_ID") auto
  define xs where "xs = full_set_of B (crs3 B) 0xAA 5"
  define vs where "vs = cache_set (verifier_new 2) VERIFIER_SET_ID xs"
  have made: "make_valid_proof B rng (crs3 B) (user_of B (crs3 B) 0xAA) xs 5 2 VERIFIER_SET_ID =
      (if 3 \<le> bk_M B then Inr (p, ps, nul, fname) else Inl (Panic ''proof generation should succeed''))"
    using make_target_proof [OF laws(2), of 2] by (simp add: xs_def N_of_less t)
  note fixture = crs3_fixture make_full_set_of [OF crs3_fixture(2)] made
  have run: "\<exists>vs' r. try_register B (crs3 B) vs ps nul p VERIFIER_SET_ID fname = Inr (vs', r) \<and>
      rr_pseudonym r = ps \<and> rr_public_nullifier r = nul \<and> rr_friendly_name r = fname \<and>
      vs_nullifiers vs' = {nul} \<and> vs_pseudonyms vs' = {ps} \<and>
      try_register B (crs3 B) vs' ps nul p VERIFIER_SET_ID fname = Inl (Rejected NullifierAlreadyUsed)"
    if M: "3 \<le> bk_M B"
  proof -
    have "5 < N_of B" using M by (simp add: N_of_less)
    note valid = target_proof_accepted [OF laws crs3_fixture(2) this _ _ t]
    have ok: "verify_payment_identity_registration_proof B (crs3 B) xs 2 VERIFIER_SET_ID ps nul p = Inr True"
      "pf_name_scalar p = bk_sha256 B fname"
      unfolding xs_def using valid(1,2) by (simp_all add: crs3_fixture)
    obtain vs' r where r: "try_register B (crs3 B) vs ps nul p VERIFIER_SET_ID fname = Inr (vs', r)"
      "rr_pseudonym r = ps" "rr_public_nullifier r = nul" "rr_friendly_name r = fname"
      "vs_nullifiers vs' = {nul}" "vs_pseudonyms vs' = {ps}"
      "vs_set_cache vs' VERIFIER_SET_ID = Some xs" "vs_user_index vs' = 2"
      using register_valid [OF _ _ ok, of vs] by (auto simp: vs_def)
    have "try_register B (crs3 B) vs' ps nul p VERIFIER_SET_ID fname = Inl (Rejected NullifierAlreadyUsed)"
      unfolding try_register_def
      by (rule used_nullifier_rejected) (simp_all add: submission_valid_def r ok verify_name_revelation_def)
    with r show ?thesis by blast
  qed
  show "verify_and_register_full_flow B rng =
      (if 3 \<le> bk_M B then Inr () else Inl (Panic ''proof generation should succeed''))"
    using run
    by (auto simp: verify_and_register_full_flow_def fixture Let_def registered_count_def has_nullifier_def
        has_pseudonym_def simp flip: xs_def vs_def)
  show "verify_and_register_rejects_replay B rng =
      (if 3 \<le> bk_M B then Inr () else Inl (Panic ''proof generation should succeed''))"
    using run
    by (auto simp: verify_and_register_rejects_replay_def fixture Let_def simp flip: xs_def vs_def)
qed

lemma set_not_found_test:
  fixes B :: "('s::field, 'p::ab_group_add) backend"
  assumes "codec_laws B"
  shows "verify_and_register_set_not_found B rng =
    (if 2 \<le> bk_M B then Inr () else Inl (Panic ''proof generation should succeed''))"
  by (simp add: verify_and_register_set_not_found_def crs3_fixture make_full_set_of [OF crs3_fixture(2)]
      make_target_proof [OF assms] N_of_less try_register_def verify_and_register_def verifier_new_def
      split: prod.splits del: One_nat_def)

text \<open>With another name the proof is accepted and the name refused, if SHA-256 tells the two names
  apart; a flipped byte of the first response is refused if it changes the scalar.\<close>

lemma refusal_tests:
  fixes B :: "('s::field, 'p::ab_group_add) backend" and rng :: rng
  assumes laws: "mul_laws B" "codec_laws B" and M: "2 \<le> bk_M B"
  shows "verify_and_register_wrong_name B rng = Inr () \<longleftrightarrow>
      bk_sha256 B (ascii ''impostor'') \<noteq> bk_sha256 B (ascii ''user-'' @ show_02x 0xEE)"
    and "crs_g (crs3 B) \<noteq> 0 \<Longrightarrow> verify_and_register_invalid_proof B rng = Inr () \<longleftrightarrow>
      (let z = pf_z_responses (fst (target_proof B rng (crs3 B) 0xCC 3 1 VERIFIER_SET_ID)) ! 0
       in bytes_to_scalar B (z[0 := xor (z ! 0) 0xFF]) \<noteq> bytes_to_scalar B z)"
proof -
  have pos: "3 < N_of B" using M by (simp add: N_of_less)
  have l: "(1 :: nat) \<le> 1" "1 \<le> num_merchants (crs3 B)" by (simp_all add: crs3_fixture)
  obtain p ps nul fname where t: "target_proof B rng (crs3 B) 0xEE 3 1 VERIFIER_SET_ID = (p, ps, nul, fname)"
    by (cases "target_proof B rng (crs3 B) 0xEE 3 1 VERIFIER_SET_ID") auto
  note valid = target_proof_accepted [OF laws crs3_fixture(2) pos l t]
  show "verify_and_register_wrong_name B rng = Inr () \<longleftrightarrow>
      bk_sha256 B (ascii ''impostor'') \<noteq> bk_sha256 B (ascii ''user-'' @ show_02x 0xEE)"
    using valid(1,2,3) make_target_proof [OF laws(2), where l = 1 and seed = "0xEE" and pos = 3 and d = VERIFIER_SET_ID] pos
    by (simp add: verify_and_register_wrong_name_def crs3_fixture make_full_set_of [OF crs3_fixture(2)] t
        try_register_def verify_and_register_def verify_name_revelation_def check_freshness_def Let_def
        del: One_nat_def)
next
  assume g: "crs_g (crs3 B) \<noteq> 0"
  have pos: "3 < N_of B" using M by (simp add: N_of_less)
  have l: "(1 :: nat) \<le> 1" "1 \<le> num_merchants (crs3 B)" by (simp_all add: crs3_fixture)
  obtain p ps nul fname where t: "target_proof B rng (crs3 B) 0xCC 3 1 VERIFIER_SET_ID = (p, ps, nul, fname)"
    by (cases "target_proof B rng (crs3 B) 0xCC 3 1 VERIFIER_SET_ID") auto
  note valid = target_proof_accepted [OF laws crs3_fixture(2) pos l t]
  define xs where "xs = full_set_of B (crs3 B) 0xCC 3"
  define q where "q = p\<lparr>pf_z_responses := (pf_z_responses p)[0 := (pf_z_responses p ! 0)
    [0 := xor (pf_z_responses p ! 0 ! 0) 0xFF]]\<rparr>"
  have name: "pf_name_scalar q = bk_sha256 B fname"
    using valid(2) by (simp add: q_def)
  have iff: "verify_payment_identity_registration_proof B (crs3 B) xs 1 VERIFIER_SET_ID ps nul q = Inr True \<longleftrightarrow>
      bytes_to_scalar B ((pf_z_responses p ! 0)[0 := xor (pf_z_responses p ! 0 ! 0) 0xFF]) =
      bytes_to_scalar B (pf_z_responses p ! 0)"
    using tampered_response_accepted [OF laws(1) g crs3_fixture(2) valid(1)]
    by (simp add: q_def xs_def scalar_from_bytes_def)
  obtain v where v: "verify_payment_identity_registration_proof B (crs3 B) xs 1 VERIFIER_SET_ID ps nul q = Inr v"
    using verify_total [OF crs3_fixture(2)] by blast
  have "verify_and_register_invalid_proof B rng = Inr () \<longleftrightarrow> \<not> v"
    using make_target_proof [OF laws(2), where l = 1 and seed = "0xCC" and pos = 3 and d = VERIFIER_SET_ID] pos v name
    by (simp add: verify_and_register_invalid_proof_def crs3_fixture make_full_set_of [OF crs3_fixture(2)] t
        try_register_def verify_and_register_def verify_name_revelation_def check_freshness_def Let_def
        del: One_nat_def flip: xs_def q_def)
  then show "verify_and_register_invalid_proof B rng = Inr () \<longleftrightarrow>
      (let z = pf_z_responses (fst (target_proof B rng (crs3 B) 0xCC 3 1 VERIFIER_SET_ID)) ! 0
       in bytes_to_scalar B (z[0 := xor (z ! 0) 0xFF]) \<noteq> bytes_to_scalar B z)"
    using v iff by (simp add: t Let_def del: One_nat_def)
qed

lemma wrong_user_test_panics:
  fixes B :: "('s::field, 'p::ab_group_add) backend"
  assumes "codec_laws B" "bk_M B < 3"
  shows "verify_and_register_wrong_user B rng = Inl (Panic ''proof generation should succeed'')"
  using assms(2) N_of_less(2) [of B]
  by (simp add: verify_and_register_wrong_user_def crs3_fixture make_full_set_of [OF crs3_fixture(2)]
      make_target_proof [OF assms(1)] Let_def)

section \<open>payment_identity.rs\<close>

definition PID_SET_ID :: bytes where "PID_SET_ID = fill32 0"

text \<open>The statements with which each of these tests makes its proof.\<close>

definition make_pid_proof ::
    "string \<Rightarrow> ('s::field, 'p::ab_group_add) backend \<Rightarrow> rng \<Rightarrow> 'p crs \<Rightarrow> credential \<Rightarrow> bytes list \<Rightarrow> nat \<Rightarrow> nat \<Rightarrow>
      failure + pid_proof \<times> bytes \<times> bytes" where
  "make_pid_proof msg B rng crs cred xs target_pos user_index =
     (let all_nullifiers = all_nullifier_scalars B cred crs in
      if user_index < 1 \<or> num_merchants crs < user_index then Inl (Panic ''index out of bounds'')
      else
        (let pseudonym = derive_payment_request_pseudonym B (mc_r cred)
               (m_name (crs_merchants crs ! (user_index - 1))) (crs_g crs) in
         rbind (public_nullifier B cred crs user_index) (\<lambda>pub_nul.
         rbind (expect msg (prove_payment_identity_registration B rng crs xs target_pos user_index PID_SET_ID
                  (mc_k cred) all_nullifiers pseudonym pub_nul (to_scalar_bytes B (mc_friendly_name cred))))
           (\<lambda>proof. Inr (proof, pseudonym, pub_nul)))))"

definition UNWRAP :: string where "UNWRAP = ''called Result::unwrap() on an Err value''"

definition prove_and_verify :: "('s::field, 'p::ab_group_add) backend \<Rightarrow> rng \<Rightarrow> failure + unit" where
  "prove_and_verify B rng =
     rbind (make_crs_user B 3) (\<lambda>crs.
     let target_pos = 5 in
     rbind (make_full_set B crs 0xAA target_pos) (\<lambda>(cred, xs).
     let user_index = 2 in
     rbind (make_pid_proof ''proof generation should succeed'' B rng crs cred xs target_pos user_index)
       (\<lambda>(proof, pseudonym, pub_nul).
     rbind (verify_payment_identity_registration_proof B crs xs user_index PID_SET_ID pseudonym pub_nul proof)
       (\<lambda>ok. assert_that ''valid proof should verify'' ok))))"

definition wrong_nullifier_scalar_fails :: "('s::field, 'p::ab_group_add) backend \<Rightarrow> rng \<Rightarrow> failure + unit" where
  "wrong_nullifier_scalar_fails B rng =
     rbind (make_crs_user B 3) (\<lambda>crs. rbind (make_full_set B crs 0xBB 3) (\<lambda>(cred, xs).
     let user_index = 1 in
     rbind (make_pid_proof UNWRAP B rng crs cred xs 3 user_index) (\<lambda>(proof, pseudonym, pub_nul).
     let tampered_proof = proof\<lparr>pf_nullifier_scalar := fill32 0xFF\<rparr>;
         wrong_pub = derive_public_nullifier B (fill32 0xFF) (m_name (crs_merchants crs ! 0)) (crs_g crs) in
     rbind (verify_payment_identity_registration_proof B crs xs user_index PID_SET_ID pseudonym wrong_pub
              tampered_proof) (\<lambda>ok. assert_that ''assert'' (\<not> ok)))))"

definition wrong_service_index_fails :: "('s::field, 'p::ab_group_add) backend \<Rightarrow> rng \<Rightarrow> failure + unit" where
  "wrong_service_index_fails B rng =
     rbind (make_crs_user B 3) (\<lambda>crs. rbind (make_full_set B crs 0xCC 4) (\<lambda>(cred, xs).
     let user_index = 1 in
     rbind (make_pid_proof UNWRAP B rng crs cred xs 4 user_index) (\<lambda>(proof, pseudonym, pub_nul).
     let other_service = 2 in
     rbind (public_nullifier B cred crs other_service) (\<lambda>other_pub_nul.
     rbind (verify_payment_identity_registration_proof B crs xs other_service PID_SET_ID pseudonym other_pub_nul
              proof) (\<lambda>ok. assert_that ''assert'' (\<not> ok))))))"

definition tampered_proof_fails :: "('s::field, 'p::ab_group_add) backend \<Rightarrow> rng \<Rightarrow> failure + unit" where
  "tampered_proof_fails B rng =
     rbind (make_crs_user B 2) (\<lambda>crs. rbind (make_full_set B crs 0xDD 6) (\<lambda>(cred, xs).
     let user_index = 1 in
     rbind (make_pid_proof UNWRAP B rng crs cred xs 6 user_index) (\<lambda>(proof, pseudonym, pub_nul).
     let z0 = pf_z_responses proof ! 0;
         proof = proof\<lparr>pf_z_responses := (pf_z_responses proof)[0 := z0[0 := xor (z0 ! 0) 0xFF]]\<rparr> in
     rbind (verify_payment_identity_registration_proof B crs xs user_index PID_SET_ID pseudonym pub_nul proof)
       (\<lambda>ok. assert_that ''assert'' (\<not> ok)))))"

definition proof_size_matches :: "('s::field, 'p::ab_group_add) backend \<Rightarrow> rng \<Rightarrow> failure + unit" where
  "proof_size_matches B rng =
     (let l_count = 4 in
      rbind (make_crs_user B l_count) (\<lambda>crs. rbind (make_full_set B crs 0xEE 0) (\<lambda>(cred, xs).
      let user_index = 1 in
      rbind (make_pid_proof UNWRAP B rng crs cred xs 0 user_index) (\<lambda>(proof, pseudonym, pub_nul).
      let expected = PROOF_BASE_SIZE (bk_M B) + (l_count + 1) * 32;
          actual = 4 * 33 + bk_M B * 33 + bk_M B * 32 + 2 * 32 + length (pf_z_responses proof) * 32
            + 33 + 32 + 32 + 32 in
      rbind (assert_that ''assert_eq'' (actual = expected)) (\<lambda>_.
      assert_that ''assert_eq'' (length (pf_z_responses proof) = l_count + 1))))))"

lemma make_pid_proof_of:
  fixes B :: "('s::field, 'p::ab_group_add) backend"
  assumes "codec_laws B" "wf_generators crs" "1 \<le> l" "l \<le> num_merchants crs"
  shows "make_pid_proof msg B rng crs (user_of B crs seed) (full_set_of B crs seed pos) pos l =
    (if pos < N_of B then (case target_proof B rng crs seed pos l PID_SET_ID of (p, ps, nul, _) \<Rightarrow> Inr (p, ps, nul))
     else Inl (Panic msg))"
  using make_valid_proof_of [OF assms, of rng seed pos PID_SET_ID] assms(3,4)
  by (cases "prove_payment_identity_registration B rng crs (full_set_of B crs seed pos) pos l PID_SET_ID
        (mc_k (user_of B crs seed)) (all_nullifier_scalars B (user_of B crs seed) crs)
        (derive_payment_request_pseudonym B (mc_r (user_of B crs seed)) (m_name (crs_merchants crs ! (l - 1))) (crs_g crs))
        (point_to_bytes B (bk_mul B (crs_g crs) (bytes_to_scalar B (all_nullifier_scalars B (user_of B crs seed) crs ! (l - 1)))))
        (to_scalar_bytes B (mc_friendly_name (user_of B crs seed)))")
    (auto simp: make_valid_proof_def make_pid_proof_def Let_def public_nullifier_scalar [OF assms(3,4)]
      split: if_splits prod.splits simp del: One_nat_def)

definition user_crs :: "('s, 'p) backend \<Rightarrow> nat \<Rightarrow> 'p crs" where
  "user_crs B n = crs_of B ''user-'' n (N_of B)"

lemma user_crs_fixture:
  "n \<le> 100 \<Longrightarrow> make_crs_user B n = Inr (user_crs B n)" "wf_generators (user_crs B n)"
  "num_merchants (user_crs B n) = n" "crs_g (user_crs B n) = test_crs_g B"
  "i < n \<Longrightarrow> m_name (crs_merchants (user_crs B n) ! i) = ascii ''user-'' @ show_nat i"
  by (simp_all add: user_crs_def fixture_simps crs_of_merchant test_crs_g_def CRS_DST_def)

lemma make_full_set_user: "make_full_set B (user_crs B n) seed pos =
    Inr (user_of B (user_crs B n) seed, full_set_of B (user_crs B n) seed pos)"
  by (rule make_full_set_of [OF user_crs_fixture(2)])

lemma prove_and_verify_test:
  fixes B :: "('s::field, 'p::ab_group_add) backend"
  assumes laws: "mul_laws B" "codec_laws B"
  shows "prove_and_verify B rng =
    (if 3 \<le> bk_M B then Inr () else Inl (Panic ''proof generation should succeed''))"
proof -
  obtain p ps nul fname where t: "target_proof B rng (user_crs B 3) 0xAA 5 2 PID_SET_ID = (p, ps, nul, fname)"
    by (cases "target_proof B rng (user_crs B 3) 0xAA 5 2 PID_SET_ID") auto
  have l: "(1 :: nat) \<le> 2" "2 \<le> num_merchants (user_crs B 3)"
    by (simp_all add: user_crs_fixture)
  show ?thesis
    using target_proof_accepted(1) [OF laws user_crs_fixture(2) _ l t] N_of_less(1) [of B]
    by (simp add: prove_and_verify_def user_crs_fixture make_full_set_user Let_def
        make_pid_proof_of [OF laws(2) user_crs_fixture(2) l] t)
qed

lemma proof_size_test:
  fixes B :: "('s::field, 'p::ab_group_add) backend"
  assumes laws: "mul_laws B" "codec_laws B"
  shows "proof_size_matches B rng = Inr ()"
proof -
  obtain p ps nul fname where t: "target_proof B rng (user_crs B 4) 0xEE 0 1 PID_SET_ID = (p, ps, nul, fname)"
    by (cases "target_proof B rng (user_crs B 4) 0xEE 0 1 PID_SET_ID") auto
  have l: "(1 :: nat) \<le> 1" "1 \<le> num_merchants (user_crs B 4)" and pos: "0 < N_of B"
    by (simp_all add: user_crs_fixture N_of_pow)
  have "length (pf_z_responses p) = num_merchants (user_crs B 4) + 1"
    using target_proof_accepted(1) [OF laws user_crs_fixture(2) pos l t]
    unfolding verify_iff [OF user_crs_fixture(2)] by blast
  then show ?thesis
    using pos
    by (simp add: proof_size_matches_def user_crs_fixture make_full_set_user Let_def PROOF_BASE_SIZE_def
        make_pid_proof_of [OF laws(2) user_crs_fixture(2) l] t del: One_nat_def)
qed

lemma tampered_proof_test:
  fixes B :: "('s::field, 'p::ab_group_add) backend" and rng :: rng
  assumes laws: "mul_laws B" "codec_laws B" and g: "test_crs_g B \<noteq> 0" and M: "3 \<le> bk_M B"
  shows "tampered_proof_fails B rng = Inr () \<longleftrightarrow>
    (let z = pf_z_responses (fst (target_proof B rng (user_crs B 2) 0xDD 6 1 PID_SET_ID)) ! 0
     in bytes_to_scalar B (z[0 := xor (z ! 0) 0xFF]) \<noteq> bytes_to_scalar B z)"
proof -
  obtain p ps nul fname where t: "target_proof B rng (user_crs B 2) 0xDD 6 1 PID_SET_ID = (p, ps, nul, fname)"
    by (cases "target_proof B rng (user_crs B 2) 0xDD 6 1 PID_SET_ID") auto
  have l: "(1 :: nat) \<le> 1" "1 \<le> num_merchants (user_crs B 2)" and pos: "6 < N_of B"
    using M by (simp_all add: user_crs_fixture N_of_less)
  note valid = target_proof_accepted [OF laws user_crs_fixture(2) pos l t]
  have g': "crs_g (user_crs B 2) \<noteq> 0"
    using g by (simp add: user_crs_fixture)
  define q where "q = p\<lparr>pf_z_responses := (pf_z_responses p)[0 := (pf_z_responses p ! 0)
    [0 := xor (pf_z_responses p ! 0 ! 0) 0xFF]]\<rparr>"
  define xs where "xs = full_set_of B (user_crs B 2) 0xDD 6"
  obtain v where v: "verify_payment_identity_registration_proof B (user_crs B 2) xs 1 PID_SET_ID ps nul q = Inr v"
    using verify_total [OF user_crs_fixture(2)] by blast
  have "v \<longleftrightarrow> bytes_to_scalar B ((pf_z_responses p ! 0)[0 := xor (pf_z_responses p ! 0 ! 0) 0xFF]) =
      bytes_to_scalar B (pf_z_responses p ! 0)"
    using tampered_response_accepted [OF laws(1) g' user_crs_fixture(2) valid(1), where
        z = "(pf_z_responses p ! 0)[0 := xor (pf_z_responses p ! 0 ! 0) 0xFF]"] v
    by (simp add: q_def xs_def scalar_from_bytes_def)
  moreover have "tampered_proof_fails B rng = assert_that ''assert'' (\<not> v)"
    using make_pid_proof_of [OF laws(2) user_crs_fixture(2) l, of UNWRAP rng "0xDD" 6] pos t v
    by (simp add: tampered_proof_fails_def user_crs_fixture make_full_set_user Let_def del: One_nat_def
        flip: q_def xs_def)
  ultimately show ?thesis
    by (simp add: t Let_def del: One_nat_def)
qed

text \<open>A proof whose nullifier scalar and public nullifier do not belong together is refused by
  check 4, whatever the rest of it is.\<close>

lemma foreign_nullifier_refused:
  fixes B :: "('s::field, 'p::ab_group_add) backend"
  assumes wf: "wf_generators crs"
    and "nul \<noteq> point_to_bytes B (bk_mul B (crs_g crs) (bytes_to_scalar B (pf_nullifier_scalar p)))"
  shows "verify_payment_identity_registration_proof B crs xs l d ps nul p = Inr False"
proof -
  obtain v where v: "verify_payment_identity_registration_proof B crs xs l d ps nul p = Inr v"
    using verify_total [OF wf] by blast
  have "\<not> v"
    using v verify_iff [OF wf, of B xs l d ps nul p] assms(2)
    by (auto simp: check_nullifier_iff Let_def)
  with v show ?thesis by simp
qed

lemma wrong_nullifier_scalar_test:
  fixes B :: "('s::field, 'p::ab_group_add) backend"
  assumes laws: "mul_laws B" "codec_laws B" and g: "test_crs_g B \<noteq> 0" and M: "2 \<le> bk_M B"
    and "kdf_scalar B (nullifier_input (fill32 0xFF) (ascii ''user-0'')) \<noteq> bytes_to_scalar B (fill32 0xFF)"
  shows "wrong_nullifier_scalar_fails B rng = Inr ()"
proof -
  obtain p ps nul fname where t: "target_proof B rng (user_crs B 3) 0xBB 3 1 PID_SET_ID = (p, ps, nul, fname)"
    by (cases "target_proof B rng (user_crs B 3) 0xBB 3 1 PID_SET_ID") auto
  have l: "(1 :: nat) \<le> 1" "1 \<le> num_merchants (user_crs B 3)" and pos: "3 < N_of B"
    using M by (simp_all add: user_crs_fixture N_of_less)
  have name: "m_name (crs_merchants (user_crs B 3) ! 0) = ascii ''user-0''"
    by (subst user_crs_fixture(5)) (simp_all add: show_nat.simps [of 0], simp add: ascii_def)
  show ?thesis
    using make_pid_proof_of [OF laws(2) user_crs_fixture(2) l, of UNWRAP rng "0xBB" 3] pos t assms(5)
    by (simp add: wrong_nullifier_scalar_fails_def user_crs_fixture(1-4) make_full_set_user Let_def name
        foreign_nullifier_refused [OF user_crs_fixture(2)] derive_public_nullifier_point
        point_to_bytes_inj [OF laws(2)] mul_eq_iff [OF laws(1) g] scalar_of_nullifier del: One_nat_def)
qed

lemma wrong_service_index_test:
  fixes B :: "('s::field, 'p::ab_group_add) backend"
  assumes laws: "mul_laws B" "codec_laws B" and g: "test_crs_g B \<noteq> 0" and M: "3 \<le> bk_M B"
    and sep: "kdf_separates B (nullifier_input (fill32 0xCC) ` {ascii ''user-'' @ show_nat 0, ascii ''user-'' @ show_nat 1})"
  shows "wrong_service_index_fails B rng = Inr ()"
proof -
  obtain p ps nul fname where t: "target_proof B rng (user_crs B 3) 0xCC 4 1 PID_SET_ID = (p, ps, nul, fname)"
    by (cases "target_proof B rng (user_crs B 3) 0xCC 4 1 PID_SET_ID") auto
  have l: "(1 :: nat) \<le> 1" "1 \<le> num_merchants (user_crs B 3)" and pos: "4 < N_of B"
    using M N_of_less(1) [of B] by (simp_all add: user_crs_fixture)
  note valid = target_proof_accepted [OF laws user_crs_fixture(2) pos l t]
  have scalar: "bytes_to_scalar B (all_nullifier_scalars B (user_of B (user_crs B 3) 0xCC) (user_crs B 3) ! i) =
      kdf_scalar B (nullifier_input (fill32 0xCC) (ascii ''user-'' @ show_nat i))" if "i < 3" for i
    using that by (simp add: all_nullifier_scalars_def nth_crs_names user_crs_fixture scalar_of_nullifier user_of_def)
  have "kdf_scalar B (nullifier_input (fill32 0xCC) (ascii ''user-'' @ show_nat 0)) \<noteq>
      kdf_scalar B (nullifier_input (fill32 0xCC) (ascii ''user-'' @ show_nat 1))"
    by (rule kdf_scalar_neq [OF sep]) (simp_all add: show_nat_inj del: One_nat_def)
  moreover have "public_nullifier B (user_of B (user_crs B 3) 0xCC) (user_crs B 3) 2 = Inr (point_to_bytes B
      (bk_mul B (test_crs_g B) (kdf_scalar B (nullifier_input (fill32 0xCC) (ascii ''user-'' @ show_nat 1)))))"
    using scalar [of 1] by (subst public_nullifier_scalar) (simp_all add: user_crs_fixture)
  ultimately show ?thesis
    using make_pid_proof_of [OF laws(2) user_crs_fixture(2) l, of UNWRAP rng "0xCC" 4] pos t valid(5) scalar [of 0]
    by (simp add: wrong_service_index_fails_def user_crs_fixture(1-4) make_full_set_user Let_def
        foreign_nullifier_refused [OF user_crs_fixture(2)] point_to_bytes_inj [OF laws(2)]
        mul_eq_iff [OF laws(1) g] del: One_nat_def)
qed

section \<open>credential.rs: Phase 3\<close>

definition make_filler :: "('s, 'p::ab_group_add) backend \<Rightarrow> 'p crs \<Rightarrow> nat \<Rightarrow> failure + bytes" where
  "make_filler B crs i =
     (let sk = fill32 (word_of_nat i); r = fill32 (word_of_nat (i + 1)); k = fill32 (word_of_nat (i + 7)) in
      rbind (friendly_name_new (ascii ''filler-'' @ show_nat i)) (\<lambda>name.
      rbind (credential_create B crs sk r k name) (\<lambda>cred. Inr (mc_phi cred))))"

definition full_phase_3_flow :: "('s::field, 'p::ab_group_add) backend \<Rightarrow> rng \<Rightarrow> failure + unit" where
  "full_phase_3_flow B rng =
     rbind (make_crs_service B 3) (\<lambda>crs.
     rbind (make_beneficiary B crs 0xBB (ascii ''my-user'')) (\<lambda>ben.
     rbind (collect_res (make_filler B crs) [0..<7]) (\<lambda>others.
     rbind (vec_insert 5 (mc_phi (bn_credential ben)) others) (\<lambda>anonymity_set.
     rbind (assert_that ''assert_eq'' (length anonymity_set = 8)) (\<lambda>_.
     rbind (unwrap (beneficiary_register ben (fill32 42) anonymity_set)) (\<lambda>ben.
     rbind (assert_that ''assert_eq'' (bn_set_id ben = Some (fill32 42))) (\<lambda>_.
     rbind (unwrap (create_payment_registration B rng ben crs 2)) (\<lambda>(_, service_reg).
     rbind (assert_that ''assert_eq'' (pr_service_index service_reg = 2)) (\<lambda>_.
     rbind (assert_that ''assert_eq'' (pr_set_id service_reg = fill32 42)) (\<lambda>_.
     rbind (assert_that ''assert'' (sec1_prefix (pr_pseudonym service_reg))) (\<lambda>_.
     rbind (assert_that ''assert'' (sec1_prefix (pr_public_nullifier service_reg))) (\<lambda>_.
     rbind (verify_payment_identity_registration B crs anonymity_set service_reg) (\<lambda>valid.
     rbind (assert_that ''assert'' valid) (\<lambda>_.
     let replayed = service_reg\<lparr>pr_service_index := 1\<rparr> in
     rbind (verify_payment_identity_registration B crs anonymity_set replayed) (\<lambda>valid1.
     rbind (assert_that ''assert'' (\<not> valid1)) (\<lambda>_.
     let replayed = replayed\<lparr>pr_service_index := 2, pr_set_id := fill32 0xFF\<rparr> in
     rbind (verify_payment_identity_registration B crs anonymity_set replayed) (\<lambda>valid2.
     assert_that ''assert'' (\<not> valid2))))))))))))))))))"

text \<open>The test fixes a set of eight members: it can pass for \<open>N = 8\<close> only.\<close>

lemma create_registration_set_size:
  assumes "create_payment_registration B rng b crs l = Inr out" "bn_anonymity_set b = Some xs"
  shows "length xs = N_of B"
  using assms
  by (auto simp: create_payment_registration_def Let_def rbind_Inr_iff
      prove_payment_identity_registration_def split: if_splits)

lemma full_phase_3_needs_eight:
  assumes "full_phase_3_flow B rng = Inr ()"
  shows "N_of B = 8"
proof -
  obtain ben xs ben' crs out where xs: "length xs = 8"
    and reg: "beneficiary_register ben (fill32 42) xs = Inr ben'"
    and create: "create_payment_registration B rng ben' crs 2 = Inr out"
    using assms unfolding full_phase_3_flow_def Let_def
    by (elim rbind_InrE) (auto elim!: rbind_InrE)
  have "bn_anonymity_set ben' = Some xs"
    using reg by (auto simp: beneficiary_register_def rbind_Inr_iff)
  from create_registration_set_size [OF create this] xs show ?thesis by simp
qed

definition filler_of :: "('s, 'p::ab_group_add) backend \<Rightarrow> 'p crs \<Rightarrow> nat \<Rightarrow> credential" where
  "filler_of B crs i = credential_of B crs (fill32 (word_of_nat i)) (fill32 (word_of_nat (i + 1)))
     (fill32 (word_of_nat (i + 7))) (ascii ''filler-'' @ show_nat i)"

lemma make_filler_of:
  assumes "wf_generators crs" "i < 100"
  shows "make_filler B crs i = Inr (mc_phi (filler_of B crs i))"
proof -
  have "friendly_name_new (ascii ''filler-'' @ show_nat i) = Inr (ascii ''filler-'' @ show_nat i)"
    using length_show_nat [of i] assms(2) by simp
  then show ?thesis
    by (simp only: make_filler_def Let_def rbind_simps credential_create_of [OF assms(1)] filler_of_def)
qed

text \<open>With eight members and a fresh target, the test passes exactly when the verifier refuses the
  registration replayed at service 1 and the one with another set id.\<close>

lemma full_phase_3_flow_test:
  fixes B :: "('s::field, 'p::ab_group_add) backend" and rng :: rng
  defines "crs \<equiv> crs_of B ''service-'' 3 (N_of B)"
  defines "c \<equiv> seeded B crs 0xBB (ascii ''my-user'')"
  defines "filler \<equiv> \<lambda>i. mc_phi (filler_of B crs i)"
  defines "xs \<equiv> [filler 0, filler 1, filler 2, filler 3, filler 4, mc_phi c, filler 5, filler 6]"
  defines "reg \<equiv> honest_registration B rng crs xs 5 2 (fill32 42) (mc_k c) (all_nullifier_scalars B c crs)
    (derive_payment_request_pseudonym B (mc_r c) (m_name (crs_merchants crs ! (2 - 1))) (crs_g crs)) (mc_friendly_name c)"
  assumes laws: "mul_laws B" "codec_laws B" and N: "N_of B = 8"
    and fresh: "mc_phi c \<notin> filler ` {0, 1, 2, 3, 4}"
    and sec1: "sec1_prefix (pr_pseudonym reg)" "sec1_prefix (pr_public_nullifier reg)"
  shows "full_phase_3_flow B rng = Inr () \<longleftrightarrow>
    verify_payment_identity_registration B crs xs (reg\<lparr>pr_service_index := 1\<rparr>) = Inr False \<and>
    verify_payment_identity_registration B crs xs (reg\<lparr>pr_set_id := fill32 0xFF\<rparr>) = Inr False"
proof -
  let ?ben = "member_of B crs 0xBB (ascii ''my-user'')"
  have wf: "wf_generators crs" "num_merchants crs = 3" by (simp_all add: crs_def)
  have l: "(1 :: nat) \<le> 2" "2 \<le> num_merchants crs" by (simp_all add: wf)
  have "[0..<7] = [0, 1, 2, 3, 4, 5, 6 :: nat]" by (simp add: upt_rec)
  moreover have "collect_res (make_filler B crs) [0..<7] = Inr (map filler [0..<7])"
    unfolding filler_def by (rule collect_res_map) (simp add: make_filler_of wf)
  ultimately have others: "collect_res (make_filler B crs) [0..<7] =
      Inr [filler 0, filler 1, filler 2, filler 3, filler 4, filler 5, filler 6]"
    by simp
  have insert: "vec_insert 5 (mc_phi c) [filler 0, filler 1, filler 2, filler 3, filler 4, filler 5, filler 6] = Inr xs"
    by (simp add: vec_insert_def xs_def)
  define ben where "ben = ?ben\<lparr>bn_set_id := Some (fill32 42),
      bn_index := Some (length [filler 0, filler 1, filler 2, filler 3, filler 4]), bn_anonymity_set := Some xs\<rparr>"
  have register: "beneficiary_register ?ben (fill32 42) xs = Inr ben"
    unfolding ben_def
    by (rule register_at [where zs = "[filler 5, filler 6]"]) (use fresh in \<open>auto simp: xs_def c_def\<close>)
  have decode: "all_decode B xs"
    using laws(2) by (simp add: all_decode_def xs_def filler_def filler_of_def credential_of_phi c_def seeded_phi)
  have len: "length xs = N_of B" "length xs = 8" "5 < N_of B" by (simp_all add: xs_def N)
  have fields: "bn_anonymity_set ben = Some xs" "bn_index ben = Some 5" "bn_set_id ben = Some (fill32 42)"
    "bn_credential ben = c"
    by (simp_all add: ben_def c_def)
  have create: "create_payment_registration B rng ben crs 2 =
      Inr (ben\<lparr>bn_registrations := (bn_registrations ben)(2 \<mapsto> reg)\<rparr>, reg)"
    using create_registration_honest [OF wf(1) fields(1,2,3) len(1) decode len(3) l] 
    unfolding fields(4) reg_def .
  have "commit_master_identity B crs (all_nullifier_scalars B c crs) (mc_k c)
      (to_scalar_bytes B (mc_friendly_name c)) = Inr (xs ! 5)"
    using wf commit_all_nullifiers [of crs B c]
    by (simp add: wf_generators_def xs_def, simp add: c_def seeded_phi)
  from honest_registration_verifies [OF laws wf(1) len(1) decode len(3) l this]
  have valid: "verify_payment_identity_registration B crs xs reg = Inr True"
    unfolding reg_def .
  have fields_reg: "pr_service_index reg = 2" "pr_set_id reg = fill32 42"
    by (simp_all add: reg_def)
  have again: "reg\<lparr>pr_service_index := 2, pr_set_id := fill32 0xFF\<rparr> = reg\<lparr>pr_set_id := fill32 0xFF\<rparr>"
    using fields_reg by (cases reg) simp
  have fixtures: "make_crs_service B 3 = Inr crs" "make_beneficiary B crs 0xBB (ascii ''my-user'') = Inr ?ben"
    by (simp_all add: crs_def fixture_simps)
  have total: "\<exists>v. verify_payment_identity_registration B crs xs r = Inr v" for r
    unfolding verify_payment_identity_registration_def by (rule verify_total [OF wf(1)])
  obtain v1 where v1: "verify_payment_identity_registration B crs xs (reg\<lparr>pr_service_index := 1\<rparr>) = Inr v1"
    using total by blast
  obtain v2 where v2: "verify_payment_identity_registration B crs xs (reg\<lparr>pr_set_id := fill32 0xFF\<rparr>) = Inr v2"
    using total by blast
  show ?thesis
    using len(2) fields_reg
    by (simp add: full_phase_3_flow_def fixtures others insert register create valid v1 v2 sec1 again fields Let_def
        c_def [symmetric] rbind_unit_iff del: One_nat_def)
qed

end
