(* ===== verification/Unit_Tests_Registry.thy ===== *)
theory Unit_Tests_Registry
  imports Unit_Tests_Crs Tx Store Wallet_Commands
begin

text \<open>
  The unit tests of \<open>core/registry.rs\<close>, \<open>core/tx.rs\<close>, \<open>registry/store.rs\<close> and
  \<open>registry/wallet.rs\<close> that need no node. What they rely on in the bitcoin crate is named: the test
  keys are valid secret keys, the Taproot tweak of the run succeeds, scripts made by
  \<open>new_p2tr_tweaked\<close> are recognised as P2TR, and public keys are serialized compressed.
\<close>

section \<open>core/registry.rs\<close>

definition null_outpoint :: outpoint where
  "null_outpoint = \<lparr>op_txid = replicate 32 0, op_vout = 0\<rparr>"

definition make_registry ::
    "('s, 'p) backend \<Rightarrow> ('k, 'x) btc \<Rightarrow> bytes \<Rightarrow> string list \<Rightarrow> failure + ('p, 'x) registry" where
  "make_registry B T sk_bytes names =
     rbind (registry_new B T sk_bytes 1024 10000) (\<lambda>registry.
     rbind (foldl (\<lambda>acc name. rbind acc (\<lambda>r. rbind (make_provider B (ascii name)) (\<lambda>m.
              Inr (fst (registry_add_merchant r m))))) (Inr registry) names) (\<lambda>registry.
     Inr (registry_setup B registry)))"

definition registry_setup_test :: "('s, 'p) backend \<Rightarrow> ('k, 'x) btc \<Rightarrow> bytes \<Rightarrow> failure + unit" where
  "registry_setup_test B T sk_bytes =
     rbind (make_registry B T sk_bytes [''merchant_1'', ''merchant_2'']) (\<lambda>registry.
     rbind (assert_that ''assert_eq'' (num_merchants (rg_crs registry) = 2)) (\<lambda>_.
     assert_that ''assert'' (rg_anonymity_set registry = [])))"

definition add_beneficiary_returns_index ::
    "('s, 'p::ab_group_add) backend \<Rightarrow> ('k, 'x) btc \<Rightarrow> bytes \<Rightarrow> failure + unit" where
  "add_beneficiary_returns_index B T sk_bytes =
     rbind (make_registry B T sk_bytes [''m1'']) (\<lambda>registry.
     rbind (make_credential B (rg_crs registry) 0x01) (\<lambda>cred0.
     rbind (make_credential B (rg_crs registry) 0x02) (\<lambda>cred1.
     let (registry, i0) = registry_add_beneficiary registry (mc_phi cred0) null_outpoint in
     rbind (assert_that ''assert_eq'' (i0 = 0)) (\<lambda>_.
     let (registry, i1) = registry_add_beneficiary registry (mc_phi cred1) null_outpoint in
     rbind (assert_that ''assert_eq'' (i1 = 1)) (\<lambda>_.
     assert_that ''assert_eq'' (beneficiary_count registry = 2))))))"

definition anonymity_set_returns_all ::
    "('s, 'p::ab_group_add) backend \<Rightarrow> ('k, 'x) btc \<Rightarrow> bytes \<Rightarrow> failure + unit" where
  "anonymity_set_returns_all B T sk_bytes =
     rbind (make_registry B T sk_bytes [''m1'']) (\<lambda>registry.
     rbind (make_credential B (rg_crs registry) 0x42) (\<lambda>cred.
     let (registry, _) = registry_add_beneficiary registry (mc_phi cred) null_outpoint;
         xs = rg_anonymity_set registry in
     rbind (assert_that ''assert_eq'' (length xs = 1)) (\<lambda>_.
     assert_that ''assert_eq'' (xs ! 0 = mc_phi cred))))"

definition registry_public_key_is_valid :: "('s, 'p) backend \<Rightarrow> ('k, 'x) btc \<Rightarrow> bytes \<Rightarrow> failure + unit" where
  "registry_public_key_is_valid B T sk_bytes =
     rbind (make_registry B T sk_bytes [''m1'']) (\<lambda>registry.
     let ser = bt_serialize T (registry_public_key T registry) in
     assert_that ''assert'' (ser ! 0 = 2 \<or> ser ! 0 = 3))"

definition create_anonymity_set_empty :: "('s, 'p) backend \<Rightarrow> ('k, 'x) btc \<Rightarrow> bytes \<Rightarrow> failure + unit" where
  "create_anonymity_set_empty B T sk_bytes =
     rbind (make_registry B T sk_bytes [''m1'']) (\<lambda>registry.
     rbind (create_anonymity_set T registry null_outpoint) (\<lambda>(_, r).
     case r of
       Inr _ \<Rightarrow> Inl (Panic ''called Result::unwrap_err() on an Ok value'')
     | Inl err \<Rightarrow> assert_that ''assert_eq'' (err = Err ''anonymity set is empty'')))"

text \<open>\<open>Script::is_p2tr\<close> belongs to the bitcoin crate.\<close>

definition create_anonymity_set_builds ::
    "('s, 'p::ab_group_add) backend \<Rightarrow> ('k, 'x) btc \<Rightarrow> (bytes \<Rightarrow> bool) \<Rightarrow> bytes \<Rightarrow> failure + unit" where
  "create_anonymity_set_builds B T is_p2tr sk_bytes =
     rbind (make_registry B T sk_bytes [''m1'']) (\<lambda>registry.
     rbind (foldl (\<lambda>acc seed. rbind acc (\<lambda>r. rbind (make_credential B (rg_crs r) seed) (\<lambda>cred.
              Inr (fst (registry_add_beneficiary r (mc_phi cred) null_outpoint))))) (Inr registry)
              (map word_of_nat [1..<9])) (\<lambda>registry.
     rbind (create_anonymity_set T registry null_outpoint) (\<lambda>(_, r).
     rbind (expect ''should build commitment tx'' r) (\<lambda>commitment.
     rbind (assert_that ''assert_eq'' (length (tx_input (tc_tx commitment)) = 1)) (\<lambda>_.
     rbind (assert_that ''assert_eq'' (length (tx_output (tc_tx commitment)) = 1)) (\<lambda>_.
     let expected_value = 10000 * 8; out = tx_output (tc_tx commitment) ! 0 in
     rbind (assert_that ''assert_eq'' (to_value out = expected_value)) (\<lambda>_.
     rbind (assert_that ''output must be P2TR'' (is_p2tr (to_script_pubkey out))) (\<lambda>_.
     assert_that ''assert_ne'' (tc_merkle_root commitment \<noteq> replicate 32 0)))))))))"

text \<open>The registry that the fixture makes.\<close>

definition registry_of ::
    "('s, 'p) backend \<Rightarrow> 'x \<Rightarrow> string list \<Rightarrow> ('p, 'x) registry" where
  "registry_of B keypair names =
     (let ms = map (\<lambda>(i, name). (provider_of B (ascii name))\<lparr>m_merchant_id := i + 1\<rparr>) (enumerate 0 names) in
      \<lparr>rg_crs = crs_setup B ms 1024, rg_merchants = ms, rg_set_size = 1024, rg_anonymity_set = [],
       rg_set_id = replicate 32 0, rg_keypair = keypair, rg_amount = 10000, rg_outputs = []\<rparr>)"

lemma registry_of_sel [simp]:
  "rg_anonymity_set (registry_of B x names) = []" "rg_keypair (registry_of B x names) = x"
  "rg_amount (registry_of B x names) = 10000" "wf_generators (rg_crs (registry_of B x names))"
  "num_merchants (rg_crs (registry_of B x names)) = length names"
  by (simp_all add: registry_of_def Let_def)

lemma add_merchants_of:
  "\<forall>name\<in>set names. length name \<le> 200 \<Longrightarrow>
   foldl (\<lambda>acc name. rbind acc (\<lambda>r. rbind (make_provider B (ascii name)) (\<lambda>m.
       Inr (fst (registry_add_merchant r m))))) (Inr r :: failure + ('p, 'x) registry) names =
     Inr (r\<lparr>rg_merchants := rg_merchants r @ map (\<lambda>(i, name).
       (provider_of B (ascii name))\<lparr>m_merchant_id := i + 1\<rparr>) (enumerate (length (rg_merchants r)) names)\<rparr>)"
proof (induction names arbitrary: r)
  case Nil
  then show ?case by simp
next
  case (Cons name names)
  have "make_provider B (ascii name) = Inr (provider_of B (ascii name))"
    using Cons.prems by (simp add: make_provider_def provider_of_def merchant_new_of del: merchant_new_Inr)
  then show ?case
    using Cons.prems Cons.IH [of "fst (registry_add_merchant r (provider_of B (ascii name)))"]
    by (simp add: registry_add_merchant_def Let_def)
qed

lemma make_registry_of:
  assumes "bt_secret_key T sk_bytes = Some x" "\<forall>name\<in>set names. length name \<le> 200"
  shows "make_registry B T sk_bytes names = Inr (registry_of B x names)"
  using assms
  by (simp add: make_registry_def registry_new_def add_merchants_of registry_setup_def registry_of_def Let_def)

lemma registry_tests:
  fixes B :: "('s::field, 'p::ab_group_add) backend"
  assumes "bt_secret_key T sk_bytes = Some x"
  shows "registry_setup_test B T sk_bytes = Inr ()" "add_beneficiary_returns_index B T sk_bytes = Inr ()"
    "anonymity_set_returns_all B T sk_bytes = Inr ()" "create_anonymity_set_empty B T sk_bytes = Inr ()"
  by (simp_all add: registry_setup_test_def add_beneficiary_returns_index_def anonymity_set_returns_all_def
      create_anonymity_set_empty_def make_registry_of [OF assms] fixture_simps registry_add_beneficiary_def
      beneficiary_count_def create_anonymity_set_def Let_def)

lemma registry_public_key_test:
  assumes "bt_secret_key T sk_bytes = Some x" "sec1_prefix (bt_serialize T (bt_public_key T x))"
  shows "registry_public_key_is_valid B T sk_bytes = Inr ()"
  using assms(2)
  by (simp add: registry_public_key_is_valid_def make_registry_of [OF assms(1)] registry_public_key_def
      sec1_prefix_def Let_def)

text \<open>The commitment of the eight members: the test passes when the tweak of this run succeeds, the
  output is recognised and the root is not the zero digest.\<close>

definition eight_members :: "('s, 'p::ab_group_add) backend \<Rightarrow> bytes list" where
  "eight_members B = map (\<lambda>i. mc_phi (user_of B (rg_crs (registry_of B () [''m1''])) (word_of_nat i))) [1..<9]"

lemma registry_of_crs: "rg_crs (registry_of B x names) = rg_crs (registry_of B () names)"
  by (simp add: registry_of_def Let_def)

lemma add_members_of:
  fixes B :: "('s, 'p::ab_group_add) backend" and r :: "('p, 'x) registry"
  assumes "wf_generators (rg_crs r)"
  shows "foldl (\<lambda>acc seed. rbind acc (\<lambda>r. rbind (make_credential B (rg_crs r) seed) (\<lambda>cred.
       Inr (fst (registry_add_beneficiary r (mc_phi cred) null_outpoint))))) (Inr r :: failure + ('p, 'x) registry) seeds =
     Inr (r\<lparr>rg_anonymity_set := rg_anonymity_set r @ map (\<lambda>s. mc_phi (user_of B (rg_crs r) s)) seeds,
            rg_outputs := rg_outputs r @ replicate (length seeds) null_outpoint\<rparr>)"
  using assms
proof (induction seeds arbitrary: r)
  case Nil
  then show ?case by simp
next
  case (Cons s seeds)
  then show ?case
    by (simp add: make_credential_of registry_add_beneficiary_def Let_def)
qed

lemma create_anonymity_set_builds_test:
  fixes B :: "('s::field, 'p::ab_group_add) backend"
  assumes key: "bt_secret_key T sk_bytes = Some x"
    and root: "merkle_root (bt_sha256 T) (eight_members B) = Inr root"
    and tweak: "bt_scalar_from_be T (bt_sha256 T (bt_x_only T (bt_public_key T x) @ root)) = Some tweak"
      "bt_add_tweak T (bt_x_only T (bt_public_key T x)) tweak = Some out_key"
    and "is_p2tr (bt_p2tr_tweaked T out_key)" "root \<noteq> replicate 32 0"
  shows "create_anonymity_set_builds B T is_p2tr sk_bytes = Inr ()"
proof -
  let ?r = "registry_of B x [''m1'']"
  define r where "r = ?r\<lparr>rg_anonymity_set := eight_members B, rg_outputs := rg_outputs ?r @ replicate 8 null_outpoint\<rparr>"
  have len: "length (eight_members B) = 8"
    by (simp add: eight_members_def)
  then have nonempty: "eight_members B \<noteq> []" by auto
  have members: "foldl (\<lambda>acc seed. rbind acc (\<lambda>r. rbind (make_credential B (rg_crs r) seed) (\<lambda>cred.
       Inr (fst (registry_add_beneficiary r (mc_phi cred) null_outpoint))))) (Inr ?r) (map word_of_nat [1..<9]) = Inr r"
    unfolding r_def eight_members_def
    by (subst add_members_of) (simp_all add: registry_of_crs [of B x] comp_def)
  show ?thesis
    unfolding create_anonymity_set_builds_def make_registry_of [OF key, of "[''m1'']", simplified] rbind_simps members
    using assms(5,6)
    by (simp add: create_anonymity_set_def r_def nonempty root tweak Let_def len)
qed

section \<open>core/tx.rs\<close>

text \<open>\<open>make_user(i as u8, sats)\<close>: the secret is the seed in the last byte, 1 for the seed 0.\<close>

definition test_secret :: "u8 \<Rightarrow> bytes" where
  "test_secret seed = replicate 31 0 @ [if seed = 0 then 1 else seed]"

definition make_user :: "('k, 'x) btc \<Rightarrow> u8 \<Rightarrow> u64 \<Rightarrow> failure + 'k identity_txo" where
  "make_user T seed sats =
     rbind (ok_or (bt_secret_key T (test_secret seed)) (Panic ''called Result::unwrap() on an Err value'')) (\<lambda>sk.
     Inr \<lparr>it_pubkey = bt_public_key T sk, it_amount = sats\<rparr>)"

definition make_users :: "('k, 'x) btc \<Rightarrow> nat \<Rightarrow> u64 \<Rightarrow> failure + 'k identity_txo list" where
  "make_users T n sats_each = collect_res (\<lambda>i. make_user T (word_of_nat i) sats_each) [1..<Suc n]"

definition tree_2_users :: "('k, 'x) btc \<Rightarrow> failure + unit" where
  "tree_2_users T =
     rbind (make_users T 2 10000) (\<lambda>users.
     rbind (unwrap (build_identity_tree T users outpoint_null)) (\<lambda>tree.
     rbind (assert_that ''assert_eq'' (user_count tree = 2)) (\<lambda>_.
     rbind (assert_that ''assert_eq'' (tx_count tree = 2)) (\<lambda>_.
     rbind (tree_value T tree) (\<lambda>v.
     rbind (assert_that ''assert_eq'' (v = 20000)) (\<lambda>_.
     let outs = tx_output (tree_fanout_tx tree) in
     rbind (assert_that ''assert_eq'' (length outs = 2)) (\<lambda>_.
     rbind (assert_that ''assert_eq'' (to_value (outs ! 0) = 10000)) (\<lambda>_.
     assert_that ''assert_eq'' (to_value (outs ! 1) = 10000)))))))))"

definition tree_4_users :: "('k, 'x) btc \<Rightarrow> failure + unit" where
  "tree_4_users T =
     rbind (make_users T 4 5000) (\<lambda>users.
     rbind (unwrap (build_identity_tree T users outpoint_null)) (\<lambda>tree.
     rbind (assert_that ''assert_eq'' (user_count tree = 4)) (\<lambda>_.
     rbind (assert_that ''assert_eq'' (tx_count tree = 2)) (\<lambda>_.
     rbind (tree_value T tree) (\<lambda>v.
     rbind (assert_that ''assert_eq'' (v = 20000)) (\<lambda>_.
     let root_outs = tx_output (tree_root_tx tree) in
     rbind (assert_that ''assert_eq'' (length root_outs = 1)) (\<lambda>_.
     rbind (assert_that ''assert_eq'' (to_value (root_outs ! 0) = 20000)) (\<lambda>_.
     rbind (assert_that ''assert_eq'' (length (tx_output (tree_fanout_tx tree)) = 4)) (\<lambda>_.
     let root_txid = bt_compute_txid T (tree_root_tx tree);
         op = ti_previous_output (tx_input (tree_fanout_tx tree) ! 0) in
     rbind (assert_that ''assert_eq'' (op_txid op = root_txid)) (\<lambda>_.
     assert_that ''assert_eq'' (op_vout op = 0)))))))))))"

definition tree_1024_users :: "('k, 'x) btc \<Rightarrow> failure + unit" where
  "tree_1024_users T =
     rbind (make_users T 1024 1000) (\<lambda>users.
     rbind (unwrap (build_identity_tree T users outpoint_null)) (\<lambda>tree.
     rbind (assert_that ''assert_eq'' (user_count tree = 1024)) (\<lambda>_.
     rbind (assert_that ''assert_eq'' (tx_count tree = 2)) (\<lambda>_.
     rbind (tree_value T tree) (\<lambda>v.
     assert_that ''assert_eq'' (v = 1024000))))))"

definition branch_length :: "('k, 'x) btc \<Rightarrow> failure + unit" where
  "branch_length T =
     rbind (make_users T 8 1000) (\<lambda>users.
     rbind (unwrap (build_identity_tree T users outpoint_null)) (\<lambda>tree.
     rbind (ok_or (tree_branch tree 0) (Panic ''called Option::unwrap() on a None value'')) (\<lambda>branch.
     rbind (assert_that ''assert_eq'' (length branch = 2)) (\<lambda>_.
     rbind (ok_or (tree_branch tree 7) (Panic ''called Option::unwrap() on a None value'')) (\<lambda>branch.
     rbind (assert_that ''assert_eq'' (length branch = 2)) (\<lambda>_.
     assert_that ''assert'' (tree_branch tree 8 = None)))))))"

definition branch_outpoints_chain :: "('k, 'x) btc \<Rightarrow> failure + unit" where
  "branch_outpoints_chain T =
     rbind (make_users T 4 5000) (\<lambda>users.
     rbind (unwrap (build_identity_tree T users outpoint_null)) (\<lambda>tree.
     rbind (ok_or (tree_branch tree 0) (Panic ''called Option::unwrap() on a None value'')) (\<lambda>branch.
     rbind (assert_that ''assert_eq'' (length branch = 2)) (\<lambda>_.
     let root_txid = bt_compute_txid T (branch ! 0); op = ti_previous_output (tx_input (branch ! 1) ! 0) in
     rbind (assert_that ''assert_eq'' (op_txid op = root_txid)) (\<lambda>_.
     assert_that ''assert_eq'' (op_vout op = 0))))))"

definition rejects_single_user :: "('k, 'x) btc \<Rightarrow> failure + unit" where
  "rejects_single_user T =
     rbind (make_users T 1 1000) (\<lambda>users.
     assert_that ''assert'' (isl (build_identity_tree T users outpoint_null)))"

definition different_amounts_per_user :: "('k, 'x) btc \<Rightarrow> failure + unit" where
  "different_amounts_per_user T =
     rbind (make_user T 1 3000) (\<lambda>u1. rbind (make_user T 2 7000) (\<lambda>u2.
     let users = [u1, u2] in
     rbind (unwrap (build_identity_tree T users outpoint_null)) (\<lambda>tree.
     let outs = tx_output (tree_fanout_tx tree) in
     rbind (assert_that ''assert_eq'' (to_value (outs ! 0) = 3000)) (\<lambda>_.
     rbind (assert_that ''assert_eq'' (to_value (outs ! 1) = 7000)) (\<lambda>_.
     rbind (tree_value T tree) (\<lambda>v.
     assert_that ''assert_eq'' (v = 10000)))))))"

text \<open>The keys of the tests are valid, the digests as well (up to a chance of \<open>2\<^sup>-\<^sup>1\<^sup>2\<^sup>7\<close>).\<close>

definition test_keys_valid :: "('k, 'x) btc \<Rightarrow> bool" where
  "test_keys_valid T \<longleftrightarrow>
     (\<forall>seed. bt_secret_key T (test_secret seed) \<noteq> None) \<and>
     (\<forall>keys. bt_secret_key T (sorted_keys_hash T keys) \<noteq> None)"

definition test_user :: "('k, 'x) btc \<Rightarrow> u64 \<Rightarrow> u8 \<Rightarrow> 'k identity_txo" where
  "test_user T sats seed =
     \<lparr>it_pubkey = bt_public_key T (the (bt_secret_key T (test_secret seed))), it_amount = sats\<rparr>"

lemma make_user_of:
  assumes "test_keys_valid T"
  shows "make_user T seed sats = Inr (test_user T sats seed)"
proof -
  have "bt_secret_key T (test_secret seed) \<noteq> None"
    using assms by (simp add: test_keys_valid_def)
  then show ?thesis by (auto simp: make_user_def test_user_def)
qed

lemma make_users_of:
  "test_keys_valid T \<Longrightarrow>
   make_users T n sats = Inr (map (\<lambda>i. test_user T sats (word_of_nat i)) [1..<Suc n])"
  unfolding make_users_def by (rule collect_res_map) (rule make_user_of)

text \<open>The tree of users whose amounts sum below \<open>2\<^sup>6\<^sup>4\<close>.\<close>

lemma built_tree:
  assumes "test_keys_valid T" "amount_laws T" "2 \<le> length users"
    and sum: "sum_list (map (unat \<circ> it_amount) users) < 2 ^ 64"
  defines "all_sats \<equiv> word_of_nat (sum_list (map (unat \<circ> it_amount) users))"
  obtains t where "build_identity_tree T users outpoint_null = Inr t" "tree_users t = users"
    "tree_value T t = Inr all_sats" "map to_value (tx_output (tree_root_tx t)) = [all_sats]"
    "map to_value (tx_output (tree_fanout_tx t)) = map it_amount users"
    "tx_input (tree_fanout_tx t) \<noteq> []"
    "ti_previous_output (tx_input (tree_fanout_tx t) ! 0) =
       \<lparr>op_txid = bt_compute_txid T (tree_root_tx t), op_vout = 0\<rparr>"
proof -
  have amounts: "bt_amount_sum T (map it_amount users) = Inr all_sats"
    using assms(2) sum by (simp add: amount_laws_def comp_def all_sats_def)
  have add: "bt_amount_add T all_sats 0 = Inr all_sats"
    using assms(2) unat_less_pow [of all_sats] by (simp add: amount_laws_def)
  have "bt_secret_key T (sorted_keys_hash T (map it_pubkey users)) \<noteq> None"
    using assms(1) by (simp add: test_keys_valid_def)
  then obtain k where k: "aggregate_keys T (map it_pubkey users) = Inr k"
    by (auto simp: aggregate_keys_def)
  define root where "root = create_root_tx T outpoint_null k all_sats"
  define t where "t = \<lparr>tree_root_tx = root, tree_fanout_tx =
    create_fanout_tx T \<lparr>op_txid = bt_compute_txid T root, op_vout = 0\<rparr> users, tree_users = users\<rparr>"
  have built: "build_identity_tree T users outpoint_null = Inr t"
    using assms(3) by (simp add: build_identity_tree_def build_tree_with_fee_def k amounts add Let_def t_def root_def)
  show ?thesis
    by (rule that [OF built])
      (simp_all add: t_def tree_value_def amounts fanout_values, simp_all add: root_def create_root_tx_def
        create_fanout_tx_def Let_def)
qed

lemma test_users_sum:
  "sum_list (map (unat \<circ> it_amount) (map (\<lambda>i. test_user T sats (word_of_nat i)) [1..<Suc n])) = n * unat sats"
  by (simp add: test_user_def comp_def sum_list_triv del: upt_Suc)

lemma make_users_tree:
  assumes "test_keys_valid T" "amount_laws T" "2 \<le> n" "n * unat sats < 2 ^ 64"
  obtains users t where "make_users T n sats = Inr users" "length users = n"
    "build_identity_tree T users outpoint_null = Inr t" "tree_users t = users"
    "tree_value T t = Inr (word_of_nat (n * unat sats))"
    "map to_value (tx_output (tree_root_tx t)) = [word_of_nat (n * unat sats)]"
    "map to_value (tx_output (tree_fanout_tx t)) = replicate n sats"
    "tx_input (tree_fanout_tx t) \<noteq> []"
    "ti_previous_output (tx_input (tree_fanout_tx t) ! 0) =
       \<lparr>op_txid = bt_compute_txid T (tree_root_tx t), op_vout = 0\<rparr>"
proof -
  define users where "users = map (\<lambda>i. test_user T sats (word_of_nat i)) [1..<Suc n]"
  have sum: "sum_list (map (unat \<circ> it_amount) users) = n * unat sats"
    unfolding users_def by (rule test_users_sum)
  have len: "length users = n"
    by (simp add: users_def)
  have amounts: "map it_amount users = replicate n sats"
    by (simp add: users_def test_user_def comp_def map_replicate_const del: upt_Suc)
  have "2 \<le> length users" "sum_list (map (unat \<circ> it_amount) users) < 2 ^ 64"
    using assms(3,4) by (simp_all only: len sum)
  from built_tree [OF assms(1,2) this] obtain t where t:
    "build_identity_tree T users outpoint_null = Inr t" "tree_users t = users"
    "tree_value T t = Inr (word_of_nat (n * unat sats))"
    "map to_value (tx_output (tree_root_tx t)) = [word_of_nat (n * unat sats)]"
    "map to_value (tx_output (tree_fanout_tx t)) = replicate n sats"
    "tx_input (tree_fanout_tx t) \<noteq> []"
    "ti_previous_output (tx_input (tree_fanout_tx t) ! 0) =
       \<lparr>op_txid = bt_compute_txid T (tree_root_tx t), op_vout = 0\<rparr>"
    unfolding sum amounts by blast
  show ?thesis
    using that [OF make_users_of [OF assms(1), of n sats, folded users_def] len t] .
qed

lemma outputs_of_values:
  "map to_value outs = replicate n v \<Longrightarrow> length outs = n \<and> (\<forall>i<n. to_value (outs ! i) = v)"
  by (metis length_map length_replicate nth_map nth_replicate)

lemma tree_tests:
  assumes T: "test_keys_valid T" "amount_laws T"
  shows "tree_2_users T = Inr ()" "tree_4_users T = Inr ()" "tree_1024_users T = Inr ()"
    "branch_length T = Inr ()" "branch_outpoints_chain T = Inr ()" "rejects_single_user T = Inr ()"
    "different_amounts_per_user T = Inr ()"
proof -
  show "tree_2_users T = Inr ()"
    by (rule make_users_tree [OF T, of 2 10000]) (auto simp: tree_2_users_def user_count_def tx_count_def
      Let_def rbind_unit_iff dest!: outputs_of_values)
  show "tree_4_users T = Inr ()"
    by (rule make_users_tree [OF T, of 4 5000]) (auto simp: tree_4_users_def user_count_def tx_count_def
      Let_def rbind_unit_iff dest!: outputs_of_values)
  show "tree_1024_users T = Inr ()"
    by (rule make_users_tree [OF T, of 1024 1000]) (auto simp: tree_1024_users_def user_count_def tx_count_def)
  show "branch_length T = Inr ()"
    by (rule make_users_tree [OF T, of 8 1000]) (auto simp: branch_length_def tree_branch_def)
  show "branch_outpoints_chain T = Inr ()"
    by (rule make_users_tree [OF T, of 4 5000]) (auto simp: branch_outpoints_chain_def tree_branch_def Let_def)
  show "rejects_single_user T = Inr ()"
    by (simp add: rejects_single_user_def make_users_of [OF T(1)] build_identity_tree_def build_tree_with_fee_def)
  show "different_amounts_per_user T = Inr ()"
  proof (rule built_tree [OF T, of "[test_user T 3000 1, test_user T 7000 2]"])
    fix t
    let ?users = "[test_user T 3000 1, test_user T 7000 2]"
    assume "build_identity_tree T ?users outpoint_null = Inr t" "tree_users t = ?users"
      and "tree_value T t = Inr (word_of_nat (sum_list (map (unat \<circ> it_amount) ?users)))"
      and "map to_value (tx_output (tree_fanout_tx t)) = map it_amount ?users"
    then show ?thesis
      by (auto simp: different_amounts_per_user_def make_user_of [OF T(1)] test_user_def Let_def)
  qed (simp_all add: test_user_def)
qed

section \<open>registry/store.rs\<close>

text \<open>\<open>RegistryStore::new(None, None)\<close> makes a wallet from fresh entropy.\<close>

definition test_store ::
    "('f, 'o, 'w, 'n) bdk \<Rightarrow> bytes \<Rightarrow> failure + ('p, 'x, 'f, 'c, 'd) store" where
  "test_store E entropy = rbind (registry_wallet_new E None entropy) (\<lambda>w. Inr (store_new w None))"

definition add_acme ::
    "('s, 'p) backend \<Rightarrow> 'd db_ops \<Rightarrow> ('p, 'x, 'f, 'c, 'd) store \<Rightarrow>
      ('p, 'x, 'f, 'c, 'd) store \<times> (store_error + unit)" where
  "add_acme B D s = store_add_merchant B D s (ascii ''acme'') (ascii ''https://acme.example'') (ascii ''a@acme.com'')
     (ascii ''555-0100'') outpoint_null 1000"

definition new_store_is_empty :: "('p, 'x, 'f, 'c, 'd) store \<Rightarrow> failure + unit" where
  "new_store_is_empty s =
     rbind (assert_that ''assert'' (st_merchant_pool s = Map.empty)) (\<lambda>_.
     assert_that ''assert'' (st_active_sets s = Map.empty))"

definition add_merchant_succeeds ::
    "('s, 'p) backend \<Rightarrow> 'd db_ops \<Rightarrow> ('p, 'x, 'f, 'c, 'd) store \<Rightarrow> failure + unit" where
  "add_merchant_succeeds B D s =
     (let (s, result) = add_acme B D s in
      rbind (assert_that ''assert'' (\<not> isl result)) (\<lambda>_.
      assert_that ''assert'' (st_merchant_pool s (ascii ''acme'') \<noteq> None)))"

definition add_merchant_rejects_duplicate ::
    "('s, 'p) backend \<Rightarrow> 'd db_ops \<Rightarrow> ('p, 'x, 'f, 'c, 'd) store \<Rightarrow> failure + unit" where
  "add_merchant_rejects_duplicate B D s =
     (case add_acme B D s of
        (_, Inl _) \<Rightarrow> Inl (Panic ''called Result::unwrap() on an Err value'')
      | (s, Inr _) \<Rightarrow>
         (case add_acme B D s of
            (_, Inr _) \<Rightarrow> Inl (Panic ''called Result::unwrap_err() on an Ok value'')
          | (_, Inl err) \<Rightarrow> assert_that ''assert'' (err = AlreadyRegistered (ascii ''acme''))))"

text \<open>\<open>.unwrap()\<close> of a store result.\<close>

definition store_unwrap :: "store_error + 'a \<Rightarrow> failure + 'a" where
  "store_unwrap r = map_err (\<lambda>_. Panic ''called Result::unwrap() on an Err value'') r"

definition address_of_zero_set :: "('p, 'x, 'f, 'c, 'd) store \<Rightarrow> failure + unit" where
  "address_of_zero_set s =
     rbind (store_unwrap (store_get_registry_address s (fill32 0))) (\<lambda>(addr, xonly).
     rbind (assert_that ''assert_eq'' (addr = wl_address (st_wallet s))) (\<lambda>_.
     assert_that ''assert_eq'' (xonly = wl_xonly (st_wallet s))))"

definition address_of_unknown_set :: "('p, 'x, 'f, 'c, 'd) store \<Rightarrow> failure + unit" where
  "address_of_unknown_set s =
     (case store_get_registry_address s (fill32 1) of
        Inr _ \<Rightarrow> Inl (Panic ''called Result::unwrap_err() on an Ok value'')
      | Inl err \<Rightarrow> assert_that ''assert'' (err = SetMissing (fill32 1)))"

definition get_anonymity_set_unknown :: "('p, 'x, 'f, 'c, 'd) store \<Rightarrow> failure + unit" where
  "get_anonymity_set_unknown s = assert_that ''assert'' (isl (store_get_anonymity_set s (fill32 0)))"

definition get_crs_unknown :: "('p, 'x, 'f, 'c, 'd) store \<Rightarrow> failure + unit" where
  "get_crs_unknown s = assert_that ''assert'' (isl (store_get_crs s (fill32 0)))"

definition registry_with_beneficiary ::
    "('s, 'p) backend \<Rightarrow> ('k, 'x) btc \<Rightarrow> bytes \<Rightarrow> failure + ('p, 'x) registry" where
  "registry_with_beneficiary B T sk_bytes =
     rbind (registry_new B T sk_bytes 4 1000) (\<lambda>r.
     Inr (fst (registry_add_beneficiary r (replicate 33 0) outpoint_null)))"

definition create_tx_inserts ::
    "('s, 'p) backend \<Rightarrow> ('k, 'x) btc \<Rightarrow> 'd db_ops \<Rightarrow> bytes \<Rightarrow> ('p, 'x, 'f, 'c, 'd) store \<Rightarrow> failure + unit" where
  "create_tx_inserts B T D sk_bytes s =
     rbind (registry_with_beneficiary B T sk_bytes) (\<lambda>registry.
     let (s, registry, r) = store_create_tx T D s registry 4 1000 in
     rbind (store_unwrap r) (\<lambda>txid. let set_id = txid in
     rbind (store_unwrap (store_get_anonymity_set s set_id)) (\<lambda>active.
     rbind (assert_that ''assert_eq'' (ac_beneficiary_capacity active = 4)) (\<lambda>_.
     rbind (assert_that ''assert_eq'' (ac_sats_per_user active = 1000)) (\<lambda>_.
     assert_that ''assert'' (ac_finalized active))))))"

definition create_tx_retrievable ::
    "('s, 'p) backend \<Rightarrow> ('k, 'x) btc \<Rightarrow> 'd db_ops \<Rightarrow> bytes \<Rightarrow> ('p, 'x, 'f, 'c, 'd) store \<Rightarrow> failure + unit" where
  "create_tx_retrievable B T D sk_bytes s =
     rbind (registry_with_beneficiary B T sk_bytes) (\<lambda>registry.
     let (s, registry, r) = store_create_tx T D s registry 4 1000 in
     rbind (store_unwrap r) (\<lambda>txid. let set_id = txid in
     rbind (store_unwrap (store_get_registry_address s set_id)) (\<lambda>(addr, xonly).
     rbind (assert_that ''assert_eq'' (addr = wl_address (st_wallet s))) (\<lambda>_.
     rbind (assert_that ''assert_eq'' (length xonly = 32)) (\<lambda>_.
     assert_that ''assert'' (\<not> isl (store_get_crs s set_id)))))))"

lemma registry_wallet_shape:
  "registry_wallet_new E c entropy = Inr w \<Longrightarrow> wl_client w = c \<and> length (wl_xonly w) = 32"
  by (auto simp: registry_wallet_new_def derive_wallet_address_def rbind_Inr_iff Let_def split: if_splits)

lemma store_tests:
  fixes s :: "('p, 'x, 'f, 'c, 'd) store" and B :: "('s, 'p) backend" and D :: "'d db_ops"
  assumes "test_store E entropy = Inr s"
  shows "new_store_is_empty s = Inr ()" "add_merchant_succeeds B D s = Inr ()"
    "add_merchant_rejects_duplicate B D s = Inr ()" "address_of_zero_set s = Inr ()"
    "address_of_unknown_set s = Inr ()" "get_anonymity_set_unknown s = Inr ()" "get_crs_unknown s = Inr ()"
proof -
  obtain w where w: "registry_wallet_new E None entropy = Inr w" and s: "s = store_new w None"
    using assms by (auto simp: test_store_def rbind_Inr_iff)
  have pay: "verify_payment w op fee = Inr ()" for op fee
    using registry_wallet_shape [OF w] by (simp add: verify_payment_def)
  have acme: "merchant_new B (ascii ''acme'') (ascii ''https://acme.example'') =
      Inr (merchant_of B (ascii ''acme'') (ascii ''https://acme.example''))"
    by (rule merchant_new_of) simp
  show "new_store_is_empty s = Inr ()" "address_of_zero_set s = Inr ()" "address_of_unknown_set s = Inr ()"
    "get_anonymity_set_unknown s = Inr ()" "get_crs_unknown s = Inr ()"
    by (simp_all add: s store_new_def new_store_is_empty_def address_of_zero_set_def store_unwrap_def
        address_of_unknown_set_def get_anonymity_set_unknown_def get_crs_unknown_def fill32_def
        store_get_registry_address_def store_get_anonymity_set_def store_get_crs_def wallet_get_address_def)
  show "add_merchant_succeeds B D s = Inr ()" "add_merchant_rejects_duplicate B D s = Inr ()"
    by (simp_all add: s store_new_def add_merchant_succeeds_def add_merchant_rejects_duplicate_def add_acme_def
        store_add_merchant_def pay acme Let_def del: merchant_new_Inr)
qed

text \<open>\<open>create_tx\<close> on a registry with one member whose commitment is not even a point: the set is
  stored under the double hash of the output script.\<close>

lemma create_tx_tests:
  fixes s :: "('p, 'x, 'f, 'c, 'd) store" and B :: "('s, 'p) backend" and T :: "('k, 'x) btc" and D :: "'d db_ops"
  assumes store: "test_store E entropy = Inr s" and key: "bt_secret_key T sk_bytes = Some x"
    and tweak: "bt_scalar_from_be T (bt_sha256 T (bt_x_only T (bt_public_key T x) @ bt_sha256 T (replicate 33 0))) = Some tweak"
      "bt_add_tweak T (bt_x_only T (bt_public_key T x)) tweak = Some out_key"
  shows "create_tx_inserts B T D sk_bytes s = Inr ()" "create_tx_retrievable B T D sk_bytes s = Inr ()"
proof -
  obtain w where w: "registry_wallet_new E None entropy = Inr w" and s: "s = store_new w None"
    using store by (auto simp: test_store_def rbind_Inr_iff)
  note shape = registry_wallet_shape [OF w]
  define r :: "('p, 'x) registry" where "r = \<lparr>rg_crs = crs_setup B [] 4, rg_merchants = [], rg_set_size = 4,
    rg_anonymity_set = [replicate 33 0], rg_set_id = replicate 32 0, rg_keypair = x, rg_amount = 1000,
    rg_outputs = [outpoint_null]\<rparr>"
  have r: "registry_with_beneficiary B T sk_bytes = Inr r"
    by (simp add: registry_with_beneficiary_def registry_new_def key registry_add_beneficiary_def Let_def r_def)
  have root: "merkle_root (bt_sha256 T) [replicate 33 0] = Inr (bt_sha256 T (replicate 33 0))"
    by (rule merkle_root_singleton)
  have "rg_anonymity_set r = [replicate 33 0]" "rg_keypair r = x"
    by (simp_all add: r_def)
  then obtain r' c where create: "create_anonymity_set T r outpoint_null = Inr (r', Inr c)"
    and out: "tx_output (tc_tx c) = [\<lparr>to_value = rg_amount r * 1, to_script_pubkey = bt_p2tr_tweaked T out_key\<rparr>]"
    using root tweak by (simp add: create_anonymity_set_def Let_def del: replicate.simps)
  have pay: "fund_and_broadcast T (st_wallet s) script amount = Inr (bt_sha256d T script)" for script amount
    using shape by (simp add: fund_and_broadcast_def s store_new_def)
  have db: "st_db s = None"
    by (simp add: s store_new_def)
  show "create_tx_inserts B T D sk_bytes s = Inr ()"
    by (simp add: create_tx_inserts_def r store_create_tx_def create out pay db Let_def store_unwrap_def
        store_get_anonymity_set_def)
  show "create_tx_retrievable B T D sk_bytes s = Inr ()"
    using shape
    by (simp add: create_tx_retrievable_def r store_create_tx_def create out pay db Let_def store_unwrap_def
        store_get_registry_address_def store_get_crs_def wallet_get_address_def)
      (simp add: s store_new_def)
qed

section \<open>registry/wallet.rs\<close>

definition test_wallet :: "('f, 'o, 'w, 'n) bdk \<Rightarrow> bytes \<Rightarrow> failure + ('f, 'c) wallet" where
  "test_wallet E entropy = registry_wallet_new E None entropy"

definition wallet_address_deterministic :: "('f, 'o, 'w, 'n) bdk \<Rightarrow> bytes \<Rightarrow> failure + unit" where
  "wallet_address_deterministic E entropy =
     rbind (generate_mnemonic E entropy) (\<lambda>mnemonic.
     rbind (unwrap (derive_wallet_address E mnemonic)) (\<lambda>(addr1, key1).
     rbind (unwrap (derive_wallet_address E mnemonic)) (\<lambda>(addr2, key2).
     rbind (assert_that ''assert_eq'' (addr1 = addr2)) (\<lambda>_.
     assert_that ''assert_eq'' (key1 = key2)))))"

definition wallet_address_consistent :: "('f, 'c) wallet \<Rightarrow> failure + unit" where
  "wallet_address_consistent w =
     (let (addr, xonly) = wallet_get_address w in
      rbind (assert_that ''assert_eq'' (addr = wl_address w)) (\<lambda>_.
      rbind (assert_that ''assert_eq'' (xonly = wl_xonly w)) (\<lambda>_.
      assert_that ''assert_eq'' (length xonly = 32))))"

definition verify_payment_skips :: "('f, 'c) wallet \<Rightarrow> failure + unit" where
  "verify_payment_skips w =
     (let outpoint = outpoint_null in assert_that ''assert'' (\<not> isl (verify_payment w outpoint 1000)))"

definition dummy_txid_deterministic :: "('k, 'x) btc \<Rightarrow> ('f, 'c) wallet \<Rightarrow> failure + unit" where
  "dummy_txid_deterministic T w =
     (case fund_and_broadcast T w [] 1000 of
        Inl _ \<Rightarrow> Inl (Panic ''called Result::unwrap() on an Err value'')
      | Inr txid1 \<Rightarrow>
         (case fund_and_broadcast T w [] 1000 of
            Inl _ \<Rightarrow> Inl (Panic ''called Result::unwrap() on an Err value'')
          | Inr txid2 \<Rightarrow> assert_that ''assert_eq'' (txid1 = txid2)))"

definition dummy_txid_differs :: "('k, 'x) btc \<Rightarrow> ('f, 'c) wallet \<Rightarrow> failure + unit" where
  "dummy_txid_differs T w =
     (let script_a = []; script_b = [0x51] in
      case fund_and_broadcast T w script_a 1000 of
        Inl _ \<Rightarrow> Inl (Panic ''called Result::unwrap() on an Err value'')
      | Inr txid_a \<Rightarrow>
         (case fund_and_broadcast T w script_b 1000 of
            Inl _ \<Rightarrow> Inl (Panic ''called Result::unwrap() on an Err value'')
          | Inr txid_b \<Rightarrow> assert_that ''assert_ne'' (txid_a \<noteq> txid_b)))"

definition btc_value_rejects :: "('f, 'c) client \<Rightarrow> failure + unit" where
  "btc_value_rejects c =
     rbind (assert_that ''assert'' (isl (btc_value_to_sats c (JStr (ascii ''1.0''))))) (\<lambda>_.
     assert_that ''assert'' (isl (btc_value_to_sats c JNull)))"

text \<open>Without a node a wallet never spends: the id it reports is the double hash of the script, so
  that the two ids differ exactly when the hash tells the scripts apart.\<close>

lemma wallet_tests:
  fixes w :: "('f, 'c) wallet"
  assumes "test_wallet E entropy = Inr w"
  shows "wallet_address_deterministic E entropy = Inr ()" "wallet_address_consistent w = Inr ()"
    "verify_payment_skips w = Inr ()" "dummy_txid_deterministic T w = Inr ()" "btc_value_rejects c = Inr ()"
    "dummy_txid_differs T w = Inr () \<longleftrightarrow> bt_sha256d T [] \<noteq> bt_sha256d T [0x51]"
proof -
  have w: "registry_wallet_new E None entropy = Inr w"
    using assms by (simp add: test_wallet_def)
  note shape = registry_wallet_shape [OF w]
  obtain m a k where "generate_mnemonic E entropy = Inr m" "derive_wallet_address E m = Inr (a, k)"
    using w by (auto simp: registry_wallet_new_def rbind_Inr_iff)
  then show "wallet_address_deterministic E entropy = Inr ()"
    by (simp add: wallet_address_deterministic_def)
  show "wallet_address_consistent w = Inr ()" "verify_payment_skips w = Inr ()" "btc_value_rejects c = Inr ()"
    "dummy_txid_deterministic T w = Inr ()"
    "dummy_txid_differs T w = Inr () \<longleftrightarrow> bt_sha256d T [] \<noteq> bt_sha256d T [0x51]"
    using shape
    by (simp_all add: wallet_address_consistent_def wallet_get_address_def verify_payment_skips_def verify_payment_def
        btc_value_rejects_def btc_value_to_sats_def as_f64_def dummy_txid_deterministic_def fund_and_broadcast_def
        dummy_txid_differs_def Let_def)
qed

end
