(* ===== verification/Full_Flow_Test.thy ===== *)
theory Full_Flow_Test
  imports Unit_Tests_Proof Unit_Tests_Registry
begin

text \<open>
  \<open>src/src/core/full_flow_test.rs\<close>, the integration test of Phases 0 to 5: registry, credentials,
  anonymity set with its Taproot commitment, registration, the merchant's book, payment request
  and lookup, composed as the test composes them. The randomness of the run (one stream for each
  beneficiary, one for the proof, one for the request), the registry's secret key and the
  address functions of the bitcoin crate are arguments.
\<close>

section \<open>The address functions\<close>

text \<open>\<open>bitcoin::Network\<close>, the parser of public keys, the x coordinate of a key, \<open>Address::p2tr\<close> and the
  text of an address, as \<open>pseudonym_to_address\<close> uses them; \<open>is_p2tr\<close> is the test on scripts.\<close>

datatype network = NetBitcoin | NetTestnet | NetSignet | NetRegtest

record ('e, 'y, 'a) addresses =
  ad_from_slice :: "bytes \<Rightarrow> failure + 'e"
  ad_x_only :: "'e \<Rightarrow> 'y"
  ad_p2tr :: "'y \<Rightarrow> network \<Rightarrow> 'a"
  ad_to_string :: "'a \<Rightarrow> str"
  ad_is_p2tr :: "bytes \<Rightarrow> bool"

text \<open>What the crates document: of the encodings of points, the parser takes exactly those of points other than
  the identity, which is encoded by zeros; Taproot addresses of the main network start with \<open>bc1p\<close>; what
  \<open>new_p2tr_tweaked\<close> makes is a Taproot script.\<close>

definition address_laws :: "('s, 'p::ab_group_add) backend \<Rightarrow> ('k, 'x) btc \<Rightarrow> ('e, 'y, 'a) addresses \<Rightarrow> bool" where
  "address_laws B T A \<longleftrightarrow>
     (\<forall>P. (\<exists>key. ad_from_slice A (bk_to_bytes B P) = Inr key) \<longleftrightarrow> P \<noteq> 0) \<and>
     (\<forall>y. prefix (ascii ''bc1p'') (ad_to_string A (ad_p2tr A y NetBitcoin))) \<and>
     (\<forall>key. ad_is_p2tr A (bt_p2tr_tweaked T key))"

definition identity_laws :: "('s, 'p::ab_group_add) backend \<Rightarrow> bool" where
  "identity_laws B \<longleftrightarrow> bk_to_bytes B 0 = replicate 33 0"

lemma zeros_iff_identity:
  "codec_laws B \<Longrightarrow> identity_laws B \<Longrightarrow> bk_to_bytes B P = replicate 33 0 \<longleftrightarrow> P = 0"
  unfolding codec_laws_def identity_laws_def by (metis option.inject)

lemma sec1_iff:
  assumes "codec_laws B" "sec1_laws B" "identity_laws B"
  shows "sec1_prefix (bk_to_bytes B P) \<longleftrightarrow> bk_to_bytes B P \<noteq> replicate 33 0"
proof (cases "P = 0")
  case True
  then show ?thesis
    using assms(3) by (simp add: identity_laws_def sec1_prefix_def)
next
  case False
  then show ?thesis
    using zeros_iff_identity [OF assms(1,3), of P] assms(2) by simp
qed

definition MERCHANT_NAMES :: "string list" where
  "MERCHANT_NAMES = [''merchant_1'', ''merchant_2'', ''merchant_3'']"

definition BENEFICIARY_NAMES :: "string list" where
  "BENEFICIARY_NAMES = [''alice'', ''bob'', ''carol'', ''dave'', ''eve'', ''frank'', ''grace'', ''heidi'']"

definition SET_SIZE :: nat where "SET_SIZE = 8"

definition SATS_PER_USER :: u64 where "SATS_PER_USER = 10000"

definition funding_outpoint :: outpoint where
  "funding_outpoint = \<lparr>op_txid = replicate 32 0xAA, op_vout = 0\<rparr>"

section \<open>The phases\<close>

text \<open>Phase 0. The id of the first merchant is the one that \<open>add_merchant\<close> returned.\<close>

fun add_merchants :: "('p, 'x) registry \<Rightarrow> merchant list \<Rightarrow> ('p, 'x) registry \<times> nat list" where
  "add_merchants r [] = (r, [])"
| "add_merchants r (m # ms) =
     (let (r', id) = registry_add_merchant r m; (r'', ids) = add_merchants r' ms in (r'', id # ids))"

definition flow_setup ::
    "('s, 'p) backend \<Rightarrow> ('k, 'x) btc \<Rightarrow> bytes \<Rightarrow> failure + (('p, 'x) registry \<times> merchant list \<times> nat)" where
  "flow_setup B T sk_bytes =
     rbind (collect_res (\<lambda>n. make_provider B (ascii n)) MERCHANT_NAMES) (\<lambda>merchants.
     rbind (registry_new B T sk_bytes SET_SIZE SATS_PER_USER) (\<lambda>registry.
     let (registry, ids) = add_merchants registry merchants; registry = registry_setup B registry in
     rbind (assert_that ''assert_eq'' (num_merchants (rg_crs registry) = 3)) (\<lambda>_.
     Inr (registry, merchants, ids ! 0))))"

text \<open>Phase 1.\<close>

definition flow_beneficiaries ::
    "('s, 'p::ab_group_add) backend \<Rightarrow> (nat \<Rightarrow> rng) \<Rightarrow> 'p crs \<Rightarrow> failure + beneficiary list" where
  "flow_beneficiaries B rngs crs =
     rbind (collect_res (\<lambda>(i, name). beneficiary_new B (rngs i) crs (ascii name)) (enumerate 0 BENEFICIARY_NAMES))
       (\<lambda>beneficiaries.
     rbind (assert_that ''assert_eq'' (length beneficiaries = SET_SIZE)) (\<lambda>_.
     rbind (for_each (\<lambda>ben. assert_that ''invalid prefix'' (sec1_prefix (mc_phi (bn_credential ben)))) beneficiaries)
       (\<lambda>_.
     rbind (recompute_phi B (bn_credential (beneficiaries ! 0)) crs) (\<lambda>phi.
     rbind (assert_that ''assert_eq'' (phi = mc_phi (bn_credential (beneficiaries ! 0)))) (\<lambda>_.
     Inr beneficiaries)))))"

text \<open>Phase 2: the set, its commitment, and every beneficiary in it.\<close>

definition flow_anonymity_set ::
    "('k, 'x) btc \<Rightarrow> ('e, 'y, 'a) addresses \<Rightarrow> ('p, 'x) registry \<Rightarrow> beneficiary list \<Rightarrow>
      failure + (('p, 'x) registry \<times> bytes list \<times> beneficiary list)" where
  "flow_anonymity_set T A registry beneficiaries =
     (let registry = foldl (\<lambda>r ben. fst (registry_add_beneficiary r (mc_phi (bn_credential ben)) funding_outpoint))
            registry beneficiaries in
      rbind (assert_that ''assert_eq'' (beneficiary_count registry = SET_SIZE)) (\<lambda>_.
      let xs = rg_anonymity_set registry in
      rbind (assert_that ''assert_eq'' (length xs = SET_SIZE)) (\<lambda>_.
      rbind (assert_that ''assert_eq'' (xs ! 0 = mc_phi (bn_credential (beneficiaries ! 0)))) (\<lambda>_.
      rbind (create_anonymity_set T registry funding_outpoint) (\<lambda>(registry, r).
      rbind (expect ''taproot commitment should succeed'' r) (\<lambda>commitment.
      let tx = tc_tx commitment in
      rbind (assert_that ''assert_eq'' (length (tx_input tx) = 1)) (\<lambda>_.
      rbind (assert_that ''assert_eq'' (length (tx_output tx) = 1)) (\<lambda>_.
      rbind (assert_that ''assert_eq'' (to_value (tx_output tx ! 0) = SATS_PER_USER * word_of_nat SET_SIZE)) (\<lambda>_.
      rbind (assert_that ''assert'' (ad_is_p2tr A (to_script_pubkey (tx_output tx ! 0)))) (\<lambda>_.
      let set_id = rg_set_id registry in
      rbind (collect_res (\<lambda>ben. expect ''the commitment must be in the anonymity set'' (beneficiary_register ben set_id xs))
               beneficiaries) (\<lambda>beneficiaries.
      rbind (assert_that ''assert_eq'' (bn_set_id (beneficiaries ! 0) = Some set_id)) (\<lambda>_.
      rbind (assert_that ''assert_eq'' (bn_index (beneficiaries ! 0) = Some 0)) (\<lambda>_.
      Inr (registry, xs, beneficiaries))))))))))))))"

text \<open>Phases 3 and 4: Alice registers with the first merchant, which accepts her once.\<close>

definition flow_registration ::
    "('s::field, 'p::ab_group_add) backend \<Rightarrow> rng \<Rightarrow> 'p crs \<Rightarrow> bytes \<Rightarrow> bytes list \<Rightarrow> beneficiary \<Rightarrow> merchant \<Rightarrow> nat \<Rightarrow>
      failure + (pid_registration \<times> merchant)" where
  "flow_registration B rng crs set_id xs alice merchant_1 merchant_1_id =
     rbind (expect ''proof generation should succeed'' (create_payment_registration B rng alice crs merchant_1_id))
       (\<lambda>(alice, payment_reg).
     rbind (assert_that ''assert_eq'' (pr_service_index payment_reg = merchant_1_id)) (\<lambda>_.
     rbind (assert_that ''assert_eq'' (pr_set_id payment_reg = set_id)) (\<lambda>_.
     rbind (assert_that ''assert_eq'' (pr_friendly_name payment_reg = ascii ''alice'')) (\<lambda>_.
     rbind (assert_that ''assert'' (bn_registrations alice merchant_1_id \<noteq> None)) (\<lambda>_.
     let merchant_1 = merchant_1\<lparr>m_merchant_id := merchant_1_id\<rparr> in
     rbind (expect ''valid proof should be accepted'' (receive_payment_registration B crs xs merchant_1 payment_reg))
       (\<lambda>(merchant_1, pseudonym).
     rbind (assert_that ''assert_eq'' (pseudonym = pr_pseudonym payment_reg)) (\<lambda>_.
     rbind (assert_that ''assert_eq'' (card (dom (m_registered merchant_1)) = 1)) (\<lambda>_.
     rbind (assert_that ''assert'' (m_registered merchant_1 (pr_pseudonym payment_reg) \<noteq> None)) (\<lambda>_.
     rbind (case receive_payment_registration B crs xs merchant_1 payment_reg of
              Inr _ \<Rightarrow> Inl (Panic ''called Result::unwrap_err() on an Ok value'')
            | Inl replay_err \<Rightarrow>
                assert_that ''assert_eq'' (replay_err = Err ''pseudonym already registered'')) (\<lambda>_.
     rbind (assert_that ''correct name should verify''
              (verify_name_revelation B (pf_name_scalar (pr_proof payment_reg)) (ascii ''alice''))) (\<lambda>_.
     rbind (assert_that ''wrong name should not verify''
              (\<not> verify_name_revelation B (pf_name_scalar (pr_proof payment_reg)) (ascii ''bob''))) (\<lambda>_.
     Inr (payment_reg, merchant_1)))))))))))))"

text \<open>Phase 5.\<close>

definition flow_request ::
    "('s::field, 'p::ab_group_add) backend \<Rightarrow> rng \<Rightarrow> ('e, 'y, 'a) addresses \<Rightarrow> 'p crs \<Rightarrow> beneficiary \<Rightarrow> merchant \<Rightarrow>
      pid_registration \<Rightarrow> failure + unit" where
  "flow_request B rng A crs alice merchant_1 payment_reg =
     (let request = create_payment_request B rng (mc_r (bn_credential alice)) (m_name merchant_1) (crs_g crs) 5000 in
      rbind (expect ''valid pseudonym should produce an address''
               (pseudonym_to_address (ad_from_slice A) (ad_x_only A) (ad_p2tr A) (rq_pseudonym request) NetBitcoin)) (\<lambda>addr.
      rbind (assert_that ''mainnet P2TR address must start with bc1p'' (prefix (ascii ''bc1p'') (ad_to_string A addr))) (\<lambda>_.
      rbind (assert_that ''valid payment request proof should verify''
               (verify_payment_request B (crs_g crs) (rq_pseudonym request) (rq_proof request))) (\<lambda>_.
      rbind (ok_or (m_registered merchant_1 (rq_pseudonym request))
               (Panic ''pseudonym should be registered from Phase 3'')) (\<lambda>registered.
      rbind (assert_that ''assert_eq'' (pr_pseudonym registered = rq_pseudonym request)) (\<lambda>_.
      rbind (assert_that ''assert_eq'' (pr_friendly_name registered = ascii ''alice'')) (\<lambda>_.
      assert_that ''assert_eq'' (pr_public_nullifier registered = pr_public_nullifier payment_reg))))))))"

definition full_protocol_flow ::
    "('s::field, 'p::ab_group_add) backend \<Rightarrow> ('k, 'x) btc \<Rightarrow> ('e, 'y, 'a) addresses \<Rightarrow>
      bytes \<Rightarrow> (nat \<Rightarrow> rng) \<Rightarrow> rng \<Rightarrow> rng \<Rightarrow> failure + unit" where
  "full_protocol_flow B T A sk_bytes rngs proof_rng request_rng =
     rbind (flow_setup B T sk_bytes) (\<lambda>(registry, merchants, merchant_1_id).
     rbind (flow_beneficiaries B rngs (rg_crs registry)) (\<lambda>beneficiaries.
     rbind (flow_anonymity_set T A registry beneficiaries) (\<lambda>(registry, xs, beneficiaries).
     rbind (flow_registration B proof_rng (rg_crs registry) (rg_set_id registry) xs (beneficiaries ! 0)
              (merchants ! 0) merchant_1_id) (\<lambda>(payment_reg, merchant_1).
     flow_request B request_rng A (rg_crs registry) (beneficiaries ! 0) merchant_1 payment_reg))))"

section \<open>The set has eight members\<close>

lemma beneficiary_register_set:
  "beneficiary_register b d xs = Inr b' \<Longrightarrow> bn_anonymity_set b' = Some xs"
  by (auto simp: beneficiary_register_def rbind_Inr_iff)

lemma flow_anonymity_set_Inr:
  assumes "flow_anonymity_set T A registry bens = Inr (registry', xs, bens')" "bens \<noteq> []"
  shows "length xs = 8" "bn_anonymity_set (bens' ! 0) = Some xs"
proof -
  show "length xs = 8"
    using assms(1) by (auto simp: flow_anonymity_set_def Let_def rbind_Inr_iff SET_SIZE_def)
  obtain d where "collect_res (\<lambda>ben. expect ''the commitment must be in the anonymity set''
      (beneficiary_register ben d xs)) bens = Inr bens'"
    using assms(1) by (auto simp: flow_anonymity_set_def Let_def rbind_Inr_iff)
  then show "bn_anonymity_set (bens' ! 0) = Some xs"
    using assms(2) by (cases bens) (auto simp: rbind_Inr_iff dest: beneficiary_register_set)
qed

lemma full_protocol_flow_needs_eight:
  assumes "full_protocol_flow B T A sk rngs rng rng' = Inr ()"
  shows "N_of B = 8"
proof -
  obtain registry merchants id bens registry' xs bens' reg m where
    bens: "flow_beneficiaries B rngs (rg_crs registry) = Inr bens"
    and set: "flow_anonymity_set T A registry bens = Inr (registry', xs, bens')"
    and reg: "flow_registration B rng (rg_crs registry') (rg_set_id registry') xs (bens' ! 0) (merchants ! 0) id =
      Inr (reg, m)"
    using assms unfolding full_protocol_flow_def by (auto simp: rbind_Inr_iff)
  have "bens \<noteq> []"
    using bens by (auto simp: flow_beneficiaries_def rbind_Inr_iff SET_SIZE_def)
  from flow_anonymity_set_Inr [OF set this]
  have xs: "length xs = 8" "bn_anonymity_set (bens' ! 0) = Some xs" .
  obtain out where "create_payment_registration B rng (bens' ! 0) (rg_crs registry') id = Inr out"
    using reg unfolding flow_registration_def by (auto elim: rbind_InrE)
  from create_registration_set_size [OF this xs(2)] xs(1) show ?thesis by simp
qed

section \<open>With eight members the protocol runs\<close>

text \<open>The values of the run: reference string, beneficiaries and set.\<close>

definition flow_merchants :: "('s, 'p) backend \<Rightarrow> merchant list" where
  "flow_merchants B = map (\<lambda>n. provider_of B (ascii n)) MERCHANT_NAMES"

definition flow_crs :: "('s, 'p) backend \<Rightarrow> 'p crs" where
  "flow_crs B = crs_setup B (map (\<lambda>(i, m). m\<lparr>m_merchant_id := i + 1\<rparr>) (enumerate 0 (flow_merchants B))) SET_SIZE"

definition flow_member :: "('s, 'p::ab_group_add) backend \<Rightarrow> (nat \<Rightarrow> rng) \<Rightarrow> nat \<times> string \<Rightarrow> beneficiary" where
  "flow_member B rngs e = (case e of (i, name) \<Rightarrow>
     \<lparr>bn_credential = credential_of B (flow_crs B) (rngs i 0) (rngs i 1) (rngs i 2) (ascii name),
      bn_set_id = None, bn_index = None, bn_anonymity_set = None, bn_registrations = Map.empty\<rparr>)"

definition flow_members :: "('s, 'p::ab_group_add) backend \<Rightarrow> (nat \<Rightarrow> rng) \<Rightarrow> beneficiary list" where
  "flow_members B rngs = map (flow_member B rngs) (enumerate 0 BENEFICIARY_NAMES)"

definition flow_set :: "('s, 'p::ab_group_add) backend \<Rightarrow> (nat \<Rightarrow> rng) \<Rightarrow> bytes list" where
  "flow_set B rngs = map (\<lambda>b. mc_phi (bn_credential b)) (flow_members B rngs)"

lemma flow_crs_fixture [simp]:
  "wf_generators (flow_crs B)" "num_merchants (flow_crs B) = 3"
  "m_name (crs_merchants (flow_crs B) ! 0) = ascii ''merchant_1''"
  by (simp_all add: flow_crs_def flow_merchants_def MERCHANT_NAMES_def)

lemma flow_members_fixture [simp]:
  "length (flow_members B rngs) = 8" "length (flow_set B rngs) = 8"
  "flow_set B rngs ! 0 = mc_phi (bn_credential (flow_members B rngs ! 0))"
  "flow_members B rngs ! 0 = flow_member B rngs (0, ''alice'')"
  by (simp_all add: flow_members_def flow_set_def BENEFICIARY_NAMES_def)

lemma flow_nonempty [simp]: "flow_members B rngs \<noteq> []" "flow_set B rngs \<noteq> []"
  using flow_members_fixture(1,2) [of B rngs] by fastforce+

lemma flow_set_decodes:
  fixes B :: "('s::field, 'p::ab_group_add) backend"
  shows "codec_laws B \<Longrightarrow> all_decode B (flow_set B rngs)"
  by (auto simp: flow_set_def flow_members_def flow_member_def all_decode_def list_all_iff credential_of_phi)

lemma flow_setup_of:
  assumes "bt_secret_key T sk_bytes = Some x"
  shows "flow_setup B T sk_bytes = Inr (\<lparr>rg_crs = flow_crs B, rg_merchants = crs_merchants (flow_crs B),
     rg_set_size = SET_SIZE, rg_anonymity_set = [], rg_set_id = replicate 32 0, rg_keypair = x,
     rg_amount = SATS_PER_USER, rg_outputs = []\<rparr>, flow_merchants B, 1)"
proof -
  have "make_provider B (ascii n) = Inr (provider_of B (ascii n))" if "n \<in> set MERCHANT_NAMES" for n
    using that unfolding make_provider_def provider_of_def
    by (intro merchant_new_of) (auto simp: MERCHANT_NAMES_def)
  then have "collect_res (\<lambda>n. make_provider B (ascii n)) MERCHANT_NAMES = Inr (flow_merchants B)"
    unfolding flow_merchants_def by (rule collect_res_map)
  then show ?thesis
    by (simp add: flow_setup_def registry_new_def assms)
      (simp add: flow_merchants_def MERCHANT_NAMES_def registry_add_merchant_def registry_setup_def
        flow_crs_def crs_setup_def num_merchants_def Let_def)
qed

lemma flow_beneficiaries_of:
  fixes B :: "('s::field, 'p::ab_group_add) backend"
  shows "flow_beneficiaries B rngs (flow_crs B) = Inr bens \<longleftrightarrow>
    bens = flow_members B rngs \<and> list_all sec1_prefix (flow_set B rngs)"
proof -
  have "beneficiary_new B (rngs i) (flow_crs B) (ascii n) = Inr (flow_member B rngs (i, n))"
    if "n \<in> set BENEFICIARY_NAMES" for i n
  proof -
    have "friendly_name_new (ascii n) = Inr (ascii n)"
      using that by (auto simp: BENEFICIARY_NAMES_def)
    then show ?thesis
      by (simp only: beneficiary_new_def Let_def rbind_simps credential_create_of [OF flow_crs_fixture(1)]
          flow_member_def prod.case)
  qed
  then have "collect_res (\<lambda>(i, n). beneficiary_new B (rngs i) (flow_crs B) (ascii n))
      (enumerate 0 BENEFICIARY_NAMES) = Inr (flow_members B rngs)"
    unfolding flow_members_def by (intro collect_res_map) (auto simp: in_set_enumerate_eq)
  moreover have "recompute_phi B (bn_credential (flow_member B rngs e)) (flow_crs B) =
      Inr (mc_phi (bn_credential (flow_member B rngs e)))" for e
    using flow_crs_fixture(1) [of B]
    by (cases e) (simp add: flow_member_def credential_of_phi recompute_phi_wf wf_generators_def del: flow_crs_fixture(1))
  moreover have "for_each (\<lambda>ben. assert_that ''invalid prefix'' (sec1_prefix (mc_phi (bn_credential ben))))
      (flow_members B rngs) = Inr () \<longleftrightarrow> list_all sec1_prefix (flow_set B rngs)"
    by (simp add: flow_set_def list_all_iff)
  ultimately show ?thesis
    by (auto simp: flow_beneficiaries_def SET_SIZE_def rbind_Inr_iff rbind_unit_iff)
qed

text \<open>Phase 2. Alice joins at position 0, whatever the other commitments are.\<close>

definition joined :: "bytes \<Rightarrow> bytes list \<Rightarrow> beneficiary \<Rightarrow> beneficiary" where
  "joined d xs b = b\<lparr>bn_set_id := Some d,
     bn_index := position (\<lambda>c. c = mc_phi (bn_credential b)) xs, bn_anonymity_set := Some xs\<rparr>"

lemma register_joined:
  "mc_phi (bn_credential b) \<in> set xs \<Longrightarrow> beneficiary_register b d xs = Inr (joined d xs b)"
  using position_None [of "\<lambda>c. c = mc_phi (bn_credential b)" xs]
  by (cases "position (\<lambda>c. c = mc_phi (bn_credential b)) xs") (auto simp: beneficiary_register_def joined_def)

lemma joined_first: "xs ! 0 = mc_phi (bn_credential b) \<Longrightarrow> xs \<noteq> [] \<Longrightarrow> bn_index (joined d xs b) = Some 0"
  by (cases xs) (simp_all add: joined_def)

lemma add_members:
  "foldl (\<lambda>r ben. fst (registry_add_beneficiary r (mc_phi (bn_credential ben)) funding_outpoint)) r bens =
     r\<lparr>rg_anonymity_set := rg_anonymity_set r @ map (\<lambda>b. mc_phi (bn_credential b)) bens,
       rg_outputs := rg_outputs r @ replicate (length bens) funding_outpoint\<rparr>"
  by (induction bens arbitrary: r) (simp_all add: registry_add_beneficiary_def Let_def)

text \<open>The key tweaked by the root of the set exists.\<close>

definition flow_commits :: "('s, 'p::ab_group_add) backend \<Rightarrow> ('k, 'x) btc \<Rightarrow> 'x \<Rightarrow> (nat \<Rightarrow> rng) \<Rightarrow> bool" where
  "flow_commits B T x rngs =
     (let key = bt_x_only T (bt_public_key T x) in
      case merkle_root (bt_sha256 T) (flow_set B rngs) of
        Inl _ \<Rightarrow> False
      | Inr root \<Rightarrow>
          (case bt_scalar_from_be T (bt_sha256 T (key @ root)) of
             None \<Rightarrow> False
           | Some tweak \<Rightarrow> bt_add_tweak T key tweak \<noteq> None))"

lemma flow_anonymity_set_of:
  fixes B :: "('s::field, 'p::ab_group_add) backend" and r :: "('p, 'x) registry"
  assumes laws: "address_laws B T A" and r: "rg_anonymity_set r = []" "rg_amount r = SATS_PER_USER"
  shows "\<exists>root r'. rg_crs r' = rg_crs r \<and> rg_set_id r' = root \<and>
    (\<forall>out. flow_anonymity_set T A r (flow_members B rngs) = Inr out \<longleftrightarrow> flow_commits B T (rg_keypair r) rngs \<and>
       out = (r', flow_set B rngs, map (joined root (flow_set B rngs)) (flow_members B rngs)))"
proof -
  let ?xs = "flow_set B rngs" and ?bens = "flow_members B rngs"
  let ?key = "bt_x_only T (bt_public_key T (rg_keypair r))"
  obtain root where root: "merkle_root (bt_sha256 T) ?xs = Inr root"
    using merkle_root_total [OF flow_nonempty(2)] by blast
  define r1 where "r1 = r\<lparr>rg_anonymity_set := ?xs, rg_outputs := rg_outputs r @ replicate 8 funding_outpoint\<rparr>"
  have added: "foldl (\<lambda>r ben. fst (registry_add_beneficiary r (mc_phi (bn_credential ben)) funding_outpoint)) r ?bens = r1"
    using r(1) by (simp add: add_members r1_def flow_set_def)
  have joins: "collect_res (\<lambda>ben. expect ''the commitment must be in the anonymity set''
      (beneficiary_register ben root ?xs)) ?bens = Inr (map (joined root ?xs) ?bens)"
    by (rule collect_res_map) (simp add: register_joined flow_set_def)
  have first: "bn_index (joined root ?xs (flow_member B rngs (0, ''alice''))) = Some 0"
    "bn_set_id (joined root ?xs b) = Some root" for b
    by (simp_all add: joined_first) (simp add: joined_def)
  have p2tr: "ad_is_p2tr A (bt_p2tr_tweaked T key)" for key
    using laws by (simp add: address_laws_def)
  have "flow_anonymity_set T A r ?bens = Inr out \<longleftrightarrow> flow_commits B T (rg_keypair r) rngs \<and>
      out = (r1\<lparr>rg_set_id := root\<rparr>, ?xs, map (joined root ?xs) ?bens)" for out
    unfolding flow_anonymity_set_def added Let_def flow_commits_def root sum.case
    by (cases "bt_scalar_from_be T (bt_sha256 T (?key @ root))";
        cases "bt_add_tweak T ?key (the (bt_scalar_from_be T (bt_sha256 T (?key @ root))))")
      (auto simp: create_anonymity_set_def r1_def root joins first beneficiary_count_def SET_SIZE_def r(2) p2tr Let_def)
  then show ?thesis
    by (intro exI [of _ root] exI [of _ "r1\<lparr>rg_set_id := root\<rparr>"]) (simp add: r1_def)
qed

text \<open>Phases 3 and 4.\<close>

definition flow_credential :: "('s, 'p::ab_group_add) backend \<Rightarrow> (nat \<Rightarrow> rng) \<Rightarrow> credential" where
  "flow_credential B rngs = bn_credential (flow_member B rngs (0, ''alice''))"

definition flow_pseudonym :: "('s, 'p::ab_group_add) backend \<Rightarrow> (nat \<Rightarrow> rng) \<Rightarrow> bytes" where
  "flow_pseudonym B rngs =
     derive_payment_request_pseudonym B (mc_r (flow_credential B rngs)) (ascii ''merchant_1'') (crs_g (flow_crs B))"

lemma flow_registration_of:
  fixes B :: "('s::field, 'p::ab_group_add) backend"
  assumes laws: "mul_laws B" "codec_laws B" and N: "N_of B = 8"
    and names: "bk_sha256 B (ascii ''alice'') \<noteq> bk_sha256 B (ascii ''bob'')"
    and m: "m_registered m = Map.empty"
  shows "\<exists>reg m'. flow_registration B rng (flow_crs B) d (flow_set B rngs)
        (joined d (flow_set B rngs) (flow_member B rngs (0, ''alice''))) m 1 = Inr (reg, m') \<and>
      m_registered m' = [flow_pseudonym B rngs \<mapsto> reg] \<and> m_name m' = m_name m \<and>
      pr_pseudonym reg = flow_pseudonym B rngs \<and> pr_friendly_name reg = ascii ''alice''"
proof -
  let ?crs = "flow_crs B" and ?xs = "flow_set B rngs" and ?c = "flow_credential B rngs"
  define ben where "ben = joined d ?xs (flow_member B rngs (0, ''alice''))"
  have set: "bn_anonymity_set ben = Some ?xs" "bn_index ben = Some 0" "bn_set_id ben = Some d"
    "bn_credential ben = ?c"
    by (simp_all add: ben_def joined_first flow_credential_def) (simp_all add: joined_def)
  have c: "mc_friendly_name ?c = ascii ''alice''" "?xs ! 0 = mc_phi ?c"
    "mc_phi ?c = point_to_bytes B (credential_point B ?crs ?c)"
    by (simp_all add: flow_credential_def flow_member_def credential_of_phi)
  have shape: "length ?xs = N_of B" "all_decode B ?xs" "0 < N_of B" "(1 :: nat) \<le> 1" "1 \<le> num_merchants ?crs"
    using flow_set_decodes [OF laws(2)] by (simp_all add: N)
  define reg where "reg = honest_registration B rng ?crs ?xs 0 1 d (mc_k ?c) (all_nullifier_scalars B ?c ?crs)
    (flow_pseudonym B rngs) (ascii ''alice'')"
  have create: "create_payment_registration B rng ben ?crs 1 =
      Inr (ben\<lparr>bn_registrations := (bn_registrations ben)(1 \<mapsto> reg)\<rparr>, reg)"
    using create_registration_honest [OF flow_crs_fixture(1) set(1-3) shape]
    by (simp add: reg_def set(4) c(1) flow_pseudonym_def del: One_nat_def)
  have "commit_master_identity B ?crs (all_nullifier_scalars B ?c ?crs) (mc_k ?c)
      (to_scalar_bytes B (ascii ''alice'')) = Inr (?xs ! 0)"
    using commit_all_nullifiers [of ?crs B ?c] flow_crs_fixture(1) [of B] c
    by (simp add: wf_generators_def del: flow_crs_fixture(1))
  from honest_registration_verifies [OF laws flow_crs_fixture(1) shape this]
  have valid: "verify_payment_identity_registration B ?crs ?xs reg = Inr True"
    unfolding reg_def .
  have reg: "pr_pseudonym reg = flow_pseudonym B rngs" "pr_service_index reg = 1" "pr_set_id reg = d"
    "pr_friendly_name reg = ascii ''alice''" "pf_name_scalar (pr_proof reg) = bk_sha256 B (ascii ''alice'')"
    by (simp_all add: reg_def to_scalar_bytes_def)
  define m1 where "m1 = m\<lparr>m_merchant_id := 1, m_registered := [flow_pseudonym B rngs \<mapsto> reg]\<rparr>"
  have receive: "receive_payment_registration B ?crs ?xs (m\<lparr>m_merchant_id := 1\<rparr>) reg =
      Inr (m1, flow_pseudonym B rngs)"
    using m valid by (simp add: receive_Inr_iff reg m1_def)
  have replay: "receive_payment_registration B ?crs ?xs m1 reg = Inl (Err ''pseudonym already registered'')"
    by (simp add: receive_payment_registration_def m1_def reg)
  have book: "m_registered m1 = [flow_pseudonym B rngs \<mapsto> reg]"
    by (simp add: m1_def)
  have "flow_registration B rng ?crs d ?xs ben m 1 = Inr (reg, m1)"
    unfolding flow_registration_def create
    using names by (simp add: receive replay reg book verify_name_revelation_def del: One_nat_def)
  then show ?thesis
    by (intro exI [of _ reg] exI [of _ m1]) (simp add: ben_def m1_def reg)
qed

text \<open>The integration test as a whole.\<close>

lemma flow_request_of:
  fixes B :: "('s::field, 'p::ab_group_add) backend"
  assumes laws: "mul_laws B" "codec_laws B" "identity_laws B" "address_laws B T A"
    and b: "bn_credential b = flow_credential B rngs"
    and m: "m_registered m = [flow_pseudonym B rngs \<mapsto> reg]" "m_name m = ascii ''merchant_1''"
      "pr_pseudonym reg = flow_pseudonym B rngs" "pr_friendly_name reg = ascii ''alice''"
  shows "flow_request B rng A (flow_crs B) b m reg = Inr () \<longleftrightarrow> flow_pseudonym B rngs \<noteq> replicate 33 0"
proof -
  define request where "request = create_payment_request B rng (mc_r (flow_credential B rngs))
    (ascii ''merchant_1'') (crs_g (flow_crs B)) 5000"
  have ps: "rq_pseudonym request = flow_pseudonym B rngs"
    by (simp add: request_def create_payment_request_def Let_def flow_pseudonym_def)
  have valid: "verify_payment_request B (crs_g (flow_crs B)) (flow_pseudonym B rngs) (rq_proof request)"
    using honest_request_verifies [OF laws(1,2), of "crs_g (flow_crs B)" rng "mc_r (flow_credential B rngs)"
        "ascii ''merchant_1''" 5000] unfolding request_def [symmetric] ps .
  obtain P where P: "flow_pseudonym B rngs = bk_to_bytes B P"
    by (simp add: flow_pseudonym_def derive_payment_request_pseudonym_def Let_def)
  have parse: "(\<exists>key. ad_from_slice A (flow_pseudonym B rngs) = Inr key) \<longleftrightarrow> flow_pseudonym B rngs \<noteq> replicate 33 0"
    unfolding P zeros_iff_identity [OF laws(2,3)] using laws(4) by (simp add: address_laws_def)
  have bc1p: "prefix (ascii ''bc1p'') (ad_to_string A (ad_p2tr A y NetBitcoin))" for y
    using laws(4) by (simp add: address_laws_def)
  show ?thesis
    unfolding flow_request_def b m(2) request_def [symmetric] Let_def ps pseudonym_to_address_def
    using parse by (cases "ad_from_slice A (flow_pseudonym B rngs)") (simp_all add: valid bc1p m ps ok_or_def)
qed

lemma full_protocol_flow_outcome:
  fixes B :: "('s::field, 'p::ab_group_add) backend"
  assumes laws: "mul_laws B" "codec_laws B" "identity_laws B" "address_laws B T A" and N: "N_of B = 8"
    and key: "bt_secret_key T sk_bytes = Some x"
    and names: "bk_sha256 B (ascii ''alice'') \<noteq> bk_sha256 B (ascii ''bob'')"
  shows "full_protocol_flow B T A sk_bytes rngs proof_rng request_rng = Inr () \<longleftrightarrow>
    list_all sec1_prefix (flow_set B rngs) \<and> flow_commits B T x rngs \<and> flow_pseudonym B rngs \<noteq> replicate 33 0"
proof -
  define r where "r = \<lparr>rg_crs = flow_crs B, rg_merchants = crs_merchants (flow_crs B),
     rg_set_size = SET_SIZE, rg_anonymity_set = [], rg_set_id = replicate 32 0, rg_keypair = x,
     rg_amount = SATS_PER_USER, rg_outputs = []\<rparr>"
  obtain root r' where set: "rg_crs r' = flow_crs B" "rg_set_id r' = root"
    "\<And>out. flow_anonymity_set T A r (flow_members B rngs) = Inr out \<longleftrightarrow> flow_commits B T x rngs \<and>
      out = (r', flow_set B rngs, map (joined root (flow_set B rngs)) (flow_members B rngs))"
    using flow_anonymity_set_of [OF laws(4), of r rngs] by (auto simp: r_def)
  have crs: "rg_crs r = flow_crs B"
    by (simp add: r_def)
  have merchant: "m_registered (flow_merchants B ! 0) = Map.empty"
    "m_name (flow_merchants B ! 0) = ascii ''merchant_1''"
    by (simp_all add: flow_merchants_def MERCHANT_NAMES_def)
  define b where "b = joined root (flow_set B rngs) (flow_member B rngs (0, ''alice''))"
  obtain reg m' where reg: "flow_registration B proof_rng (flow_crs B) root (flow_set B rngs) b (flow_merchants B ! 0) 1 =
        Inr (reg, m')"
    and m': "m_registered m' = [flow_pseudonym B rngs \<mapsto> reg]" "m_name m' = ascii ''merchant_1''"
      "pr_pseudonym reg = flow_pseudonym B rngs" "pr_friendly_name reg = ascii ''alice''"
    using flow_registration_of [OF laws(1,2) N names merchant(1), where rng = proof_rng and rngs = rngs and d = root]
      merchant(2) by (auto simp: b_def)
  have credential: "bn_credential b = flow_credential B rngs"
    by (simp add: b_def joined_def flow_credential_def)
  have alice: "map (joined root (flow_set B rngs)) (flow_members B rngs) ! 0 = b"
    by (simp add: b_def)
  note request = flow_request_of [OF laws credential m', of request_rng]
  show ?thesis
    unfolding full_protocol_flow_def flow_setup_of [OF key] r_def [symmetric] rbind_simps prod.case crs
    using request reg
    by (auto simp: rbind_unit_iff set flow_beneficiaries_of alice simp del: One_nat_def)
qed

section \<open>The default build\<close>

text \<open>The sample backend with three index bits, with the identity printed as zeros, and with hash functions that
  are quick to evaluate, for the witnesses.\<close>

definition sample3 :: "(gf5, gf5) backend" where
  "sample3 = sample\<lparr>bk_M := 3, bk_to_bytes := \<lambda>P. if P = 0 then replicate 33 0 else bk_to_bytes sample P,
     bk_from_bytes := \<lambda>b. if b = replicate 33 0 then Some 0 else bk_from_bytes sample b,
     bk_sha256 := \<lambda>m. replicate 31 0 @ [word_of_nat (length m)], bk_hkdf := \<lambda>_ _ _. sample_key 2,
     bk_hash_to_curve := \<lambda>_ _. 1\<rparr>"

lemma two_not_zeros [simp]: "(2 :: u8) # xs \<noteq> replicate n 0"
  by (cases n) simp_all

lemma sample3_laws: "mul_laws sample3" "codec_laws sample3" "sec1_laws sample3" "identity_laws sample3" "bk_M sample3 = 3"
proof -
  show "mul_laws sample3"
    by (simp add: mul_laws_def sample3_def sample_def algebra_simps)
  show "codec_laws sample3"
    by (simp add: codec_laws_def sample3_def sample_def be_val_zeros be_val_Cons)
qed (simp_all add: sample3_def sec1_laws_def identity_laws_def sec1_prefix_def sample_def)

definition sample_addresses :: "(bytes, bytes, bytes) addresses" where
  "sample_addresses = \<lparr>ad_from_slice = (\<lambda>b. if b = replicate 33 0 then Inl (Err ''malformed public key'') else Inr b),
     ad_x_only = tl, ad_p2tr = (\<lambda>x n. ascii (if n = NetBitcoin then ''bc1p'' else ''bcrt1p'') @ x),
     ad_to_string = (\<lambda>a. a), ad_is_p2tr = (\<lambda>s. take 2 s = [0x51, 0x20])\<rparr>"

lemma sample3_addresses: "address_laws sample3 sample_btc sample_addresses"
  by (simp add: address_laws_def sample_addresses_def sample3_def sample_def sample_btc_def)

lemma sample3_scalars:
  "bytes_to_scalar sample3 (sample_key 2) = Z2" "derive_nullifier sample3 sk name = sample_key 2"
  "bk_mul sample3 = (*)"
  by (simp_all add: sample3_def sample_def bytes_to_scalar_def derive_nullifier_def sample_key_def be_val_zeros be_val_Cons
      gf5_of_def)

lemma sample3_crs: "crs_g (flow_crs sample3) = 1" "crs_h_name (flow_crs sample3) = 1" "crs_generators (flow_crs sample3) = [1, 1, 1]"
  by (simp_all add: flow_crs_def crs_setup_def flow_merchants_def MERCHANT_NAMES_def sample3_def upt_rec)

lemma sample3_point:
  assumes "length name < 256"
  shows "credential_point sample3 (flow_crs sample3) (credential_of sample3 crs sk r (sample_key 2) name) =
    Z3 + gf5_of (length name)"
proof -
  have "bytes_to_scalar sample3 (to_scalar_bytes sample3 name) = gf5_of (length name)"
    using assms
    by (simp add: sample3_def sample_def bytes_to_scalar_def to_scalar_bytes_def be_val_zeros be_val_Cons unat_of_nat)
  moreover have "all_nullifier_scalars sample3 (credential_of sample3 crs sk r (sample_key 2) name) (flow_crs sample3) ! i =
      sample_key 2" if "i < 3" for i
    using that length_all_nullifier_scalars [of sample3 "credential_of sample3 crs sk r (sample_key 2) name" "flow_crs sample3"]
    by (simp add: all_nullifier_scalars_def derive_all_nullifiers_def sample3_scalars)
  moreover have "Z2 + (Z2 + (Z2 + Z2)) = Z3"
    by (simp add: plus_gf5_def gf5_of_def)
  ultimately show ?thesis
    by (simp add: credential_point_def master_point_def sample3_crs sample3_scalars numeral_3_eq_3 lessThan_Suc add.assoc)
qed

lemma sample3_flow:
  "bk_sha256 sample3 (ascii ''alice'') \<noteq> bk_sha256 sample3 (ascii ''bob'')"
  "replicate 33 0 \<notin> set (flow_set sample3 (\<lambda>_. sample_key))" "flow_pseudonym sample3 (\<lambda>_. sample_key) \<noteq> replicate 33 0"
  "flow_commits sample3 sample_btc x rngs"
proof -
  note identity = zeros_iff_identity [OF sample3_laws(2,4)]
  show "bk_sha256 sample3 (ascii ''alice'') \<noteq> bk_sha256 sample3 (ascii ''bob'')"
    by (simp add: sample3_def)
  show "flow_commits sample3 sample_btc x rngs"
    using merkle_root_total [OF flow_nonempty(2), of "bt_sha256 sample_btc" sample3 rngs]
    by (auto simp: flow_commits_def sample_btc_def)
  have "\<forall>n\<in>set BENEFICIARY_NAMES. length n < 256 \<and> Z3 + gf5_of (length n) \<noteq> 0"
    by (simp add: BENEFICIARY_NAMES_def plus_gf5_def gf5_of_def zero_gf5_def)
  then have "bk_to_bytes sample3 (credential_point sample3 (flow_crs sample3)
      (credential_of sample3 (flow_crs sample3) (sample_key 0) (sample_key 1) (sample_key 2) (ascii n))) \<noteq> replicate 33 0"
    if "n \<in> set BENEFICIARY_NAMES" for n
    unfolding identity using that by (simp add: sample3_point)
  then show "replicate 33 0 \<notin> set (flow_set sample3 (\<lambda>_. sample_key))"
    by (auto simp: flow_set_def flow_members_def flow_member_def credential_of_phi point_to_bytes_def in_set_enumerate_eq)
      (metis nth_mem)
  show "flow_pseudonym sample3 (\<lambda>_. sample_key) \<noteq> replicate 33 0"
    unfolding flow_pseudonym_def derive_payment_request_pseudonym_def Let_def identity
    by (simp add: sample3_scalars sample3_crs derive_payment_request_secret_key_def)
      (simp add: sample3_def sample_def bytes_to_scalar_def sample_key_def be_val_zeros be_val_Cons gf5_of_def zero_gf5_def
        one_gf5_def times_gf5_def)
qed

text \<open>C39. The integration test of the whole protocol, from the setup of the registry to the request
  that the merchant finds in its book. With a valid secret key it passes, for every randomness of the
  members, the proof and the request, exactly when the build has \<open>N = 8\<close>, no member's commitment and
  not Alice's pseudonym is the identity, and the tweak of the set exists; the curve, its codec and the
  address functions obey their laws, and SHA-256 tells alice from bob.\<close>

theorem protocol_flow_iff_eight:
  fixes B :: "('s::field, 'p::ab_group_add) backend"
  assumes "mul_laws B" "codec_laws B" "sec1_laws B" "identity_laws B" "address_laws B T A"
    and "bt_secret_key T sk_bytes = Some x" and "bk_sha256 B (ascii ''alice'') \<noteq> bk_sha256 B (ascii ''bob'')"
  shows "\<forall>rngs proof_rng request_rng.
    full_protocol_flow B T A sk_bytes rngs proof_rng request_rng = Inr () \<longleftrightarrow>
      bk_M B = 3 \<and> replicate 33 0 \<notin> set (flow_set B rngs) \<and> flow_pseudonym B rngs \<noteq> replicate 33 0 \<and>
      flow_commits B T x rngs"
proof (intro allI)
  fix rngs proof_rng request_rng
  have "N_of B = 8 \<longleftrightarrow> bk_M B = 3"
    using power_inject_exp [of "2 :: nat" "bk_M B" 3] by (simp add: N_of_pow)
  moreover have "\<exists>P. c = bk_to_bytes B P" if "c \<in> set (flow_set B rngs)" for c
    using that by (auto simp: flow_set_def flow_members_def flow_member_def credential_of_phi point_to_bytes_def)
  then have "list_all sec1_prefix (flow_set B rngs) \<longleftrightarrow> replicate 33 0 \<notin> set (flow_set B rngs)"
    using sec1_iff [OF assms(2-4)] by (fastforce simp: list_all_iff)
  ultimately show "full_protocol_flow B T A sk_bytes rngs proof_rng request_rng = Inr () \<longleftrightarrow>
      bk_M B = 3 \<and> replicate 33 0 \<notin> set (flow_set B rngs) \<and> flow_pseudonym B rngs \<noteq> replicate 33 0 \<and>
      flow_commits B T x rngs"
    using full_protocol_flow_outcome [OF assms(1,2,4,5) _ assms(6,7)] full_protocol_flow_needs_eight by metis
qed

theorem protocol_flow_iff_eight_witness:
  "full_protocol_flow sample3 sample_btc sample_addresses (replicate 32 1) (\<lambda>_. sample_key) sample_key sample_key = Inr ()"
proof -
  have key: "bt_secret_key sample_btc (replicate 32 1) = Some (replicate 32 1)"
    by (simp add: sample_btc_def try_into_array_def)
  show ?thesis
    using protocol_flow_iff_eight [OF sample3_laws(1-4) sample3_addresses key sample3_flow(1)] sample3_laws(5)
      sample3_flow(2-4) by blast
qed



end
