(* ===== verification/Spec2Isabelle.thy ===== *)
theory Spec2Isabelle
  imports Forgeries Anonymity Wire_Format Tx Database_Properties Client Core_Properties Wallet_Properties Registry_Funding Registry_Server Service_Locks Unit_Tests_Wallet
    Full_Flow_Test
begin

text \<open>
  A model of Veiled: pseudonymous payments over Anonymous Self-Credentials, in Rust under
  \<open>src/src\<close>. The theories model all of its implementation files, from the arithmetic of the proofs
  to the processes that use them, and prove what each part does.

  \<^bold>\<open>The program.\<close> A registry collects merchants and beneficiaries, derives a Common Reference String
  (CRS), and publishes an anonymity set of Pedersen commitments anchored by a Bitcoin transaction.
  A beneficiary commits to one nullifier per merchant, joins the published set, and registers a
  pseudonym with a merchant by a one-out-of-many proof. The merchant verifies the proof and pays to
  the address of the pseudonym. Three processes run this: the gRPC registry
  (\<open>bin/registry_grpc.rs\<close>), a JSON helper for the cryptography (\<open>bin/veiled_core.rs\<close>), and a JSON
  helper for wallets (\<open>bin/veiled_wallet.rs\<close>). Clients call the registry through \<open>client.rs\<close>.

  \<^bold>\<open>Foundations.\<close>
  \<^item> Prelude: bytes, results with errors as values (\<open>failure\<close> separates an error from a panic),
    big-endian integers, and the interfaces of the library as locales: \<open>codec\<close> (a byte format and
    its inverse), \<open>registration_book\<close> (insert once), \<open>step_system\<close> and \<open>growing_system\<close> (invariants
    and growth along every run). Each is interpreted on the model: the point and field formats of
    Crs, the books of Merchant, Verifier and Store, the runs of Registry_Core, Merchant, Verifier,
    Service and Database. \<open>wallet_invariant\<close> of Wallet_Properties is the interface of the wallet
    commands to what they keep, interpreted for the other files and for the stored wallets.
  \<^item> Backend (\<open>core/utils.rs\<close>), Types (\<open>core/types.rs\<close>, \<open>build.rs\<close>), Nullifier
    (\<open>core/nullifier.rs\<close>), Std_Text (the text functions of the standard library that the
    helpers use), Command_Monad (files and node as the state of a command).
  \<^item> Sample_Backend, Sample_World and Sample_Wallet hold concrete crates for the witnesses: the field
    with five elements, a reference string with two merchants, a wallet library over a list of
    blocks. No theorem about the program depends on them.

  \<^bold>\<open>Cryptographic core.\<close>
  \<^item> Crs (\<open>core/crs.rs\<close>): the generators, the commitment and the wire format. Wire_Format: the
    round trip, and the origin whose length does not fit the format.
  \<^item> Messages, One_Of_Many, Payment_Identity, Proof_Codec (\<open>core/payment_identity.rs\<close>): the prover,
    the verifier, and the byte format. Completeness: an honest proof is accepted.
    Soundness: acceptance is the conjunction of the documented equations, and an extractor, a
    function of the scalars and challenges of enough proofs with one first message, computes an
    opening of a member, or a relation between the generators.
    Forgeries: the two ways in which the code accepts what the protocol excludes. Anonymity: a proof is
    distributed alike for every member of the set, so it does not show the position of the prover. The
    array loops are proved equal to sums and products over the indices first.
  \<^item> Credential (\<open>core/credential.rs\<close>), Request (\<open>core/request.rs\<close>), Beneficiary
    (\<open>core/beneficiary.rs\<close>), Merchant (\<open>core/merchant.rs\<close>), Verifier (\<open>core/verifier.rs\<close>): the
    participants, their tables and their invariants; the verifier refines an abstract ledger.

  \<^bold>\<open>Registry.\<close>
  \<^item> Bitcoin, Registry_Core (\<open>core/registry.rs\<close>): the transaction and its Merkle root. Tx
    (\<open>core/tx.rs\<close>): the root and fan-out transactions and key aggregation.
  \<^item> Registry_Wallet (\<open>registry/wallet.rs\<close>), Store (\<open>registry/store.rs\<close>), Service
    (\<open>registry/service.rs\<close>): each handler is a function on the service state, and each part of a handler
    under one lock is a step of its own, so that a run is an interleaving of the sections of any
    requests, and of changes of the node's answers. Service_Properties: the invariant of every run, the
    outcome of the handlers, two interleavings that go wrong, and the one payment that registers any
    number of members. Service_Locks: all nine handlers as tasks that wait for the two locks, as an
    inductive step relation in which the transport may drop a request at any time; the tasks refine the
    sections, are worked off in a bounded number of changing steps, except for subscriptions to sets that
    never come to exist, and register no merchant name twice while nobody resets.
  \<^item> Database (\<open>registry/db.rs\<close>): the tables as lists of rows with keys and references;
    Database_Properties: integrity, and what the service leaves on disk.
  \<^item> Client (\<open>client.rs\<close>): the calls over an arbitrary connection and the merchant's side of the CRS.
  \<^item> Registry_Server (\<open>bin/registry_grpc.rs\<close>): the start of the process; what a restart loses, and
    what a capacity above \<open>N\<close> does.

  \<^bold>\<open>Helpers.\<close>
  \<^item> Core_Commands (\<open>bin/veiled_core.rs\<close>): each command of the JSON helper, the dispatch, the
    daemon loop and the single-command mode. Core_Properties: the protocol through its commands.
  \<^item> Wallet_Commands (\<open>bin/veiled_wallet.rs\<close>, and the wallet creation of \<open>registry/wallet.rs\<close>): the
    commands over the world of files and node. Wallet_Properties: the synchronization ends, no
    command touches other files or loses a wallet, except by a write that stops half-way or at a moment
    when its file cannot be read, and what the commands answer. Registry_Funding: the
    registry's own wallet over the same library, which pays for a set from the whole chain.
  \<^item> This theory: the whole protocol through the service, and the set that one garbage commitment
    blocks.

  \<^bold>\<open>The tests of the repository.\<close> The test functions are definitions too: a test is a computation that
  returns \<open>()\<close> or panics, composed of the same operations as in the source, and a lemma says when it
  passes. Test_Support holds assertions and fixtures, Unit_Tests_Identity (\<open>utils.rs\<close>,
  \<open>nullifier.rs\<close>), Unit_Tests_Crs (\<open>crs.rs\<close>, \<open>request.rs\<close>), Unit_Tests_Credential,
  Unit_Tests_Proof (\<open>verifier.rs\<close>, \<open>payment_identity.rs\<close>, Phase 3 of \<open>credential.rs\<close>),
  Unit_Tests_Registry (\<open>registry.rs\<close>, \<open>tx.rs\<close>, \<open>store.rs\<close>, \<open>wallet.rs\<close>), Unit_Tests_Wallet
  (\<open>veiled_wallet.rs\<close>) and Full_Flow_Test (\<open>core/full_flow_test.rs\<close>, Phases 0 to 5). A test that
  expects a refusal which rests on a hash passes exactly when the two hashes differ, and its lemma says
  so. The tests that put a member at position 5 or 6 need \<open>M \<ge> 3\<close>, those that prove in a set of eight
  members \<open>M = 3\<close>; they do not pass in the default build (\<open>default_build_fails_tests\<close>). The test of Phases
  1 and 2 has eight members too, but proves nothing, and passes with every \<open>M\<close>.

  \<^bold>\<open>Correspondence.\<close> A Rust struct is a record with its fields in order, an enum a datatype, a
  method a function that takes and returns the record; \<open>Option\<close> is \<open>option\<close>, \<open>Result\<close> a sum, and a
  panic (\<open>expect\<close>, an index or a slice out of range) the value \<open>Panic\<close> of \<open>failure\<close>. Byte arrays are
  byte lists whose length is stated where it matters; strings are their UTF-8 bytes; \<open>HashMap\<close>
  is a map; \<open>usize\<close> counters of lists are \<open>nat\<close>; amounts, indices and
  lengths on the wire are words that wrap, as in the release build of the Dockerfile. \<open>OsRng\<close> is a stream
  of the buffers it fills, in the order of the code.

  \<^bold>\<open>Parameters and their laws.\<close> Code outside the repository is a parameter. k256, sha2 and
  hkdf: a record over a field and a commutative group with \<open>mul_laws\<close> (multiplication is a module
  action), \<open>codec_laws\<close> (encodings have a fixed length and decode to what they encode) and \<open>digest_laws\<close>
  (digests have 32 bytes). The constant \<open>M\<close> is a field of that record; no theorem fixes it. secp256k1 and
  bitcoin: a record with \<open>sha_laws\<close> and \<open>amount_laws\<close>. The hex crate: \<open>hex_laws\<close> and
  \<open>env_hex_laws\<close>. serde_json: the conversions, with \<open>state_laws\<close> for the state file (printing and
  parsing are inverse). BDK, BIP39 and the node: a record with
  \<open>fresh_wallet_laws\<close> (a new wallet with a checkpoint has no coins, and pending transactions are not
  confirmed), \<open>reveal_laws\<close> (addresses by index), \<open>mnemonic_laws\<close> (words determine the entropy) and \<open>emitter_progress\<close> (each block comes closer to the tip).
  \<open>registration_proof_hides_member\<close> also assumes that the base generator generates the group.
  The unit tests use \<open>sec1_laws\<close> (a point other than the identity is printed with the prefix 2 or 3) and
  \<open>kdf_separates\<close> (HKDF tells the inputs of the test apart); the integration test also \<open>identity_laws\<close> (the
  identity is printed as zeros) and \<open>address_laws\<close> (the key parser refuses only the identity, and
  Taproot addresses and scripts look as documented).
  Every law that a property uses holds of the samples, so that no theorem is about nothing. Collision
  resistance is not assumed: in \<open>merkle_root_binding\<close> the search \<open>find_collision\<close> outputs the collision, and
  in \<open>membership_special_soundness\<close> the extractor outputs the discrete-logarithm relation.

  \<^bold>\<open>Fuel and loops.\<close> Loops over lists are structural recursions. The padding loop and the Merkle
  levels have measures. \<open>next_power_of_two\<close> doubles at most \<open>n\<close> times, which is enough
  (\<open>next_power_of_two_ge\<close>). \<open>subscribe_poll\<close> and \<open>watch_wait\<close> have fuel, the number of polls and of
  changes: the code waits forever, and \<open>subscription_delivers\<close> shows that any fuel beyond the poll
  that sees the set gives the answer.
  \<open>sync_blocks\<close> may run forever against an arbitrary emitter: it is a partial function, and
  \<open>sync_terminates\<close> shows that it returns when the emitter makes progress.

  \<^bold>\<open>Not modelled.\<close> The transport (tonic, the sockets, \<open>connect\<close>), clap and the tracing set-up; the
  log output, except for the slices in log lines that can panic; the texts of \<open>Display\<close>
  and \<open>Debug\<close> and of success messages; the
  memory that \<open>Vec::with_capacity\<close> asks for; failures of SQLite itself, which theory Store takes as
  results of the statements; changes of the node during one synchronization; two paths that
  name one file; and of the tests those that exercise serde_json, BIP39 or BDK alone, those with an empty
  body, the ignored ones that need a node, and \<open>tests/registry_grpc_test.rs\<close>, which drives the server
  over sockets.
\<close>

section \<open>The protocol through the service\<close>

text \<open>What the subscriber of a finalized set gets: the members and the padding, \<open>N\<close> in all.\<close>

lemma finalized_set_delivered:
  fixes B :: "('s::field, 'p::ab_group_add) backend" and sv :: "('p, 'x, 'f, 'o, 'd) service"
  assumes ok: "service_ok B sv" and final: "finalize_set B T D sv (replicate 32 0) = (sv', Inr txid)"
    and id: "length txid = 32" and cap: "cf_beneficiary_capacity (sv_config sv) \<le> N_of B"
    and arrays: "\<forall>c\<in>set (rg_anonymity_set (sv_registry sv)). length c = 33"
  defines "raw \<equiv> rg_anonymity_set (sv_registry sv)"
  defines "xs \<equiv> raw @ replicate (N_of B - length raw) (last raw)"
  shows "client_wait_for_finalization (call_subscribe B) txid sv' = (sv', Inr xs)"
    and "length xs = N_of B" and "set xs = set raw"
proof -
  note served = finalized_set_served [OF final id arrays, folded raw_def]
  show "client_wait_for_finalization (call_subscribe B) txid sv' = (sv', Inr xs)"
    unfolding xs_def by (rule served(1))
  have "length raw \<le> N_of B"
    using ok cap by (simp add: service_ok_def pending_ok_def beneficiary_count_def raw_def)
  then show "length xs = N_of B" "set xs = set raw"
    using served(2) by (auto simp: xs_def)
qed

text \<open>C4. The whole protocol, from the pending set to a stored registration. When the service
  finalizes a set that holds an honest beneficiary's commitment, within the capacity and all of
  decodable commitments, the clients get the reference string and the padded set from it under
  the answered id; the beneficiary joins that set and creates a registration for any merchant
  of the reference string, and that merchant's client, once the set is attached, accepts it.\<close>

theorem finalized_set_serves_protocol:
  fixes B :: "('s::field, 'p::ab_group_add) backend" and sv :: "('p, 'x, 'f, 'o, 'd) service"
  assumes laws: "mul_laws B" "codec_laws B" and ok: "service_ok B sv"
    and final: "finalize_set B T D sv (replicate 32 0) = (sv', Inr txid)" and id: "length txid = 32"
    and crs: "crs = crs_setup B (renumber 0 (rg_merchants (sv_registry sv))) (rg_set_size (sv_registry sv))"
    and wire: "wf_crs (crs_setup B (rg_merchants (sv_registry sv)) (rg_set_size (sv_registry sv)))"
    and new: "beneficiary_new B rng crs fname = Inr b"
    and set: "mc_phi (bn_credential b) \<in> set (rg_anonymity_set (sv_registry sv))"
      "all_decode B (rg_anonymity_set (sv_registry sv))"
      "\<forall>c\<in>set (rg_anonymity_set (sv_registry sv)). length c = 33"
    and cap: "cf_beneficiary_capacity (sv_config sv) \<le> N_of B"
    and l: "1 \<le> l" "l \<le> num_merchants crs"
    and client: "m_registered (ms_merchant s) = Map.empty"
  shows "\<exists>xs b' b'' reg s'.
     client_finalize_set (call_finalize_set B T D) sv = (sv', Inr txid) \<and>
     client_get_crs B (call_get_crs B) txid sv' = (sv', Inr crs) \<and>
     client_wait_for_finalization (call_subscribe B) txid sv' = (sv', Inr xs) \<and>
     beneficiary_register b txid xs = Inr b' \<and>
     create_payment_registration B rng' b' crs l = Inr (b'', reg) \<and>
     state_receive_payment_registration B (attach_set s crs xs) reg = Inr (s', pr_pseudonym reg) \<and>
     m_registered (ms_merchant s') (pr_pseudonym reg) = Some reg"
proof -
  let ?raw = "rg_anonymity_set (sv_registry sv)"
  obtain a where a: "st_active_sets (sv_store sv') txid = Some a"
      "rg_crs (ac_registry a) = crs_setup B (rg_merchants (sv_registry sv)) (rg_set_size (sv_registry sv))"
    using finalize_stores [OF final] by auto
  define xs where "xs = ?raw @ replicate (N_of B - length ?raw) (last ?raw)"
  note xs = finalized_set_delivered [OF ok final id cap set(3), folded xs_def]
  then have decode: "all_decode B xs" and member: "mc_phi (bn_credential b) \<in> set xs"
    using set by (simp_all add: all_decode_def list_all_iff)
  have "client_finalize_set (call_finalize_set B T D) sv = (sv', Inr txid)"
    by (simp add: client_finalize_set_def call_finalize_set_def final)
  moreover have "client_get_crs B (call_get_crs B) txid sv' = (sv', Inr crs)"
    using crs_served [OF laws(2) a(1) id wire a(2)] by (auto simp: client_get_crs_def call_get_crs_def query_def crs)
  moreover note xs(1)
  moreover obtain b' b'' reg where "beneficiary_register b txid xs = Inr b'"
      "create_payment_registration B rng' b' crs l = Inr (b'', reg)"
      "verify_payment_identity_registration B crs xs reg = Inr True"
    using honest_phases [OF laws _ new xs(2) decode member l] crs by fastforce
  moreover from this(3) have "state_receive_payment_registration B (attach_set s crs xs) reg =
      Inr (attach_set s crs xs\<lparr>ms_merchant := (ms_merchant s)\<lparr>m_registered := [pr_pseudonym reg \<mapsto> reg]\<rparr>\<rparr>, pr_pseudonym reg)"
    using client
    by (simp add: state_receive_payment_registration_def attach_set_def receive_payment_registration_def Let_def)
  ultimately show ?thesis
    by fastforce
qed

definition protocol_service :: "(gf5, bytes, nat, unit, nat) service" where
  "protocol_service = sample_service\<lparr>sv_registry := (sv_registry sample_service)
     \<lparr>rg_merchants := [sample_merchant ''a'' 1, sample_merchant ''b'' 2],
      rg_anonymity_set := [mc_phi (bn_credential sample_beneficiary)], rg_outputs := [outpoint_null]\<rparr>\<rparr>"

lemma protocol_service_sel:
  "rg_merchants (sv_registry protocol_service) = [sample_merchant ''a'' 1, sample_merchant ''b'' 2]"
  "rg_anonymity_set (sv_registry protocol_service) = [mc_phi (bn_credential sample_beneficiary)]"
  "rg_set_size (sv_registry protocol_service) = 4" "sv_config protocol_service = config_default"
  "sv_store protocol_service = sample_store" "rg_keypair (sv_registry protocol_service) = sample_key 7"
  by (simp_all add: protocol_service_def sample_service_def)

lemma protocol_service_ok: "service_ok sample protocol_service"
  by (simp add: service_ok_def pending_ok_def beneficiary_count_def registry_ok_def protocol_service_def
      sample_service_def sample_store_def store_new_def config_default_def sample_merchant_def less_Suc_eq)
    (auto intro: exI [of _ "[]"])

lemma protocol_service_finalizes:
  "\<exists>sv' txid. finalize_set sample sample_btc failing_db protocol_service (replicate 32 0) = (sv', Inr txid) \<and>
     length txid = 32"
  by (simp add: finalize_set_def parse_array_def try_into_array_def store_create_tx_def create_anonymity_set_def
      Let_def merkle_root_singleton registry_setup_def protocol_service_sel)
    (simp add: sample_btc_def sample_store_def store_new_def sample_wallet_def fund_and_broadcast_def digest32_def)

lemma protocol_service_crs:
  "sample_crs = crs_setup sample (renumber 0 (rg_merchants (sv_registry protocol_service)))
     (rg_set_size (sv_registry protocol_service))"
  "wf_crs (crs_setup sample (rg_merchants (sv_registry protocol_service)) (rg_set_size (sv_registry protocol_service)))"
  using sample_crs_wf
  by (simp_all add: protocol_service_sel sample_crs_def) (simp add: sample_merchant_def numeral_2_eq_2)

lemma sample_phi_member:
  "point_from_bytes sample (mc_phi (bn_credential sample_beneficiary)) \<noteq> None"
  "length (mc_phi (bn_credential sample_beneficiary)) = 33"
  by (simp_all add: sample_beneficiary_phi sample_codec_laws)

theorem finalized_set_serves_protocol_witness:
  "\<exists>sv' txid xs b' b'' reg s'.
     client_finalize_set (call_finalize_set sample sample_btc failing_db) protocol_service = (sv', Inr txid) \<and>
     client_get_crs sample (call_get_crs sample) txid sv' = (sv', Inr sample_crs) \<and>
     client_wait_for_finalization (call_subscribe sample) txid sv' = (sv', Inr xs) \<and>
     beneficiary_register sample_beneficiary txid xs = Inr b' \<and>
     create_payment_registration sample sample_rng b' sample_crs 2 = Inr (b'', reg) \<and>
     state_receive_payment_registration sample (attach_set (sample_state (sample_merchant ''b'' 2)) sample_crs xs) reg
       = Inr (s', pr_pseudonym reg)"
proof -
  obtain sv' txid where final: "finalize_set sample sample_btc failing_db protocol_service (replicate 32 0) = (sv', Inr txid)"
    and id: "length txid = 32"
    using protocol_service_finalizes by blast
  have "\<exists>xs b' b'' reg s'.
     client_finalize_set (call_finalize_set sample sample_btc failing_db) protocol_service = (sv', Inr txid) \<and>
     client_get_crs sample (call_get_crs sample) txid sv' = (sv', Inr sample_crs) \<and>
     client_wait_for_finalization (call_subscribe sample) txid sv' = (sv', Inr xs) \<and>
     beneficiary_register sample_beneficiary txid xs = Inr b' \<and>
     create_payment_registration sample sample_rng b' sample_crs 2 = Inr (b'', reg) \<and>
     state_receive_payment_registration sample (attach_set (sample_state (sample_merchant ''b'' 2)) sample_crs xs) reg
       = Inr (s', pr_pseudonym reg) \<and>
     m_registered (ms_merchant s') (pr_pseudonym reg) = Some reg"
    by (rule finalized_set_serves_protocol [OF sample_mul_laws sample_codec_laws protocol_service_ok final id
          protocol_service_crs sample_beneficiary_new])
      (use sample_phi_member in \<open>simp_all add: protocol_service_sel all_decode_def config_default_def sample_state_def
        sample_merchant_def\<close>)
  then show ?thesis by blast
qed

lemma registration_panics:
  fixes B :: "('s::field, 'p::ab_group_add) backend"
  assumes wf: "wf_generators crs" and set: "length xs = N_of B" "c \<in> set xs" "point_from_bytes B c = None"
    and l: "1 \<le> l" "l \<le> num_merchants crs" and join: "beneficiary_register b d xs = Inr b'"
  shows "create_payment_registration B rng b' crs l = Inl (Panic ''valid commitment'')"
proof -
  obtain i where i: "i < N_of B" and b': "b' = b\<lparr>bn_set_id := Some d, bn_index := Some i, bn_anonymity_set := Some xs\<rparr>"
    using join set(1) by (auto simp: beneficiary_register_Inr)
  have "prove_payment_identity_registration B rng crs xs i l d (mc_k (bn_credential b))
      (all_nullifier_scalars B (bn_credential b) crs) ps nul ns = Inl (Panic ''valid commitment'')" for ps nul ns
    by (rule prover_panics_on_undecodable_member [OF wf set(1) i set(2,3) l]) simp
  then show ?thesis
    using l by (simp add: create_payment_registration_def b' public_nullifier_def Let_def del: One_nat_def)
qed

text \<open>C14. One garbage commitment denies the set to everyone. The service registers any 33 bytes: once
  bytes that are no point are in the pending set, then after whatever other sections, as long as
  they are not reset away, finalization publishes a set on which every member's prover panics,
  for every reference string and every merchant.\<close>

theorem garbage_commitment_blocks_set:
  fixes B :: "('s::field, 'p::ab_group_add) backend" and sv :: "('p, 'x, 'f, 'o, 'd) service"
  assumes ok: "service_ok B sv" and reg: "register_beneficiary sv q = (sv1, Inr i)"
    and bad: "point_from_bytes B (bm_phi q) = None"
    and run: "sv2 = foldl (section_step B T D) sv1 es" "bm_phi q \<in> set (rg_anonymity_set (sv_registry sv2))"
    and final: "finalize_set B T D sv2 (replicate 32 0) = (sv', Inr txid)" and id: "length txid = 32"
    and cap: "cf_beneficiary_capacity (sv_config sv2) \<le> N_of B"
    and arrays: "\<forall>c\<in>set (rg_anonymity_set (sv_registry sv2)). length c = 33"
  shows "\<exists>xs. client_wait_for_finalization (call_subscribe B) txid sv' = (sv', Inr xs) \<and>
    (\<forall>b b' crs rng l. wf_generators (crs :: 'p crs) \<longrightarrow> 1 \<le> l \<longrightarrow> l \<le> num_merchants crs \<longrightarrow>
       beneficiary_register b txid xs = Inr b' \<longrightarrow>
       create_payment_registration B rng b' crs l = Inl (Panic ''valid commitment''))"
proof -
  obtain outp where "sv1 = section_step B T D sv (BeneficiaryInsert (bm_phi q) outp)"
    using reg
    by (auto simp: register_beneficiary_def section_step_def parse_array_def Let_def split: sum.splits) (metis fst_conv)
  then have "service_ok B sv1"
    by (simp add: service_ok_step [OF ok])
  then have "service_ok B sv2"
    unfolding run(1) by (rule service_runs.run_inv)
  note xs = finalized_set_delivered [OF this final id cap arrays]
  have "create_payment_registration B rng b' crs l = Inl (Panic ''valid commitment'')"
    if "wf_generators (crs :: 'p crs)" "1 \<le> l" "l \<le> num_merchants crs" and reg: "beneficiary_register b txid
      (rg_anonymity_set (sv_registry sv2) @ replicate (N_of B - length (rg_anonymity_set (sv_registry sv2)))
        (last (rg_anonymity_set (sv_registry sv2)))) = Inr b'" for b b' crs rng l
    using registration_panics [OF that(1) xs(2) _ bad that(2,3) reg] run(2) by simp
  then show ?thesis
    using xs(1) by blast
qed

definition garbage_message :: beneficiary_message where
  "garbage_message = \<lparr>bm_phi = replicate 33 9, bm_funding_txid = replicate 32 1, bm_funding_vout = 0\<rparr>"

definition garbage_service :: "(gf5, bytes, nat, unit, nat) service" where
  "garbage_service = fst (register_beneficiary_insert sample_service (replicate 33 9) \<lparr>op_txid = replicate 32 1, op_vout = 0\<rparr>)"

lemma garbage_service_sel:
  "sv_store garbage_service = sample_store" "sv_config garbage_service = config_default"
  "rg_anonymity_set (sv_registry garbage_service) = [replicate 33 9]" "rg_merchants (sv_registry garbage_service) = []"
  "rg_keypair (sv_registry garbage_service) = sample_key 7" "rg_set_size (sv_registry garbage_service) = 4"
  by (simp_all add: garbage_service_def register_beneficiary_insert_def sample_service_def config_default_def
      beneficiary_count_def registry_add_beneficiary_def Let_def)

theorem garbage_commitment_blocks_set_witness:
  "\<exists>i sv' txid xs. register_beneficiary sample_service garbage_message = (garbage_service, Inr i) \<and>
     finalize_set sample sample_btc failing_db garbage_service (replicate 32 0) = (sv', Inr txid) \<and>
     client_wait_for_finalization (call_subscribe sample) txid sv' = (sv', Inr xs) \<and>
     (\<forall>b b' rng. beneficiary_register b txid xs = Inr b' \<longrightarrow>
        create_payment_registration sample rng b' sample_crs 1 = Inl (Panic ''valid commitment''))"
proof -
  obtain i where reg: "register_beneficiary sample_service garbage_message = (garbage_service, Inr i)"
    by (simp add: register_beneficiary_def parse_array_def try_into_array_def parse_txid_def garbage_message_def
        sample_wallet_pays garbage_service_def register_beneficiary_insert_def sample_service_def sample_store_sel
        config_default_def beneficiary_count_def registry_add_beneficiary_def Let_def)
  obtain sv' txid where final: "finalize_set sample sample_btc failing_db garbage_service (replicate 32 0) = (sv', Inr txid)"
    and id: "length txid = 32"
    by (simp add: finalize_set_def parse_array_def try_into_array_def store_create_tx_def create_anonymity_set_def
        Let_def merkle_root_singleton registry_setup_def garbage_service_sel)
      (simp add: sample_btc_def sample_store_def store_new_def sample_wallet_def fund_and_broadcast_def digest32_def)
  have "point_from_bytes sample (bm_phi garbage_message) = None"
    by (simp add: point_from_bytes_def sample_def garbage_message_def)
  from garbage_commitment_blocks_set [OF sample_service_ok reg this _ _ final id, of "[]"]
  show ?thesis
    using reg final sample_wf_generators
    by (fastforce simp: garbage_message_def garbage_service_sel config_default_def)
qed

end
